(* ===== verification/Prelude.thy ===== *)
theory Prelude
  imports Main "HOL-Library.Word"
begin

text \<open>
  Shared ground of the development: the C++ error values, the state-and-exception actions in
  which the operations that touch the platform are written, the conversions between the C++
  integer types, and the facts about them that every component uses.

  An operation that may throw is an \<open>('s, 'a) act\<close>: it takes the state, and gives the outcome
  (\<open>Inl\<close> an error, \<open>Inr\<close> a result) together with the state it leaves behind. The state
  survives an exception, as the mutations of a C++ function do when it is left by a throw.
\<close>

named_theorems act_defs \<open>definitions of the action combinators\<close>
named_theorems keeps_intros \<open>an action preserves an invariant\<close>
named_theorems finding_defs \<open>definitions unfolded to evaluate a closed instance\<close>

section \<open>Errors\<close>

text \<open>
  The exceptions the sources throw or let through. \<open>Undefined\<close> is not an exception: it stands
  for reaching undefined behaviour (an out-of-range vector access, a float-to-int conversion
  out of range), which no handler can catch.
\<close>

datatype cpp_error =
    PcException string
  | RuntimeError string
  | OutOfRange
  | LogicError string
  | JsonException string
  | Undefined string

fun catchable :: "cpp_error \<Rightarrow> bool" where
  "catchable (Undefined _) = False"
| "catchable _ = True"

text \<open>
  \<open>catch (runtime_error &)\<close>: \<open>PcException\<close> derives from it, \<open>out_of_range\<close>, the other logic
  errors and the exceptions of the JSON library do not.
\<close>

fun is_runtime_error :: "cpp_error \<Rightarrow> bool" where
  "is_runtime_error (PcException _) = True"
| "is_runtime_error (RuntimeError _) = True"
| "is_runtime_error _ = False"

type_synonym 'a result = "cpp_error + 'a"
type_synonym ('s, 'a) act = "'s \<Rightarrow> (cpp_error + 'a) \<times> 's"

section \<open>Actions\<close>

definition ret :: "'a \<Rightarrow> ('s, 'a) act" where
  [act_defs]: "ret x s = (Inr x, s)"

definition throw :: "cpp_error \<Rightarrow> ('s, 'a) act" where
  [act_defs]: "throw e s = (Inl e, s)"

definition lift_result :: "'a result \<Rightarrow> ('s, 'a) act" where
  [act_defs]: "lift_result r s = (r, s)"

definition bnd :: "('s, 'a) act \<Rightarrow> ('a \<Rightarrow> ('s, 'b) act) \<Rightarrow> ('s, 'b) act" where
  [act_defs]: "bnd m f s = (case m s of (Inl e, s') \<Rightarrow> (Inl e, s') | (Inr x, s') \<Rightarrow> f x s')"

definition gets :: "('s \<Rightarrow> 'a) \<Rightarrow> ('s, 'a) act" where
  [act_defs]: "gets f s = (Inr (f s), s)"

definition modify :: "('s \<Rightarrow> 's) \<Rightarrow> ('s, unit) act" where
  [act_defs]: "modify f s = (Inr (), f s)"

definition try_catch :: "(cpp_error \<Rightarrow> bool) \<Rightarrow> ('s, 'a) act \<Rightarrow> (cpp_error \<Rightarrow> ('s, 'a) act) \<Rightarrow> ('s, 'a) act" where
  [act_defs]: "try_catch c m h s =
     (case m s of (Inl e, s') \<Rightarrow> (if c e then h e s' else (Inl e, s')) | (Inr x, s') \<Rightarrow> (Inr x, s'))"

text \<open>An action on one component of a pair of states.\<close>

definition on_fst :: "('a, 'r) act \<Rightarrow> ('a \<times> 'b, 'r) act" where
  [act_defs]: "on_fst m s = (case m (fst s) of (r, a') \<Rightarrow> (r, (a', snd s)))"

definition on_snd :: "('b, 'r) act \<Rightarrow> ('a \<times> 'b, 'r) act" where
  [act_defs]: "on_snd m s = (case m (snd s) of (r, b') \<Rightarrow> (r, (fst s, b')))"

text \<open>A loop over the elements of a list, left at the first exception.\<close>

fun for_each :: "'a list \<Rightarrow> ('a \<Rightarrow> ('s, unit) act) \<Rightarrow> ('s, unit) act" where
  "for_each [] f = ret ()"
| "for_each (x # xs) f = bnd (f x) (\<lambda>_. for_each xs f)"

text \<open>
  How an action is left. \<open>exits\<close> names the way out; \<open>post\<close> is the state left behind.
\<close>

definition result_of :: "('s, 'a) act \<Rightarrow> 's \<Rightarrow> 'a result" where
  "result_of m s = fst (m s)"

definition post :: "('s, 'a) act \<Rightarrow> 's \<Rightarrow> 's" where
  "post m s = snd (m s)"

lemma bnd_Inr: "m s = (Inr x, s') \<Longrightarrow> bnd m f s = f x s'"
  by (simp add: bnd_def)

lemma bnd_Inl: "m s = (Inl e, s') \<Longrightarrow> bnd m f s = (Inl e, s')"
  by (simp add: bnd_def)

lemma bnd_ret [simp]: "bnd (ret x) f = f x"
  by (rule ext) (simp add: act_defs)

lemma bnd_throw [simp]: "bnd (throw e) f = throw e"
  by (rule ext) (simp add: act_defs)

lemma lift_result_simps [simp]: "lift_result (Inr x) = ret x" "lift_result (Inl e) = throw e"
  by (rule ext; simp add: act_defs)+

lemma bnd_cong_Inr:
  "(\<And>x t. m s = (Inr x, t) \<Longrightarrow> f x t = g x t) \<Longrightarrow> bnd m f s = bnd m g s"
  by (auto simp: bnd_def split: prod.split sum.split)

lemma bnd_assoc: "bnd (bnd m f) g = bnd m (\<lambda>x. bnd (f x) g)"
  by (rule ext) (simp add: act_defs split: prod.splits sum.splits)

lemma bnd_InrE:
  assumes "bnd m f s = (Inr y, t)"
  obtains x u where "m s = (Inr x, u)" and "f x u = (Inr y, t)"
  using assms by (auto simp: bnd_def split: prod.splits sum.splits)

section \<open>Invariants of actions\<close>

text \<open>
  \<open>keeps I m\<close>: whichever way \<open>m\<close> is left, by its result or by an exception, \<open>I\<close> still holds
  if it held before. The rules follow the combinators, so a composed operation is discharged
  by \<open>intro keeps_intros\<close> from the facts about its parts.
\<close>

definition keeps :: "('s \<Rightarrow> bool) \<Rightarrow> ('s, 'a) act \<Rightarrow> bool" where
  "keeps I m \<longleftrightarrow> (\<forall>s. I s \<longrightarrow> I (snd (m s)))"

lemma keepsI: "(\<And>s. I s \<Longrightarrow> I (snd (m s))) \<Longrightarrow> keeps I m"
  by (simp add: keeps_def)

lemma keepsD: "keeps I m \<Longrightarrow> I s \<Longrightarrow> I (snd (m s))"
  by (simp add: keeps_def)

lemma keeps_ret [keeps_intros]: "keeps I (ret x)"
  by (simp add: keeps_def act_defs)

lemma keeps_throw [keeps_intros]: "keeps I (throw e)"
  by (simp add: keeps_def act_defs)

lemma keeps_lift_result [keeps_intros]: "keeps I (lift_result r)"
  by (simp add: keeps_def act_defs)

lemma keeps_gets [keeps_intros]: "keeps I (gets f)"
  by (simp add: keeps_def act_defs)

lemma keeps_modify: "(\<And>s. I s \<Longrightarrow> I (f s)) \<Longrightarrow> keeps I (modify f)"
  by (simp add: keeps_def act_defs)

lemma keeps_bnd [keeps_intros]:
  assumes "keeps I m" and "\<And>x. keeps I (f x)"
  shows "keeps I (bnd m f)"
proof (rule keepsI)
  fix s assume "I s"
  with assms(1) have "I (snd (m s))" by (rule keepsD)
  with assms(2) show "I (snd (bnd m f s))"
    by (auto simp: bnd_def keeps_def split: prod.splits sum.splits)
qed

lemma keeps_try_catch [keeps_intros]:
  assumes "keeps I m" and "\<And>e. keeps I (h e)"
  shows "keeps I (try_catch c m h)"
proof (rule keepsI)
  fix s assume "I s"
  with assms(1) have "I (snd (m s))" by (rule keepsD)
  with assms(2) show "I (snd (try_catch c m h s))"
    by (auto simp: try_catch_def keeps_def split: prod.splits sum.splits)
qed

lemma keeps_if [keeps_intros]:
  "keeps I m \<Longrightarrow> keeps I n \<Longrightarrow> keeps I (if b then m else n)"
  by simp

lemma keeps_for_each [keeps_intros]:
  "(\<And>x. keeps I (f x)) \<Longrightarrow> keeps I (for_each xs f)"
  by (induction xs) (auto intro: keeps_intros)

lemma keeps_on_snd [keeps_intros]:
  "(\<And>a. keeps (\<lambda>b. I (a, b)) m) \<Longrightarrow> keeps I (on_snd m)"
  by (auto simp: keeps_def on_snd_def split: prod.splits) (metis prod.collapse snd_conv)

lemma keeps_on_fst [keeps_intros]:
  "(\<And>b. keeps (\<lambda>a. I (a, b)) m) \<Longrightarrow> keeps I (on_fst m)"
  by (auto simp: keeps_def on_fst_def split: prod.splits) (metis prod.collapse snd_conv)

lemma keeps_True [simp]: "keeps (\<lambda>_. True) m"
  by (simp add: keeps_def)

section \<open>Which exceptions an action can raise\<close>

definition raises :: "(cpp_error \<Rightarrow> bool) \<Rightarrow> ('s, 'a) act \<Rightarrow> bool" where
  "raises P m \<longleftrightarrow> (\<forall>s e. fst (m s) = Inl e \<longrightarrow> P e)"

named_theorems raises_intros \<open>an action raises only some exceptions\<close>

lemma raises_ret [raises_intros]: "raises P (ret x)"
  by (simp add: raises_def act_defs)

lemma raises_throw [raises_intros]: "P e \<Longrightarrow> raises P (throw e)"
  by (simp add: raises_def act_defs)

lemma raises_gets [raises_intros]: "raises P (gets f)"
  by (simp add: raises_def act_defs)

lemma raises_modify [raises_intros]: "raises P (modify f)"
  by (simp add: raises_def act_defs)

lemma raises_lift_result [raises_intros]: "(\<And>e. r = Inl e \<Longrightarrow> P e) \<Longrightarrow> raises P (lift_result r)"
  by (simp add: raises_def act_defs)

lemma raises_bnd [raises_intros]: "raises P m \<Longrightarrow> (\<And>x. raises P (f x)) \<Longrightarrow> raises P (bnd m f)"
  unfolding raises_def bnd_def by (auto split: prod.splits sum.splits) (metis fst_conv)+

lemma raises_if [raises_intros]: "(b \<Longrightarrow> raises P m) \<Longrightarrow> (\<not> b \<Longrightarrow> raises P n) \<Longrightarrow> raises P (if b then m else n)"
  by simp

lemma raises_for_each [raises_intros]: "(\<And>x. raises P (f x)) \<Longrightarrow> raises P (for_each xs f)"
  by (induction xs) (auto intro: raises_intros)

lemma raises_mono: "raises P m \<Longrightarrow> (\<And>e. P e \<Longrightarrow> Q e) \<Longrightarrow> raises Q m"
  by (auto simp: raises_def)

lemma raises_on_fst [raises_intros]: "raises P m \<Longrightarrow> raises P (on_fst m)"
  unfolding raises_def on_fst_def by (auto split: prod.splits) (metis fst_conv)

lemma raises_on_snd [raises_intros]: "raises P m \<Longrightarrow> raises P (on_snd m)"
  unfolding raises_def on_snd_def by (auto split: prod.splits) (metis fst_conv)

text \<open>A handler for everything the body can raise leaves no exception but its own.\<close>

lemma raises_try_catch [raises_intros]:
  assumes "raises (\<lambda>e. c e \<or> P e) m" and "\<And>e. raises P (h e)"
  shows "raises P (try_catch c m h)"
  using assms unfolding raises_def try_catch_def
  by (auto split: prod.splits sum.splits if_splits) (metis fst_conv)+

lemma raises_FalseD: "raises (\<lambda>_. False) m \<Longrightarrow> \<exists>x s'. m s = (Inr x, s')"
  unfolding raises_def by (metis prod.collapse sum.exhaust_sel sum.collapse(1))

section \<open>C++ integer conversions\<close>

text \<open>
  \<open>short\<close>, \<open>int\<close> and \<open>pid_t\<close> values are \<open>int\<close>; a conversion to a narrower type is written
  out. All of them are two's complement, as gcc and clang implement them. Arithmetic on
  \<open>int\<close> whose overflow is undefined in C++ is left unbounded, with its bounds stated where
  they matter. \<open>uint64_t\<close> is \<open>64 word\<close>, so its arithmetic wraps.
\<close>

definition to_short :: "int \<Rightarrow> int" where
  "to_short x = (x + 2 ^ 15) mod 2 ^ 16 - 2 ^ 15"

definition to_int32 :: "int \<Rightarrow> int" where
  "to_int32 x = (x + 2 ^ 31) mod 2 ^ 32 - 2 ^ 31"

definition is_short :: "int \<Rightarrow> bool" where
  "is_short x \<longleftrightarrow> - (2 ^ 15) \<le> x \<and> x < 2 ^ 15"

definition is_int32 :: "int \<Rightarrow> bool" where
  "is_int32 x \<longleftrightarrow> - (2 ^ 31) \<le> x \<and> x < 2 ^ 31"

lemma to_short_id [simp]: "is_short x \<Longrightarrow> to_short x = x"
  by (simp add: is_short_def to_short_def)

lemma is_short_to_short [simp]: "is_short (to_short x)"
  using pos_mod_bound [of "2 ^ 16 :: int" "x + 2 ^ 15"] pos_mod_sign [of "2 ^ 16 :: int" "x + 2 ^ 15"]
  by (simp add: is_short_def to_short_def)

lemma to_int32_id [simp]: "is_int32 x \<Longrightarrow> to_int32 x = x"
  by (simp add: is_int32_def to_int32_def)

lemma is_int32_to_int32 [simp]: "is_int32 (to_int32 x)"
  using pos_mod_bound [of "2 ^ 32 :: int" "x + 2 ^ 31"] pos_mod_sign [of "2 ^ 32 :: int" "x + 2 ^ 31"]
  by (simp add: is_int32_def to_int32_def)

lemma is_short_int32: "is_short x \<Longrightarrow> is_int32 x"
  by (simp add: is_short_def is_int32_def)

text \<open>The values \<open>INT_MAX\<close> and the conversion of an \<open>int\<close> to \<open>uint64_t\<close>.\<close>

definition INT_MAX :: int where
  "INT_MAX = 2147483647"

definition to_u64 :: "int \<Rightarrow> 64 word" where
  "to_u64 x = word_of_int x"

text \<open>\<open>static_cast<int>\<close> of a \<open>uint64_t\<close>.\<close>

definition u64_to_int :: "64 word \<Rightarrow> int" where
  "u64_to_int w = to_int32 (uint w)"

lemma uint_to_u64: "0 \<le> x \<Longrightarrow> x < 2 ^ 64 \<Longrightarrow> uint (to_u64 x) = x"
  by (simp add: to_u64_def uint_word_of_int)

lemma u64_to_int_to_u64: "is_int32 x \<Longrightarrow> u64_to_int (to_u64 x) = x"
proof -
  assume "is_int32 x"
  have "x mod 2 ^ 64 + 2 ^ 31 = (x + 2 ^ 31) + 2 ^ 32 * (- (2 ^ 32) * (x div 2 ^ 64))"
    by (simp add: minus_mult_div_eq_mod)
  then have "(x mod 2 ^ 64 + 2 ^ 31) mod 2 ^ 32 = (x + 2 ^ 31) mod (2 ^ 32 :: int)"
    by (simp only: mod_mult_self2)
  then have "u64_to_int (to_u64 x) = to_int32 x"
    by (simp add: u64_to_int_def to_u64_def to_int32_def uint_word_of_int)
  with \<open>is_int32 x\<close> show ?thesis by simp
qed

section \<open>Lists with checked access\<close>

text \<open>
  \<open>std::vector::operator[]\<close> out of range is undefined behaviour; the index may be negative
  where the source passes a \<open>short\<close> or an \<open>int\<close>.
\<close>

definition vec_at :: "'a list \<Rightarrow> int \<Rightarrow> 'a result" where
  "vec_at xs i =
     (if 0 \<le> i \<and> i < int (length xs) then Inr (xs ! nat i)
      else Inl (Undefined ''vector index out of range''))"

definition vec_upd :: "'a list \<Rightarrow> int \<Rightarrow> ('a \<Rightarrow> 'a) \<Rightarrow> 'a list result" where
  "vec_upd xs i f =
     (if 0 \<le> i \<and> i < int (length xs) then Inr (xs[nat i := f (xs ! nat i)])
      else Inl (Undefined ''vector index out of range''))"

lemma vec_upd_length: "vec_upd xs i f = Inr ys \<Longrightarrow> length ys = length xs"
  by (auto simp: vec_upd_def split: if_splits)

lemma vec_at_Inr [simp]: "0 \<le> i \<Longrightarrow> i < int (length xs) \<Longrightarrow> vec_at xs i = Inr (xs ! nat i)"
  by (simp add: vec_at_def)

lemma vec_upd_Inr [simp]:
  "0 \<le> i \<Longrightarrow> i < int (length xs) \<Longrightarrow> vec_upd xs i f = Inr (xs[nat i := f (xs ! nat i)])"
  by (simp add: vec_upd_def)

end
