(* ===== verification/Text.thy ===== *)
theory Text
  imports Prelude
begin

text \<open>
  The C and C++ text routines the program leans on: decimal output, \<open>strtol\<close> and
  \<open>strtoull\<close>, the character classes, stream extraction of tokens and numbers and
  \<open>getline\<close> (standard library, C locale), and the project's own \<open>rmcommon::tsplit\<close> and
  \<open>make_path\<close>. A text is a list of characters. A \<open>const char *\<close> into a zero terminated
  string is the suffix it points to: \<open>peek\<close> reads \<open>*p\<close>, giving the terminator at the end,
  and an \<open>endptr\<close> is the suffix that is left.
\<close>

section \<open>Characters\<close>

definition code :: "char \<Rightarrow> nat" where
  "code c = of_char c"

definition isdigit :: "char \<Rightarrow> bool" where
  "isdigit c \<longleftrightarrow> 48 \<le> code c \<and> code c \<le> 57"

definition isalnum :: "char \<Rightarrow> bool" where
  "isalnum c \<longleftrightarrow> isdigit c \<or> (65 \<le> code c \<and> code c \<le> 90) \<or> (97 \<le> code c \<and> code c \<le> 122)"

definition isspace :: "char \<Rightarrow> bool" where
  "isspace c \<longleftrightarrow> (9 \<le> code c \<and> code c \<le> 13) \<or> code c = 32"

definition NUL :: char where
  "NUL = CHR 0x00"

definition NEWLINE :: char where
  "NEWLINE = CHR 0x0A"

fun peek :: "string \<Rightarrow> char" where
  "peek [] = NUL"
| "peek (c # s) = c"

lemma isdigit_NUL [simp]: "\<not> isdigit NUL"
  by (simp add: isdigit_def code_def NUL_def)

lemma isdigit_isalnum: "isdigit c \<Longrightarrow> isalnum c"
  by (simp add: isalnum_def)

lemma isalnum_not_special:
  "isalnum c \<Longrightarrow> \<not> isspace c" "isalnum c \<Longrightarrow> c \<noteq> CHR ''-''" "isalnum c \<Longrightarrow> c \<noteq> CHR ''+''"
  "isalnum c \<Longrightarrow> c \<noteq> CHR '',''" "isalnum c \<Longrightarrow> c \<noteq> CHR '' ''" "isalnum c \<Longrightarrow> c \<noteq> NUL"
  "isalnum c \<Longrightarrow> c \<noteq> CHR '':''" "isalnum c \<Longrightarrow> c \<noteq> CHR ''=''" "isalnum c \<Longrightarrow> c \<noteq> CHR ''/''"
  "isalnum c \<Longrightarrow> c \<noteq> NEWLINE"
  by (auto simp: isalnum_def isdigit_def isspace_def code_def NUL_def NEWLINE_def)

lemmas isdigit_not_special = isalnum_not_special [OF isdigit_isalnum]

section \<open>Decimal output\<close>

definition digit_char :: "nat \<Rightarrow> char" where
  "digit_char n = char_of (48 + n)"

fun show_nat :: "nat \<Rightarrow> string" where
  "show_nat n = (if n < 10 then [digit_char n] else show_nat (n div 10) @ [digit_char (n mod 10)])"

declare show_nat.simps [simp del]

definition show_int :: "int \<Rightarrow> string" where
  "show_int i = (if i < 0 then CHR ''-'' # show_nat (nat (- i)) else show_nat (nat i))"

definition show_u64 :: "64 word \<Rightarrow> string" where
  "show_u64 w = show_nat (unat w)"

definition digits_value :: "string \<Rightarrow> nat" where
  "digits_value s = foldl (\<lambda>v c. 10 * v + (code c - 48)) 0 s"

lemma code_digit_char [simp]: "n < 10 \<Longrightarrow> code (digit_char n) = 48 + n"
  by (simp add: code_def digit_char_def)

lemma isdigit_digit_char [simp]: "n < 10 \<Longrightarrow> isdigit (digit_char n)"
  by (simp add: isdigit_def)

lemma show_nat_digits: "c \<in> set (show_nat n) \<Longrightarrow> isdigit c"
  by (induction n rule: show_nat.induct) (subst (asm) show_nat.simps, auto split: if_splits)

lemma show_nat_not_Nil [simp]: "show_nat n \<noteq> []"
  by (subst show_nat.simps) simp

lemma isdigit_hd_show_nat [simp]: "isdigit (hd (show_nat n))"
  using show_nat_digits [of "hd (show_nat n)" n] by simp

lemma digits_value_snoc: "digits_value (s @ [c]) = 10 * digits_value s + (code c - 48)"
  by (simp add: digits_value_def)

lemma digits_value_show_nat [simp]: "digits_value (show_nat n) = n"
proof (induction n rule: show_nat.induct)
  case (1 n)
  show ?case
  proof (cases "n < 10")
    case True
    then show ?thesis by (subst show_nat.simps) (simp add: digits_value_def)
  next
    case False
    with 1 show ?thesis by (subst show_nat.simps) (simp add: digits_value_snoc)
  qed
qed

lemma show_nat_inject: "show_nat m = show_nat n \<longleftrightarrow> m = n"
  by (metis digits_value_show_nat)

section \<open>Numbers from text\<close>

text \<open>The longest prefix of characters in a class, and what is left.\<close>

definition span :: "(char \<Rightarrow> bool) \<Rightarrow> string \<Rightarrow> string \<times> string" where
  "span P s = (takeWhile P s, dropWhile P s)"

text \<open>
  The common part of \<open>strtol\<close> and \<open>strtoull\<close> in base 10: white space, an optional sign,
  digits. Without digits nothing is consumed.
\<close>

definition scan_number :: "string \<Rightarrow> (bool \<times> nat \<times> string) option" where
  "scan_number s =
     (let s1 = dropWhile isspace s;
          neg = (peek s1 = CHR ''-'');
          s2 = (if neg \<or> peek s1 = CHR ''+'' then tl s1 else s1);
          (ds, rest) = span isdigit s2
      in if ds = [] then None else Some (neg, digits_value ds, rest))"

definition strtoull :: "string \<Rightarrow> 64 word \<times> string" where
  "strtoull s =
     (case scan_number s of
        None \<Rightarrow> (0, s)
      | Some (neg, n, rest) \<Rightarrow>
          (if int n \<ge> 2 ^ 64 then - 1 else if neg then - of_nat n else of_nat n, rest))"

definition strtol :: "string \<Rightarrow> int \<times> string" where
  "strtol s =
     (case scan_number s of
        None \<Rightarrow> (0, s)
      | Some (neg, n, rest) \<Rightarrow>
          (if neg then max (- (2 ^ 63)) (- int n) else min (2 ^ 63 - 1) (int n), rest))"

definition atoi :: "string \<Rightarrow> int" where
  "atoi s = to_int32 (fst (strtol s))"

lemma span_append:
  "(\<And>c. c \<in> set ds \<Longrightarrow> P c) \<Longrightarrow> (rest = [] \<or> \<not> P (hd rest)) \<Longrightarrow> span P (ds @ rest) = (ds, rest)"
  by (cases rest) (auto simp: span_def takeWhile_append2 dropWhile_append2)

lemma dropWhile_hd: "s \<noteq> [] \<Longrightarrow> \<not> P (hd s) \<Longrightarrow> dropWhile P s = s"
  by (cases s) auto

lemma scan_number_show_nat:
  assumes "rest = [] \<or> \<not> isdigit (hd rest)"
  shows "scan_number (show_nat n @ rest) = Some (False, n, rest)"
proof -
  obtain c s where s: "show_nat n = c # s" by (cases "show_nat n") auto
  then have "isdigit c" using isdigit_hd_show_nat [of n] by simp
  then have c: "\<not> isspace c" "c \<noteq> CHR ''-''" "c \<noteq> CHR ''+''" by (simp_all add: isdigit_not_special)
  have "span isdigit (show_nat n @ rest) = (show_nat n, rest)"
    using assms by (intro span_append) (auto simp: show_nat_digits)
  moreover have "dropWhile isspace (show_nat n @ rest) = show_nat n @ rest"
    "peek (show_nat n @ rest) = c" using c s by simp_all
  ultimately show ?thesis using c by (simp add: scan_number_def Let_def)
qed

lemma strtoull_show_nat:
  "n < 2 ^ 64 \<Longrightarrow> rest = [] \<or> \<not> isdigit (hd rest) \<Longrightarrow> strtoull (show_nat n @ rest) = (of_nat n, rest)"
  by (simp add: strtoull_def scan_number_show_nat)

lemma strtol_show_nat:
  "n < 2 ^ 63 \<Longrightarrow> rest = [] \<or> \<not> isdigit (hd rest) \<Longrightarrow> strtol (show_nat n @ rest) = (int n, rest)"
  by (simp add: strtol_def scan_number_show_nat)

lemma strtoull_show_u64:
  "rest = [] \<or> \<not> isdigit (hd rest) \<Longrightarrow> strtoull (show_u64 w @ rest) = (w, rest)"
  using strtoull_show_nat [of "unat w" rest] unsigned_less [where 'b = 64 and 'a = nat, of w]
  by (simp add: show_u64_def)

lemma strtol_rest_shorter: "isdigit (peek s) \<Longrightarrow> length (snd (strtol s)) < length s"
proof (cases s)
  case (Cons c t)
  assume "isdigit (peek s)"
  with Cons have c: "isdigit c" "\<not> isspace c" "c \<noteq> CHR ''-''" "c \<noteq> CHR ''+''"
    by (auto simp: isdigit_not_special)
  with Cons have "snd (strtol s) = dropWhile isdigit t"
    by (simp add: strtol_def scan_number_def span_def Let_def)
  with Cons show ?thesis by (simp add: le_imp_less_Suc length_dropWhile_le)
qed simp

section \<open>Streams\<close>

text \<open>
  Extraction from an \<open>istream\<close>: \<open>None\<close> is a stream that has failed. \<open>is >> s\<close> takes the
  next word; \<open>is >> n\<close> reads a number, and fails (it leaves the extreme value, which the
  sources never look at) when the number does not fit.
\<close>

definition read_word :: "string \<Rightarrow> (string \<times> string) option" where
  "read_word s =
     (let (w, rest) = span (\<lambda>c. \<not> isspace c) (dropWhile isspace s)
      in if w = [] then None else Some (w, rest))"

definition read_u64 :: "string \<Rightarrow> (64 word \<times> string) option" where
  "read_u64 s =
     (case scan_number s of
        None \<Rightarrow> None
      | Some (neg, n, rest) \<Rightarrow>
          (if int n \<ge> 2 ^ 64 then None else Some (if neg then - of_nat n else of_nat n, rest)))"

definition read_int :: "string \<Rightarrow> (int \<times> string) option" where
  "read_int s =
     (case scan_number s of
        None \<Rightarrow> None
      | Some (neg, n, rest) \<Rightarrow>
          (let i = (if neg then - int n else int n) in if is_int32 i then Some (i, rest) else None))"

text \<open>\<open>getline\<close>, once and to the end of the file.\<close>

definition first_line :: "string \<Rightarrow> string" where
  "first_line s = takeWhile (\<lambda>c. c \<noteq> NEWLINE) s"

function all_lines :: "string \<Rightarrow> string list" where
  "all_lines s = (if s = [] then [] else first_line s # all_lines (drop (Suc (length (first_line s))) s))"
  by pat_completeness auto
termination by (relation "measure length") auto

declare all_lines.simps [simp del]

lemma read_word_append:
  assumes "w \<noteq> []" and "\<And>c. c \<in> set w \<Longrightarrow> \<not> isspace c" and "rest = [] \<or> isspace (hd rest)"
  shows "read_word (w @ rest) = Some (w, rest)"
proof -
  have "dropWhile isspace (w @ rest) = w @ rest"
    using assms by (intro dropWhile_hd) auto
  moreover have "span (\<lambda>c. \<not> isspace c) (w @ rest) = (w, rest)"
    using assms by (intro span_append) auto
  ultimately show ?thesis using assms(1) by (simp add: read_word_def)
qed

lemma first_line_plain: "NEWLINE \<notin> set s \<Longrightarrow> first_line s = s"
  by (auto simp: first_line_def takeWhile_eq_all_conv)

section \<open>Splitting and joining\<close>

text \<open>
  \<open>tsplit\<close>: at the head of its loop \<open>i = j\<close>, so its state is the suffix at \<open>i\<close>. The loop
  stops when \<open>j\<close> has reached the end, so a separator at the very end does not open a last,
  empty, field.
\<close>

function tsplit :: "string \<Rightarrow> string \<Rightarrow> string list" where
  "tsplit line seps =
     (if line = [] then []
      else (let w = takeWhile (\<lambda>c. c \<notin> set seps) line
            in w # tsplit (drop (Suc (length w)) line) seps))"
  by pat_completeness auto
termination by (relation "measure (length \<circ> fst)") auto

declare tsplit.simps [simp del]

definition make_path :: "string \<Rightarrow> string \<Rightarrow> string" where
  "make_path path1 second = path1 @ CHR ''/'' # second"

lemma tsplit_Nil [simp]: "tsplit [] seps = []"
  by (subst tsplit.simps) simp

lemma tsplit_field:
  assumes "\<And>c. c \<in> set w \<Longrightarrow> c \<notin> set seps" and "s \<in> set seps"
  shows "tsplit (w @ s # rest) seps = w # tsplit rest seps"
proof -
  have "takeWhile (\<lambda>c. c \<notin> set seps) (w @ s # rest) = w"
    using assms by (simp add: takeWhile_append2)
  then show ?thesis by (subst tsplit.simps) simp
qed

lemma tsplit_last: "w \<noteq> [] \<Longrightarrow> (\<And>c. c \<in> set w \<Longrightarrow> c \<notin> set seps) \<Longrightarrow> tsplit w seps = [w]"
  by (subst tsplit.simps) (simp add: takeWhile_eq_all_conv [THEN iffD2])

text \<open>Fields put together with a separator.\<close>

fun join :: "char \<Rightarrow> string list \<Rightarrow> string" where
  "join s [] = []"
| "join s [w] = w"
| "join s (w # ws) = w @ s # join s ws"

lemma tsplit_join:
  assumes "\<And>w. w \<in> set ws \<Longrightarrow> s \<notin> set w" and "ws = [] \<or> last ws \<noteq> []"
  shows "tsplit (join s ws) [s] = ws"
  using assms
proof (induction ws rule: induct_list012)
  case (2 w)
  then show ?case using tsplit_last [of w "[s]"] by auto
next
  case (3 w v ws)
  have "tsplit (w @ s # join s (v # ws)) [s] = w # tsplit (join s (v # ws)) [s]"
    using "3.prems"(1) by (intro tsplit_field) auto
  with 3 show ?case by simp
qed simp

lemma tsplit_not_Nil: "line \<noteq> [] \<Longrightarrow> tsplit line seps \<noteq> []"
  by (subst tsplit.simps) (simp add: Let_def)

lemma tsplit_no_seps: "w \<in> set (tsplit line seps) \<Longrightarrow> set w \<inter> set seps = {}"
proof (induction line seps rule: tsplit.induct)
  case (1 line seps)
  have tw: "set (takeWhile (\<lambda>c. c \<notin> set seps) line) \<inter> set seps = {}"
    by (auto dest: set_takeWhileD)
  from "1.prems" show ?case
  proof (subst (asm) tsplit.simps, cases "line = []")
    case False
    assume "w \<in> set (if line = [] then [] else let w = takeWhile (\<lambda>c. c \<notin> set seps) line
      in w # tsplit (drop (Suc (length w)) line) seps)"
    with False tw "1.IH" [OF False refl] show ?thesis by (auto simp: Let_def)
  qed simp
qed

end
