(* ===== verification/Os.thy ===== *)
theory Os
  imports Text
begin

text \<open>
  The operating system as the program sees it, and \<open>rm/librmcommon/dir.{h,cpp}\<close> and
  \<open>namespaces.{h,cpp}\<close>, which wrap it. The kernel is not part of the sources: its state is a
  type \<open>'k\<close> of the model and its calls are the fields of a record that every definition takes
  as an argument. Nothing is assumed of them; a call may change the state (a read as well,
  since processes come and go between two calls) and reports its outcome.
\<close>

section \<open>System calls\<close>

datatype file_kind = Regular | Directory | Other

text \<open>
  \<open>os_write path text\<close> opens a file for writing, writes the text and closes it; it reports
  whether the file could be opened, which is all that the sources look at: what \<open>ofstream\<close>
  buffers is written on \<open>close\<close>, whose failure nobody checks. \<open>os_mkdir\<close> reports success
  also on \<open>EEXIST\<close>. \<open>os_inode\<close> is \<open>open\<close> with \<open>fstat\<close>, and \<open>os_list\<close> is \<open>opendir\<close> with
  \<open>readdir\<close>.
\<close>

record 'k os =
  os_read :: "string \<Rightarrow> 'k \<Rightarrow> string option \<times> 'k"
  os_write :: "string \<Rightarrow> string \<Rightarrow> 'k \<Rightarrow> bool \<times> 'k"
  os_stat :: "string \<Rightarrow> 'k \<Rightarrow> file_kind option \<times> 'k"
  os_lstat :: "string \<Rightarrow> 'k \<Rightarrow> file_kind option \<times> 'k"
  os_mkdir :: "string \<Rightarrow> 'k \<Rightarrow> bool \<times> 'k"
  os_rmdir :: "string \<Rightarrow> 'k \<Rightarrow> bool \<times> 'k"
  os_list :: "string \<Rightarrow> 'k \<Rightarrow> string list option \<times> 'k"
  os_inode :: "string \<Rightarrow> 'k \<Rightarrow> nat option \<times> 'k"

text \<open>A system call as an action: it cannot throw.\<close>

definition sys :: "('k \<Rightarrow> 'a \<times> 'k) \<Rightarrow> ('k, 'a) act" where
  [act_defs]: "sys f k = (case f k of (x, k') \<Rightarrow> (Inr x, k'))"

section \<open>Directories\<close>

definition dir_exists :: "('k, 'm) os_scheme \<Rightarrow> string \<Rightarrow> ('k, bool) act" where
  "dir_exists os path = bnd (sys (os_lstat os path)) (\<lambda>r. ret (r = Some Directory))"

definition file_exists :: "('k, 'm) os_scheme \<Rightarrow> string \<Rightarrow> ('k, bool) act" where
  "file_exists os path = bnd (sys (os_stat os path)) (\<lambda>r. ret (r = Some Regular))"

definition create_dir :: "('k, 'm) os_scheme \<Rightarrow> string \<Rightarrow> ('k, unit) act" where
  "create_dir os path =
     bnd (dir_exists os path) (\<lambda>b.
     if b then ret ()
     else bnd (sys (os_mkdir os path)) (\<lambda>ok.
       if ok then ret () else throw (RuntimeError (''Could not create directory '' @ path))))"

definition Dir_mkdir :: "('k, 'm) os_scheme \<Rightarrow> string \<Rightarrow> ('k, unit) act" where
  "Dir_mkdir os path = create_dir os path"

text \<open>
  The paths that \<open>mkdir_r\<close> creates one after the other, the file mode mask left out: the
  pointer \<open>p\<close> runs over the copy \<open>path2\<close> (\<open>done @ rest\<close>, with \<open>p\<close> at \<open>rest\<close>), and at every
  separator, and at the end, the text before it is created. A separator that ends the path
  ends the loop.
\<close>

fun mkdir_paths :: "string \<Rightarrow> string \<Rightarrow> string list" where
  "mkdir_paths done [] = [done]"
| "mkdir_paths done (c # rest) =
     (if c \<noteq> CHR ''/'' then mkdir_paths (done @ [c]) rest
      else done # (if rest = [] then [] else mkdir_paths (done @ [c]) rest))"

definition mkdir_r :: "('k, 'm) os_scheme \<Rightarrow> string \<Rightarrow> ('k, unit) act" where
  "mkdir_r os path =
     (case path of
        [] \<Rightarrow> ret ()
      | c # rest \<Rightarrow>
          for_each (if c = CHR ''/'' then mkdir_paths [c] rest else mkdir_paths [] path) (create_dir os))"

definition Dir_rmdir :: "('k, 'm) os_scheme \<Rightarrow> string \<Rightarrow> ('k, unit) act" where
  "Dir_rmdir os path =
     bnd (sys (os_rmdir os path)) (\<lambda>ok.
     if ok then ret () else throw (RuntimeError (''Could not remove directory '' @ path)))"

text \<open>\<open>Dir::localdir\<close>: the entries that are regular files or directories, with \<open>is_dir\<close>.\<close>

fun local_entries :: "('k, 'm) os_scheme \<Rightarrow> string \<Rightarrow> string list \<Rightarrow> ('k, (string \<times> bool) list) act" where
  "local_entries os path [] = ret []"
| "local_entries os path (d # ds) =
     (if d = ''.'' \<or> d = ''..'' then local_entries os path ds
      else bnd (sys (os_lstat os (make_path path d))) (\<lambda>kind.
        bnd (local_entries os path ds) (\<lambda>es.
          ret (case kind of
                 Some Directory \<Rightarrow> (d, True) # es
               | Some Regular \<Rightarrow> (d, False) # es
               | _ \<Rightarrow> es))))"

definition localdir :: "('k, 'm) os_scheme \<Rightarrow> string \<Rightarrow> ('k, (string \<times> bool) list) act" where
  "localdir os path =
     bnd (sys (os_list os path)) (\<lambda>r.
       case r of
         None \<Rightarrow> throw (RuntimeError (''Dir::localdir: could not open path '' @ path))
       | Some ds \<Rightarrow> local_entries os path ds)"

section \<open>Namespaces\<close>

definition proc_path :: "int \<Rightarrow> string \<Rightarrow> string" where
  "proc_path pid name = ''/proc/'' @ show_int pid @ CHR ''/'' # name"

text \<open>\<open>isKubPod\<close>: a failed open or read leaves \<open>cgroupPath\<close> empty.\<close>

fun contains :: "string \<Rightarrow> string \<Rightarrow> bool" where
  "contains [] pat = (pat = [])"
| "contains (c # s) pat = (take (length pat) (c # s) = pat \<or> contains s pat)"

definition isKubPod :: "('k, 'm) os_scheme \<Rightarrow> int \<Rightarrow> ('k, bool) act" where
  "isKubPod os pid =
     bnd (sys (os_read os (proc_path pid ''cgroup''))) (\<lambda>r.
       ret (case r of
              None \<Rightarrow> False
            | Some text \<Rightarrow> (case read_word text of None \<Rightarrow> False | Some (w, _) \<Rightarrow> contains w ''kubepods'')))"

definition getSelfPidNamespace :: "('k, 'm) os_scheme \<Rightarrow> ('k, nat) act" where
  "getSelfPidNamespace os =
     bnd (sys (os_inode os ''/proc/self/ns/pid'')) (\<lambda>r. ret (case r of None \<Rightarrow> 0 | Some ino \<Rightarrow> ino))"

definition getPidNamespace :: "('k, 'm) os_scheme \<Rightarrow> int \<Rightarrow> ('k, nat) act" where
  "getPidNamespace os pid =
     bnd (sys (os_inode os (proc_path pid ''ns/pid''))) (\<lambda>r. ret (case r of None \<Rightarrow> 0 | Some ino \<Rightarrow> ino))"

text \<open>
  \<open>getPidFromStatusFile\<close>: the numbers of the first \<open>NSpid:\<close> line, cut into words by
  \<open>strtok\<close>. A line that does not fit the buffer of 1024 bytes ends the search. When no
  number is found \<open>last_pid\<close> is read uninitialised.
\<close>

definition blanks :: string where
  "blanks = [CHR '' '', CHR 0x09]"

definition nspid_numbers :: "string \<Rightarrow> int list" where
  "nspid_numbers text =
     (case filter (\<lambda>l. take 6 l = ''NSpid:'') (takeWhile (\<lambda>l. length l \<le> 1023) (all_lines text)) of
        [] \<Rightarrow> []
      | l # _ \<Rightarrow> map (\<lambda>tok. to_int32 (fst (strtol tok))) (filter (\<lambda>w. w \<noteq> []) (tsplit (drop 6 l) blanks)))"

text \<open>\<open>Some p\<close>: the search succeeded and left \<open>p\<close> in \<open>pidToSearch\<close>.\<close>

definition getPidFromStatusFile :: "('k, 'm) os_scheme \<Rightarrow> string \<Rightarrow> int \<Rightarrow> ('k, int option) act" where
  "getPidFromStatusFile os filename pidToSearch =
     bnd (sys (os_read os filename)) (\<lambda>r.
       case r of
         None \<Rightarrow> ret None
       | Some text \<Rightarrow>
           (let nums = nspid_numbers text in
            if nums = [] then throw (Undefined ''last_pid is not initialised'')
            else if pidToSearch = last nums then ret (Some (hd (filter (\<lambda>n. n \<noteq> - 1) nums @ [- 1])))
            else ret None))"

fun mapPid_loop :: "('k, 'm) os_scheme \<Rightarrow> nat \<Rightarrow> int \<Rightarrow> (string \<times> bool) list \<Rightarrow> ('k, int) act" where
  "mapPid_loop os ns pid [] = ret pid"
| "mapPid_loop os ns pid (entry # entries) =
     (let name = fst entry in
      if name = [] \<or> \<not> isdigit (hd name) then mapPid_loop os ns pid entries
      else (let curPid = u64_to_int (fst (strtoull name)) in
        bnd (getPidNamespace os curPid) (\<lambda>curNs.
          if curNs \<noteq> ns then mapPid_loop os ns pid entries
          else bnd (getPidFromStatusFile os (proc_path curPid ''status'') pid) (\<lambda>found.
            case found of Some p \<Rightarrow> ret p | None \<Rightarrow> mapPid_loop os ns pid entries))))"

definition mapPid :: "('k, 'm) os_scheme \<Rightarrow> int \<Rightarrow> nat \<Rightarrow> ('k, int) act" where
  "mapPid os pid ns =
     (if ns = 0 then ret pid
      else bnd (getSelfPidNamespace os) (\<lambda>self.
        if ns = self then ret pid
        else bnd (localdir os ''/proc'') (\<lambda>entries. mapPid_loop os ns pid entries)))"

section \<open>The directories of a path\<close>

text \<open>
  For a path of non-empty names, absolute or not, the directories created are its prefixes, one
  name longer each time, the whole path last.
\<close>

lemma mkdir_paths_name:
  "CHR ''/'' \<notin> set w \<Longrightarrow> mkdir_paths p (w @ rest) = mkdir_paths (p @ w) rest"
  by (induction w arbitrary: p) auto

lemma mkdir_paths_join:
  assumes "ws \<noteq> []" and "\<forall>w\<in>set ws. w \<noteq> [] \<and> CHR ''/'' \<notin> set w"
  shows "mkdir_paths p (join (CHR ''/'') ws) = map (\<lambda>n. p @ join (CHR ''/'') (take (Suc n) ws)) [0..<length ws]"
  using assms
proof (induction ws arbitrary: p rule: induct_list012)
  case (2 w)
  then show ?case using mkdir_paths_name [of w p "[]"] by simp
next
  case (3 w v ws)
  let ?r = "join (CHR ''/'') (v # ws)"
  have ne: "?r \<noteq> []" using "3.prems" by (cases ws) auto
  have "mkdir_paths p (join (CHR ''/'') (w # v # ws)) = (p @ w) # mkdir_paths (p @ w @ ''/'') ?r"
    using "3.prems" ne mkdir_paths_name [of w p "CHR ''/'' # ?r"] by simp
  also have "mkdir_paths (p @ w @ ''/'') ?r
      = map (\<lambda>n. (p @ w @ ''/'') @ join (CHR ''/'') (take (Suc n) (v # ws))) [0..<length (v # ws)]"
    using "3.prems" by (intro "3.IH"(2)) auto
  also have "\<dots> = map (\<lambda>n. p @ join (CHR ''/'') (take (Suc n) (w # v # ws))) [1..<length (w # v # ws)]"
    by (simp add: map_Suc_upt [symmetric] o_def del: upt_Suc)
  finally show ?case by (simp add: upt_conv_Cons del: upt_Suc)
qed simp

end
