(* ===== verification/App.thy ===== *)
theory App
  imports Text
begin

text \<open>
  \<open>rm/librmcommon/app.h\<close>: what the program knows of an application. The object is shared by
  pointer in C++; after its construction only the name and the cgroup directory change, and
  each component sees the change it makes itself, so the model passes it by value.
\<close>

datatype app_type = UNKNOWN | STANDALONE | INTEGRATED | CONTAINER | KUBERNETES

datatype security_level = UNCLASSIFIED | LOW | MEDIUM | HIGH | CRITICAL

record app =
  getPid :: int
  getAppType :: app_type
  getName :: string
  getNsPid :: int
  getAppNamespace :: nat
  getCgroupDir :: string
  getAppSecurityLevel :: security_level

definition makeApp :: "int \<Rightarrow> app_type \<Rightarrow> string \<Rightarrow> int \<Rightarrow> nat \<Rightarrow> security_level \<Rightarrow> app" where
  "makeApp pid appType appName nsPid ns securityLevel =
     \<lparr> getPid = pid, getAppType = appType, getName = appName, getNsPid = nsPid, getAppNamespace = ns,
       getCgroupDir = [], getAppSecurityLevel = securityLevel \<rparr>"

definition getTypeByName :: "string \<Rightarrow> app_type" where
  "getTypeByName appType =
     (if appType = ''STANDALONE'' then STANDALONE
      else if appType = ''INTEGRATED'' then INTEGRATED
      else if appType = ''CONTAINER'' then CONTAINER
      else if appType = ''KUBERNETES'' then KUBERNETES
      else UNKNOWN)"

definition getSecurityLevelByName :: "string \<Rightarrow> security_level" where
  "getSecurityLevelByName level =
     (if level = ''LOW'' then LOW
      else if level = ''MEDIUM'' then MEDIUM
      else if level = ''HIGH'' then HIGH
      else if level = ''CRITICAL'' then CRITICAL
      else UNCLASSIFIED)"

fun getAppTypeString :: "app_type \<Rightarrow> string" where
  "getAppTypeString UNKNOWN = ''UNKNOWN''"
| "getAppTypeString STANDALONE = ''STANDALONE''"
| "getAppTypeString INTEGRATED = ''INTEGRATED''"
| "getAppTypeString CONTAINER = ''CONTAINER''"
| "getAppTypeString KUBERNETES = ''KUBERNETES''"

definition setName :: "string \<Rightarrow> app \<Rightarrow> app" where
  "setName appName a = a\<lparr>getName := appName\<rparr>"

definition setCgroupDir :: "string \<Rightarrow> app \<Rightarrow> app" where
  "setCgroupDir dir a = a\<lparr>getCgroupDir := dir\<rparr>"

definition setAppSecurityLevel :: "security_level \<Rightarrow> app \<Rightarrow> app" where
  "setAppSecurityLevel level a = a\<lparr>getAppSecurityLevel := level\<rparr>"

lemma getTypeByName_String: "getTypeByName (getAppTypeString t) = t"
  by (cases t) (simp_all add: getTypeByName_def)

text \<open>The levels in the order in which the enumeration declares them.\<close>

fun level_int :: "security_level \<Rightarrow> int" where
  "level_int UNCLASSIFIED = 0"
| "level_int LOW = 1"
| "level_int MEDIUM = 2"
| "level_int HIGH = 3"
| "level_int CRITICAL = 4"

instantiation security_level :: linorder
begin

definition less_eq_security_level :: "security_level \<Rightarrow> security_level \<Rightarrow> bool" where
  "less_eq_security_level a b \<longleftrightarrow> level_int a \<le> level_int b"

definition less_security_level :: "security_level \<Rightarrow> security_level \<Rightarrow> bool" where
  "less_security_level a b \<longleftrightarrow> level_int a < level_int b"

instance
proof
  fix a b :: security_level
  show "a \<le> b \<Longrightarrow> b \<le> a \<Longrightarrow> a = b"
    by (cases a; cases b) (simp_all add: less_eq_security_level_def)
qed (auto simp: less_eq_security_level_def less_security_level_def)

end

end
