(* ===== verification/NumericValue.thy ===== *)
theory NumericValue
  imports Text
begin

text \<open>
  \<open>rm/librmcommon/numericvalue.{h,cpp}\<close>: the limit stored in a cgroup file, a 64-bit number
  or the word \<open>max\<close>. Both \<open>max\<close> and "no value" are encoded in the number itself. The locale
  \<open>line_format\<close> states the contract of a one-line file format: what the program writes it
  reads back; the formats of the control files interpret it.
\<close>

section \<open>One-line formats\<close>

locale line_format =
  fixes render :: "'a \<Rightarrow> string"
    and parse :: "string \<Rightarrow> 'a result"
    and valid :: "'a \<Rightarrow> bool"
  assumes parse_render: "valid a \<Longrightarrow> parse (render a) = Inr a"
    and render_line: "valid a \<Longrightarrow> NEWLINE \<notin> set (render a)"
begin

lemma render_inject: "valid a \<Longrightarrow> valid b \<Longrightarrow> render a = render b \<Longrightarrow> a = b"
  using parse_render by (metis sum.inject(2))

text \<open>A file holding the rendering, with or without the newline the kernel adds.\<close>

lemma parse_file: "valid a \<Longrightarrow> parse (first_line (render a @ nl)) = Inr a" if "nl \<in> {[], [NEWLINE]}"
proof -
  assume a: "valid a"
  then have "first_line (render a @ nl) = render a"
    using that render_line [OF a] first_line_plain [of "render a"] takeWhile_append2 [of "render a" "\<lambda>c. c \<noteq> NEWLINE" nl]
    by (auto simp: first_line_def)
  with a show ?thesis by (simp add: parse_render)
qed

end

section \<open>The class\<close>

datatype numeric_value = NumericValue (nv_value: "64 word")

definition NUMERIC_VALUE_MAX :: "64 word" where
  "NUMERIC_VALUE_MAX = - 1"

definition NUMERIC_VALUE_INVALID :: "64 word" where
  "NUMERIC_VALUE_INVALID = NUMERIC_VALUE_MAX - 1"

definition nv_max :: numeric_value where
  "nv_max = NumericValue NUMERIC_VALUE_MAX"

definition nv_invalid :: numeric_value where
  "nv_invalid = NumericValue NUMERIC_VALUE_INVALID"

definition isMax :: "numeric_value \<Rightarrow> bool" where
  "isMax v \<longleftrightarrow> nv_value v = NUMERIC_VALUE_MAX"

definition isInvalid :: "numeric_value \<Rightarrow> bool" where
  "isInvalid v \<longleftrightarrow> nv_value v = NUMERIC_VALUE_INVALID"

text \<open>
  \<open>init(pStart, pEnd)\<close>: \<open>pStart\<close> is the rest of the zero terminated string, or \<open>None\<close> for a
  null pointer; \<open>pEnd\<close> is given by its distance from \<open>pStart\<close>. \<open>strtoull\<close> does not know
  \<open>pEnd\<close>: it stops where the number does, and only then is the end compared.
\<close>

definition nv_init :: "string option \<Rightarrow> nat option \<Rightarrow> numeric_value" where
  "nv_init pStart pEnd =
     (case pStart of
        None \<Rightarrow> nv_invalid
      | Some s \<Rightarrow>
          (let n = (case pEnd of None \<Rightarrow> length s | Some n \<Rightarrow> n)
           in if n = 3 \<and> take 3 s = ''max'' then nv_max
              else (let (v, endptr) = strtoull s
                    in if length s - length endptr \<noteq> n then nv_invalid else NumericValue v)))"

definition nv_of_string :: "string \<Rightarrow> numeric_value" where
  "nv_of_string val = nv_init (Some val) (Some (length val))"

definition nv_show :: "numeric_value \<Rightarrow> string" where
  "nv_show num =
     (if nv_value num = NUMERIC_VALUE_INVALID then ''invalid''
      else if nv_value num = NUMERIC_VALUE_MAX then ''max''
      else show_u64 (nv_value num))"

text \<open>\<open>is >> num\<close>: the value the object is left with and, unless the stream failed, the rest.\<close>

definition nv_extract :: "string \<Rightarrow> numeric_value \<times> string option" where
  "nv_extract is' =
     (case read_word is' of
        None \<Rightarrow> (nv_invalid, None)
      | Some (s, rest) \<Rightarrow>
          (if s = ''max'' then nv_max else NumericValue (fst (strtoull s)), Some rest))"

section \<open>Facts\<close>

lemma show_u64_not_max: "take 3 (show_u64 w @ rest) \<noteq> ''max''"
proof -
  obtain c s where s: "show_u64 w = c # s" "isdigit c"
    using isdigit_hd_show_nat [of "unat w"] show_nat_not_Nil [of "unat w"]
    unfolding show_u64_def by (metis list.collapse)
  then show ?thesis by (auto simp: isdigit_def code_def)
qed

lemma set_nv_show: "c \<in> set (nv_show v) \<Longrightarrow> isalnum c"
  by (auto simp: nv_show_def show_u64_def isdigit_isalnum show_nat_digits split: if_splits)
    (auto simp: isalnum_def isdigit_def code_def)

lemma nv_show_not_Nil [simp]: "nv_show v \<noteq> []"
  by (simp add: nv_show_def show_u64_def)

lemma isMax_iff: "isMax v \<longleftrightarrow> v = nv_max"
  by (cases v) (simp add: isMax_def nv_max_def)

lemma isInvalid_iff: "isInvalid v \<longleftrightarrow> v = nv_invalid"
  by (cases v) (simp add: isInvalid_def nv_invalid_def)

lemma isInvalid_invalid [simp]: "isInvalid nv_invalid"
  by (simp add: isInvalid_iff)

lemma isMax_max [simp]: "isMax nv_max"
  by (simp add: isMax_iff)

lemma isMax_invalid [simp]: "\<not> isMax nv_invalid" "\<not> isInvalid nv_max"
  by (simp_all add: isMax_def isInvalid_def nv_invalid_def nv_max_def NUMERIC_VALUE_INVALID_def)

text \<open>A printed value inside a longer text is read back up to its end.\<close>

lemma nv_init_show:
  assumes "\<not> isInvalid v" and "rest = [] \<or> \<not> isalnum (hd rest)"
  shows "nv_init (Some (nv_show v @ rest)) (Some (length (nv_show v))) = v"
proof (cases "isMax v")
  case True
  then show ?thesis by (simp add: isMax_iff nv_show_def nv_init_def nv_max_def NUMERIC_VALUE_INVALID_def)
next
  case False
  with assms(1) have s: "nv_show v = show_u64 (nv_value v)"
    by (simp add: nv_show_def isMax_def isInvalid_def)
  have "rest = [] \<or> \<not> isdigit (hd rest)" using assms(2) by (auto simp: isdigit_isalnum)
  from strtoull_show_u64 [OF this] show ?thesis
    using show_u64_not_max [of "nv_value v" rest] by (simp add: nv_init_def s)
qed

lemma nv_of_string_show [simp]: "nv_of_string (nv_show v) = v"
proof (cases "isInvalid v")
  case True
  have "strtoull ''invalid'' = (0, ''invalid'')"
    by (simp add: strtoull_def scan_number_def span_def isspace_def isdigit_def code_def Let_def)
  with True show ?thesis
    by (simp add: isInvalid_iff nv_show_def nv_of_string_def nv_init_def nv_invalid_def)
next
  case False
  then show ?thesis using nv_init_show [of v "[]"] by (simp add: nv_of_string_def)
qed

interpretation nv: line_format nv_show "\<lambda>s. Inr (nv_of_string s)" "\<lambda>_. True"
  by unfold_locales (use set_nv_show isalnum_not_special(10) in auto)

lemma nv_extract_show:
  assumes "\<not> isInvalid v" and "rest = [] \<or> isspace (hd rest)"
  shows "nv_extract (nv_show v @ rest) = (v, Some rest)"
proof -
  have "read_word (nv_show v @ rest) = Some (nv_show v, rest)"
    using assms(2) by (intro read_word_append) (auto dest!: set_nv_show simp: isalnum_not_special)
  moreover have "nv_show v = ''max'' \<longleftrightarrow> isMax v"
    using nv_of_string_show [of v] nv_of_string_show [of nv_max]
    by (auto simp: isMax_iff nv_show_def nv_max_def NUMERIC_VALUE_INVALID_def)
  moreover have "fst (strtoull (nv_show v)) = nv_value v" if "\<not> isMax v"
    using that assms(1) strtoull_show_u64 [of "[]" "nv_value v"]
    by (simp add: nv_show_def isMax_def isInvalid_def)
  ultimately show ?thesis by (auto simp: nv_extract_def isMax_iff)
qed

end
