(* ===== verification/CgroupControl.thy ===== *)
theory CgroupControl
  imports Os App NumericValue
begin

text \<open>
  \<open>rm/platformcontrol/cgroup/cgrouputil.{h,cpp}\<close> and \<open>cgroupcontrol.{h,cpp}\<close>: how a control
  file of an application is found, made to exist and accessed. The build constant
  \<open>CGROUPBASEDIR\<close> and the two flags of the class are fields of the platform record, which
  extends the system calls. Log output is left out, and \<open>strerror\<close> from the error texts.
\<close>

record 'k platform = "'k os" +
  cgroup_base :: string
  changeContainerCgroup :: bool
  changeKubernetesCgroup :: bool

section \<open>cgrouputil\<close>

definition getCgroupBaseDir :: "('k, 'm) platform_scheme \<Rightarrow> string" where
  "getCgroupBaseDir pf = cgroup_base pf"

definition getCgroupKonroBaseDir :: "('k, 'm) platform_scheme \<Rightarrow> string" where
  "getCgroupKonroBaseDir pf = getCgroupBaseDir pf @ ''/konro.slice''"

definition getCgroupKonroAppDir :: "('k, 'm) platform_scheme \<Rightarrow> int \<Rightarrow> string" where
  "getCgroupKonroAppDir pf pid =
     make_path (getCgroupKonroBaseDir pf) (''app-'' @ show_int pid @ ''.scope'')"

definition throwCouldNotOpenFile :: "string \<Rightarrow> string \<Rightarrow> ('k, 'a) act" where
  "throwCouldNotOpenFile funcName fileName =
     throw (PcException (funcName @ '': could not open file '' @ fileName))"

definition findCgroupPath :: "('k, 'm) platform_scheme \<Rightarrow> int \<Rightarrow> ('k, string) act" where
  "findCgroupPath pf pid =
     bnd (sys (os_read pf (proc_path pid ''cgroup''))) (\<lambda>r.
       case r of
         None \<Rightarrow> throwCouldNotOpenFile ''findCgroupPath'' (proc_path pid ''cgroup'')
       | Some text \<Rightarrow>
           (case read_word text of
              None \<Rightarrow> throw (PcException ''findCgroupPath: could not read cgroup path for pid'')
            | Some (cgroupPath, _) \<Rightarrow>
                bnd (lift_result (vec_at (tsplit cgroupPath '':'') 2)) (\<lambda>part.
                  ret (getCgroupBaseDir pf @ part))))"

text \<open>
  The loop of \<open>activateController\<close>: \<open>first\<close> says that \<open>i = 0\<close>, and the list holds
  \<open>subPath[i..size-2]\<close>.
\<close>

fun activate_loop :: "('k, 'm) platform_scheme \<Rightarrow> string \<Rightarrow> bool \<Rightarrow> string \<Rightarrow> string list \<Rightarrow> ('k, unit) act" where
  "activate_loop pf controllerName first currentFolder [] = ret ()"
| "activate_loop pf controllerName first currentFolder (d # ds) =
     (if d = [] \<and> \<not> first then activate_loop pf controllerName False currentFolder ds
      else (let currentFolder = (if d = [] then currentFolder else currentFolder @ CHR ''/'' # d);
                currentFile = make_path currentFolder ''cgroup.subtree_control''
            in bnd (sys (os_write pf currentFile (CHR ''+'' # controllerName))) (\<lambda>opened.
                 if \<not> opened then throwCouldNotOpenFile ''activateController'' currentFile
                 else activate_loop pf controllerName False currentFolder ds)))"

text \<open>
  \<open>substr\<close> throws when the path is shorter than the base; \<open>subPath.size() - 1\<close> wraps around
  when there is no part at all, and the loop runs out of the vector.
\<close>

definition activateController :: "('k, 'm) platform_scheme \<Rightarrow> string \<Rightarrow> string \<Rightarrow> ('k, unit) act" where
  "activateController pf controllerName cgroupPath =
     (let cgroupBaseDir = getCgroupBaseDir pf in
      if length cgroupPath < length cgroupBaseDir then throw OutOfRange
      else (let subPath = tsplit (drop (length cgroupBaseDir) cgroupPath) ''/'' in
        if subPath = [] then throw (Undefined ''vector index out of range'')
        else activate_loop pf controllerName True cgroupBaseDir (butlast subPath)))"

definition writeValue :: "('k, 'm) platform_scheme \<Rightarrow> string \<Rightarrow> string \<Rightarrow> string \<Rightarrow> ('k, unit) act" where
  "writeValue pf fileName value cgroupPath =
     (let filePath = make_path cgroupPath fileName in
      bnd (sys (os_write pf filePath value)) (\<lambda>opened.
        if \<not> opened then throwCouldNotOpenFile ''writeValue'' filePath else ret ()))"

definition util_getLine :: "('k, 'm) platform_scheme \<Rightarrow> string \<Rightarrow> string \<Rightarrow> ('k, string) act" where
  "util_getLine pf fileName cgroupPath =
     (let filePath = make_path cgroupPath fileName in
      bnd (sys (os_read pf filePath)) (\<lambda>r.
        case r of None \<Rightarrow> throwCouldNotOpenFile ''getLine'' filePath | Some text \<Rightarrow> ret (first_line text)))"

definition util_getContent :: "('k, 'm) platform_scheme \<Rightarrow> string \<Rightarrow> string \<Rightarrow> ('k, string list) act" where
  "util_getContent pf fileName cgroupPath =
     (let filePath = make_path cgroupPath fileName in
      bnd (sys (os_read pf filePath)) (\<lambda>r.
        case r of None \<Rightarrow> throwCouldNotOpenFile ''getContent'' filePath | Some text \<Rightarrow> ret (all_lines text)))"

definition createCgroup :: "('k, 'm) platform_scheme \<Rightarrow> string \<Rightarrow> string \<Rightarrow> ('k, string) act" where
  "createCgroup pf cgroupPath name =
     (let newPath = make_path cgroupPath name in
      bnd (Dir_mkdir pf newPath) (\<lambda>_. ret newPath))"

definition moveToCgroup :: "('k, 'm) platform_scheme \<Rightarrow> string \<Rightarrow> int \<Rightarrow> ('k, unit) act" where
  "moveToCgroup pf cgroupPath pid =
     (let filePath = make_path cgroupPath ''cgroup.procs'' in
      bnd (sys (os_write pf filePath (show_int pid))) (\<lambda>opened.
        if \<not> opened then throwCouldNotOpenFile ''moveToCgroup'' filePath else ret ()))"

section \<open>CGroupControl\<close>

definition checkActivateController :: "('k, 'm) platform_scheme \<Rightarrow> string \<Rightarrow> string \<Rightarrow> string \<Rightarrow> ('k, unit) act" where
  "checkActivateController pf controllerName fileName cgroupPath =
     bnd (file_exists pf (make_path cgroupPath fileName)) (\<lambda>b.
       if \<not> b then activateController pf controllerName cgroupPath else ret ())"

definition doNotMoveApp :: "('k, 'm) platform_scheme \<Rightarrow> app \<Rightarrow> bool" where
  "doNotMoveApp pf app \<longleftrightarrow>
     getAppType app = CONTAINER \<and> \<not> changeContainerCgroup pf
     \<or> getAppType app = KUBERNETES \<and> \<not> changeKubernetesCgroup pf"

definition getCgroupAppDir :: "('k, 'm) platform_scheme \<Rightarrow> app \<Rightarrow> ('k, string) act" where
  "getCgroupAppDir pf app =
     (if doNotMoveApp pf app then findCgroupPath pf (getPid app)
      else ret (getCgroupKonroAppDir pf (getPid app)))"

definition cg_getLine :: "('k, 'm) platform_scheme \<Rightarrow> string \<Rightarrow> string \<Rightarrow> app \<Rightarrow> ('k, string) act" where
  "cg_getLine pf controllerName fileName app =
     bnd (getCgroupAppDir pf app) (\<lambda>cgroupPath.
     bnd (checkActivateController pf controllerName fileName cgroupPath) (\<lambda>_.
     util_getLine pf fileName cgroupPath))"

definition cg_getContent :: "('k, 'm) platform_scheme \<Rightarrow> string \<Rightarrow> string \<Rightarrow> app \<Rightarrow> ('k, string list) act" where
  "cg_getContent pf controllerName fileName app =
     bnd (getCgroupAppDir pf app) (\<lambda>cgroupPath.
     bnd (checkActivateController pf controllerName fileName cgroupPath) (\<lambda>_.
     util_getContent pf fileName cgroupPath))"

definition setFreeze :: "('k, 'm) platform_scheme \<Rightarrow> bool \<Rightarrow> app \<Rightarrow> ('k, unit) act" where
  "setFreeze pf freeze app =
     bnd (getCgroupAppDir pf app) (\<lambda>cgroupPath.
     writeValue pf ''cgroup.freeze'' (if freeze then ''1'' else ''0'') cgroupPath)"

definition setValue :: "('k, 'm) platform_scheme \<Rightarrow> string \<Rightarrow> string \<Rightarrow> string \<Rightarrow> app \<Rightarrow> ('k, unit) act" where
  "setValue pf controllerName fileName value app =
     bnd (getCgroupAppDir pf app) (\<lambda>cgroupPath.
     bnd (checkActivateController pf controllerName fileName cgroupPath) (\<lambda>_.
     writeValue pf fileName value cgroupPath))"

definition getValueAsInt :: "('k, 'm) platform_scheme \<Rightarrow> string \<Rightarrow> string \<Rightarrow> app \<Rightarrow> ('k, int) act" where
  "getValueAsInt pf controllerName fileName app =
     bnd (cg_getLine pf controllerName fileName app) (\<lambda>value.
       ret (u64_to_int (fst (strtoull value))))"

text \<open>The tags of a flat-keyed file; \<open>emplace\<close> keeps the first value of a tag.\<close>

fun tags_of_lines :: "(string \<times> 64 word) list \<Rightarrow> string list \<Rightarrow> (string \<times> 64 word) list" where
  "tags_of_lines tags [] = tags"
| "tags_of_lines tags (line # ls) =
     (case read_word line of
        None \<Rightarrow> tags
      | Some (tag, rest) \<Rightarrow>
          (case read_u64 rest of
             None \<Rightarrow> tags
           | Some (value, _) \<Rightarrow>
               tags_of_lines (if tag \<in> fst ` set tags then tags else tags @ [(tag, value)]) ls))"

definition getContentAsMap :: "('k, 'm) platform_scheme \<Rightarrow> string \<Rightarrow> string \<Rightarrow> app \<Rightarrow> ('k, (string \<times> 64 word) list) act" where
  "getContentAsMap pf controllerName fileName app =
     bnd (getCgroupAppDir pf app) (\<lambda>cgroupPath.
     bnd (checkActivateController pf controllerName fileName cgroupPath) (\<lambda>_.
     bnd (cg_getContent pf controllerName fileName app) (\<lambda>fileContent.
     ret (tags_of_lines [] fileContent))))"

text \<open>The result of \<open>addApplication\<close> and the application with the directory it was given.\<close>

definition addApplication :: "('k, 'm) platform_scheme \<Rightarrow> app \<Rightarrow> ('k, bool \<times> app) act" where
  "addApplication pf app =
     bnd (getCgroupAppDir pf app) (\<lambda>cgroupAppBaseDir.
     if doNotMoveApp pf app then ret (True, setCgroupDir cgroupAppBaseDir app)
     else
       bnd (try_catch is_runtime_error
              (bnd (mkdir_r pf cgroupAppBaseDir) (\<lambda>_. ret True)) (\<lambda>_. ret False)) (\<lambda>made.
       if \<not> made then ret (False, app)
       else
         bnd (try_catch is_runtime_error
                (bnd (moveToCgroup pf cgroupAppBaseDir (getPid app)) (\<lambda>_. ret True)) (\<lambda>_. ret False)) (\<lambda>moved.
         if \<not> moved then ret (False, app)
         else ret (True, setCgroupDir cgroupAppBaseDir app))))"

definition removeApplication :: "('k, 'm) platform_scheme \<Rightarrow> app \<Rightarrow> ('k, bool) act" where
  "removeApplication pf app =
     (if doNotMoveApp pf app then ret True
      else
        try_catch is_runtime_error
          (bnd (Dir_rmdir pf (getCgroupKonroAppDir pf (getPid app))) (\<lambda>_. ret True)) (\<lambda>_. ret False))"

definition cleanup_entry :: "('k, 'm) platform_scheme \<Rightarrow> string \<times> bool \<Rightarrow> ('k, unit) act" where
  "cleanup_entry pf entry =
     (if \<not> snd entry then ret ()
      else (let pathName = make_path (getCgroupKonroBaseDir pf) (fst entry) in
        bnd (util_getLine pf ''cgroup.procs'' pathName) (\<lambda>pidStr.
        bnd (if pidStr \<noteq> [] then moveToCgroup pf (getCgroupBaseDir pf) (atoi pidStr) else ret ()) (\<lambda>_.
        Dir_rmdir pf pathName))))"

definition cleanup :: "('k, 'm) platform_scheme \<Rightarrow> ('k, unit) act" where
  "cleanup pf =
     try_catch is_runtime_error
       (bnd (dir_exists pf (getCgroupKonroBaseDir pf)) (\<lambda>b.
        if \<not> b then ret ()
        else
          bnd (localdir pf (getCgroupKonroBaseDir pf)) (\<lambda>entries.
          bnd (for_each entries (cleanup_entry pf)) (\<lambda>_.
          Dir_rmdir pf (getCgroupKonroBaseDir pf)))))
       (\<lambda>_. ret ())"

section \<open>What is written where\<close>

text \<open>Enabling a controller for the children of a directory, as one step.\<close>

definition enable_in :: "('k, 'm) platform_scheme \<Rightarrow> string \<Rightarrow> string \<Rightarrow> ('k, unit) act" where
  "enable_in pf controllerName dir =
     (let file = make_path dir ''cgroup.subtree_control'' in
      bnd (sys (os_write pf file (CHR ''+'' # controllerName))) (\<lambda>opened.
        if \<not> opened then throwCouldNotOpenFile ''activateController'' file else ret ()))"

text \<open>The directories on the way from \<open>base\<close> down to, but without, the last of \<open>ds\<close>.\<close>

definition ancestors :: "string \<Rightarrow> string list \<Rightarrow> string list" where
  "ancestors base ds = map (\<lambda>n. join (CHR ''/'') (base # take n ds)) [0..<length ds]"

definition path_names :: "string list \<Rightarrow> bool" where
  "path_names ds \<longleftrightarrow> (\<forall>d\<in>set ds. d \<noteq> [] \<and> CHR ''/'' \<notin> set d)"

lemma join_Cons_Cons: "join s (w # v # ws) = join s ((w @ s # v) # ws)"
  by (cases ws) simp_all

lemma ancestors_Cons:
  "ds \<noteq> [] \<Longrightarrow> ancestors base (d # ds) = base # ancestors (base @ CHR ''/'' # d) ds"
proof -
  assume "ds \<noteq> []"
  have "ancestors base (d # ds) = base # map (\<lambda>n. join (CHR ''/'') (base # take (Suc n) (d # ds))) [0..<length ds]"
    by (simp add: ancestors_def upt_conv_Cons map_Suc_upt [symmetric] o_def del: upt_Suc)
  then show ?thesis by (simp add: ancestors_def join_Cons_Cons del: join.simps(3))
qed

lemma activate_loop_step:
  "d \<noteq> [] \<Longrightarrow> activate_loop pf c first cur (d # ds)
     = bnd (enable_in pf c (cur @ CHR ''/'' # d)) (\<lambda>_. activate_loop pf c False (cur @ CHR ''/'' # d) ds)"
  by (rule ext) (simp add: enable_in_def Let_def act_defs throwCouldNotOpenFile_def split: prod.split)

lemma activate_loop_dirs:
  "path_names ds \<Longrightarrow> bnd (enable_in pf c cur) (\<lambda>_. activate_loop pf c False cur (butlast ds))
     = (if ds = [] then enable_in pf c cur else for_each (ancestors cur ds) (enable_in pf c))"
proof (induction ds arbitrary: cur)
  case Nil
  have "bnd m (\<lambda>_. ret ()) = m" for m :: "('a, unit) act"
    by (rule ext) (simp add: act_defs split: prod.split sum.split)
  then show ?case by simp
next
  case (Cons d ds)
  then have d: "d \<noteq> []" and IH: "bnd (enable_in pf c (cur @ CHR ''/'' # d)) (\<lambda>_. activate_loop pf c False (cur @ CHR ''/'' # d) (butlast ds))
     = (if ds = [] then enable_in pf c (cur @ CHR ''/'' # d) else for_each (ancestors (cur @ CHR ''/'' # d) ds) (enable_in pf c))"
    by (auto simp: path_names_def)
  show ?case
  proof (cases "ds = []")
    case True
    then show ?thesis by (simp add: ancestors_def)
  next
    case False
    then have "activate_loop pf c False cur (butlast (d # ds))
        = for_each (ancestors (cur @ CHR ''/'' # d) ds) (enable_in pf c)"
      using d IH by (simp add: activate_loop_step del: activate_loop.simps)
    with False show ?thesis by (simp add: ancestors_Cons del: activate_loop.simps)
  qed
qed

lemma tsplit_path:
  assumes "ds \<noteq> []" and "path_names ds"
  shows "tsplit (CHR ''/'' # join (CHR ''/'') ds) ''/'' = [] # ds"
proof -
  have "tsplit (join (CHR ''/'') ([] # ds)) ''/'' = [] # ds"
    using assms by (intro tsplit_join) (auto simp: path_names_def)
  with assms(1) show ?thesis by (cases ds) auto
qed

lemma activateController_dirs:
  assumes "ds \<noteq> []" and "path_names ds"
  shows "activateController pf c (join (CHR ''/'') (cgroup_base pf # ds))
     = for_each (ancestors (cgroup_base pf) ds) (enable_in pf c)"
proof -
  have j: "join (CHR ''/'') (cgroup_base pf # ds) = cgroup_base pf @ CHR ''/'' # join (CHR ''/'') ds"
    using assms(1) by (cases ds) auto
  have "activate_loop pf c True (cgroup_base pf) ([] # butlast ds)
      = bnd (enable_in pf c (cgroup_base pf)) (\<lambda>_. activate_loop pf c False (cgroup_base pf) (butlast ds))"
    by (rule ext) (simp add: enable_in_def Let_def act_defs throwCouldNotOpenFile_def split: prod.split)
  with assms show ?thesis
    by (simp add: activateController_def j getCgroupBaseDir_def tsplit_path activate_loop_dirs
        del: activate_loop.simps)
qed

lemma path_names_app: "path_names [''konro.slice'', ''app-'' @ show_int pid @ ''.scope'']"
proof -
  have "CHR ''/'' \<notin> set (show_int pid)"
    using show_nat_digits isdigit_not_special(9) by (auto simp: show_int_def split: if_splits)
  then show ?thesis by (simp add: path_names_def)
qed

lemma getCgroupKonroAppDir_join:
  "getCgroupKonroAppDir pf pid
     = join (CHR ''/'') [cgroup_base pf, ''konro.slice'', ''app-'' @ show_int pid @ ''.scope'']"
  by (simp add: getCgroupKonroAppDir_def getCgroupKonroBaseDir_def getCgroupBaseDir_def make_path_def)

text \<open>Activation for an application of Konro's own hierarchy: the base, then the slice.\<close>

lemma activate_app:
  "activateController pf c (getCgroupKonroAppDir pf pid)
     = bnd (enable_in pf c (cgroup_base pf)) (\<lambda>_. enable_in pf c (getCgroupKonroBaseDir pf))"
proof -
  have "bnd m (\<lambda>_. ret ()) = m" for m :: "('a, unit) act"
    by (rule ext) (simp add: act_defs split: prod.split sum.split)
  then show ?thesis
    unfolding getCgroupKonroAppDir_join activateController_dirs [OF list.simps(3) path_names_app]
    by (simp add: ancestors_def getCgroupKonroBaseDir_def getCgroupBaseDir_def upt_conv_Cons)
qed

section \<open>Which exceptions get out\<close>

lemma raises_sys [raises_intros]: "raises P (sys f)"
  by (auto simp: raises_def sys_def split: prod.splits)

lemma raises_mkdir_r: "raises is_runtime_error (mkdir_r os path)"
  unfolding mkdir_r_def create_dir_def dir_exists_def
  by (cases path) (auto intro!: raises_intros)

lemma raises_moveToCgroup: "raises is_runtime_error (moveToCgroup pf path pid)"
  unfolding moveToCgroup_def throwCouldNotOpenFile_def Let_def
  by (auto intro!: raises_intros)

lemma raises_Dir_rmdir: "raises is_runtime_error (Dir_rmdir os path)"
  unfolding Dir_rmdir_def by (auto intro!: raises_intros)

lemma raises_removeApplication: "raises (\<lambda>_. False) (removeApplication pf app)"
  unfolding removeApplication_def
  by (auto intro!: raises_intros raises_mono [OF raises_Dir_rmdir])

lemma raises_addApplication: "\<not> doNotMoveApp pf app \<Longrightarrow> raises (\<lambda>_. False) (addApplication pf app)"
  unfolding addApplication_def getCgroupAppDir_def
  by (auto intro!: raises_intros raises_mono [OF raises_mkdir_r] raises_mono [OF raises_moveToCgroup])

section \<open>A process that was taken in\<close>

lemma moveToCgroup_Inr:
  "moveToCgroup pf dir pid k = (Inr u, k') \<longleftrightarrow> os_write pf (make_path dir ''cgroup.procs'') (show_int pid) k = (True, k')"
  by (auto simp: moveToCgroup_def Let_def act_defs throwCouldNotOpenFile_def split: prod.splits)

lemma addApplication_True:
  assumes "\<not> doNotMoveApp pf app" and "addApplication pf app k = (Inr (True, app'), k')"
  shows "app' = setCgroupDir (getCgroupKonroAppDir pf (getPid app)) app \<and>
    (\<exists>k1. mkdir_r pf (getCgroupKonroAppDir pf (getPid app)) k = (Inr (), k1) \<and>
      os_write pf (make_path (getCgroupKonroAppDir pf (getPid app)) ''cgroup.procs'') (show_int (getPid app)) k1 = (True, k'))"
proof -
  let ?dir = "getCgroupKonroAppDir pf (getPid app)"
  obtain r1 k1 where m1: "mkdir_r pf ?dir k = (r1, k1)" by (metis prod.collapse)
  obtain r2 k2 where m2: "moveToCgroup pf ?dir (getPid app) k1 = (r2, k2)" by (metis prod.collapse)
  have r: "r1 = Inr ()" "r2 = Inr ()" and e: "app' = setCgroupDir ?dir app" "k' = k2"
    using assms m1 m2
    by (auto simp: addApplication_def getCgroupAppDir_def bnd_def try_catch_def ret_def
        split: sum.splits if_splits prod.splits)
  have "os_write pf (make_path ?dir ''cgroup.procs'') (show_int (getPid app)) k1 = (True, k')"
    using m2 unfolding r e by (simp only: moveToCgroup_Inr)
  with m1 r e show ?thesis by blast
qed

end
