(* ===== verification/StdSet.thy ===== *)
theory StdSet
  imports Prelude
begin

text \<open>
  \<open>std::set\<close> with a comparator that looks at one integer key (a \<open>short\<close> itself for a set of
  processing units, the pid for a set of applications): the list of its elements in iteration
  order. \<open>insert\<close> leaves the set alone when an equivalent element is present, as
  \<open>std::set::insert\<close> does, so an element already there is never replaced.

  The interface the clients rely on is the locale \<open>keyed_set\<close>; \<open>ks\<close> below is its
  interpretation on the model of \<open>std::set\<close>.
\<close>

section \<open>Operations\<close>

fun ks_insert :: "('a \<Rightarrow> int) \<Rightarrow> 'a \<Rightarrow> 'a list \<Rightarrow> 'a list" where
  "ks_insert key x [] = [x]"
| "ks_insert key x (y # ys) =
     (if key x < key y then x # y # ys
      else if key y < key x then y # ks_insert key x ys
      else y # ys)"

fun ks_find :: "('a \<Rightarrow> int) \<Rightarrow> int \<Rightarrow> 'a list \<Rightarrow> 'a option" where
  "ks_find key k [] = None"
| "ks_find key k (y # ys) = (if key y = k then Some y else ks_find key k ys)"

definition ks_erase :: "('a \<Rightarrow> int) \<Rightarrow> int \<Rightarrow> 'a list \<Rightarrow> 'a list" where
  "ks_erase key k xs = filter (\<lambda>x. key x \<noteq> k) xs"

text \<open>The object behind the pointer with key \<open>k\<close> is changed in place.\<close>

definition ks_update :: "('a \<Rightarrow> int) \<Rightarrow> int \<Rightarrow> 'a \<Rightarrow> 'a list \<Rightarrow> 'a list" where
  "ks_update key k a xs = map (\<lambda>x. if key x = k then a else x) xs"

definition ks_inv :: "('a \<Rightarrow> int) \<Rightarrow> 'a list \<Rightarrow> bool" where
  "ks_inv key xs \<longleftrightarrow> sorted_wrt (<) (map key xs)"

text \<open>\<open>std::set_difference\<close> on two sorted ranges of integers.\<close>

fun set_difference :: "int list \<Rightarrow> int list \<Rightarrow> int list" where
  "set_difference [] ys = []"
| "set_difference xs [] = xs"
| "set_difference (x # xs) (y # ys) =
     (if x < y then x # set_difference xs (y # ys)
      else if y < x then set_difference (x # xs) ys
      else set_difference xs ys)"

section \<open>Facts\<close>

lemma ks_inv_Nil [simp]: "ks_inv key []"
  by (simp add: ks_inv_def)

lemma ks_inv_Cons [simp]:
  "ks_inv key (x # xs) \<longleftrightarrow> (\<forall>y\<in>set xs. key x < key y) \<and> ks_inv key xs"
  by (auto simp: ks_inv_def)

lemma set_ks_insert:
  "ks_inv key xs \<Longrightarrow>
     set (ks_insert key x xs) = (if key x \<in> key ` set xs then set xs else insert x (set xs))"
  by (induction xs) auto

lemma keys_ks_insert: "key ` set (ks_insert key x xs) = insert (key x) (key ` set xs)"
  by (induction xs) auto

lemma ks_inv_insert: "ks_inv key xs \<Longrightarrow> ks_inv key (ks_insert key x xs)"
proof (induction xs)
  case Nil
  then show ?case by simp
next
  case (Cons y ys)
  show ?case
  proof (cases "key y < key x")
    case True
    have "\<forall>z\<in>set (ks_insert key x ys). key y < key z"
    proof
      fix z assume "z \<in> set (ks_insert key x ys)"
      then have "key z \<in> insert (key x) (key ` set ys)"
        using keys_ks_insert [of key x ys] by blast
      with True Cons.prems show "key y < key z" by auto
    qed
    with True Cons show ?thesis by simp
  next
    case False
    with Cons.prems show ?thesis by auto
  qed
qed

lemma ks_find_insert:
  "ks_inv key xs \<Longrightarrow> ks_find key k (ks_insert key x xs) =
     (if k = key x \<and> k \<notin> key ` set xs then Some x else ks_find key k xs)"
  by (induction xs) auto

lemma ks_find_None [simp]: "ks_find key k xs = None \<longleftrightarrow> k \<notin> key ` set xs"
  by (induction xs) auto

lemma ks_find_Some: "ks_find key k xs = Some x \<Longrightarrow> x \<in> set xs \<and> key x = k"
  by (induction xs) (auto split: if_splits)

lemma ks_find_in: "ks_inv key xs \<Longrightarrow> x \<in> set xs \<Longrightarrow> ks_find key (key x) xs = Some x"
  by (induction xs) auto

lemma ks_inv_erase: "ks_inv key xs \<Longrightarrow> ks_inv key (ks_erase key k xs)"
  by (induction xs) (auto simp: ks_erase_def)

lemma set_ks_erase: "set (ks_erase key k xs) = {x \<in> set xs. key x \<noteq> k}"
  by (auto simp: ks_erase_def)

lemma ks_find_erase:
  "ks_find key j (ks_erase key k xs) = (if j = k then None else ks_find key j xs)"
  by (induction xs) (auto simp: ks_erase_def)

lemma map_key_update: "key a = k \<Longrightarrow> map key (ks_update key k a xs) = map key xs"
  by (simp add: ks_update_def)

lemma ks_inv_update: "key a = k \<Longrightarrow> ks_inv key xs \<Longrightarrow> ks_inv key (ks_update key k a xs)"
  by (simp add: ks_inv_def map_key_update)

lemma ks_find_update:
  "key a = k \<Longrightarrow> ks_find key j (ks_update key k a xs) =
     (if j = k \<and> k \<in> key ` set xs then Some a else ks_find key j xs)"
  by (induction xs) (auto simp: ks_update_def)

lemma set_set_difference:
  "sorted_wrt (<) xs \<Longrightarrow> sorted_wrt (<) ys \<Longrightarrow> set (set_difference xs ys) = set xs - set ys"
proof (induction xs ys rule: set_difference.induct)
  case (3 x xs y ys)
  consider "x < y" | "y < x" | "x = y" by linarith
  then show ?case
  proof cases
    case 1
    with "3.prems" have "x \<notin> set (y # ys)" by auto
    moreover from 1 "3.IH"(1) "3.prems"
    have "set (set_difference xs (y # ys)) = set xs - set (y # ys)" by simp
    ultimately show ?thesis using 1 by auto
  next
    case 2
    with "3.prems" have "y \<notin> set (x # xs)" by auto
    moreover from 2 "3.IH"(2) "3.prems"
    have "set (set_difference (x # xs) ys) = set (x # xs) - set ys" by simp
    ultimately show ?thesis using 2 by auto
  next
    case 3
    with "3.prems" have "x \<notin> set xs" by auto
    moreover from 3 "3.IH"(3) "3.prems"
    have "set (set_difference xs ys) = set xs - set ys" by simp
    ultimately show ?thesis using 3 by auto
  qed
qed auto

lemma set_difference_subset: "set (set_difference xs ys) \<subseteq> set xs"
  by (induction xs ys rule: set_difference.induct) auto

lemma sorted_set_difference:
  "sorted_wrt (<) xs \<Longrightarrow> sorted_wrt (<) (set_difference xs ys)"
proof (induction xs ys rule: set_difference.induct)
  case (3 x xs y ys)
  then show ?case using set_difference_subset [of xs "y # ys"] by auto
qed auto

section \<open>The interface\<close>

locale keyed_set =
  fixes key :: "'a \<Rightarrow> int"
    and ins :: "'a \<Rightarrow> 's \<Rightarrow> 's"
    and look :: "int \<Rightarrow> 's \<Rightarrow> 'a option"
    and del :: "int \<Rightarrow> 's \<Rightarrow> 's"
    and inv :: "'s \<Rightarrow> bool"
  assumes look_ins: "inv s \<Longrightarrow> look k (ins x s) = (if k = key x \<and> look k s = None then Some x else look k s)"
    and look_del: "inv s \<Longrightarrow> look k (del j s) = (if k = j then None else look k s)"
    and look_key: "inv s \<Longrightarrow> look k s = Some x \<Longrightarrow> key x = k"
    and inv_ins: "inv s \<Longrightarrow> inv (ins x s)"
    and inv_del: "inv s \<Longrightarrow> inv (del k s)"
begin

lemma look_ins_present: "inv s \<Longrightarrow> look (key x) s = Some y \<Longrightarrow> look k (ins x s) = look k s"
  by (auto simp: look_ins)

lemma look_ins_absent: "inv s \<Longrightarrow> look (key x) s = None \<Longrightarrow> look (key x) (ins x s) = Some x"
  by (simp add: look_ins)

lemma look_ins_other: "inv s \<Longrightarrow> k \<noteq> key x \<Longrightarrow> look k (ins x s) = look k s"
  by (simp add: look_ins)

lemma look_ins_del: "inv s \<Longrightarrow> look (key x) s = None \<Longrightarrow> look k (del (key x) (ins x s)) = look k s"
  by (auto simp: look_ins look_del inv_ins)

end

interpretation ks: keyed_set key "ks_insert key" "ks_find key" "ks_erase key" "ks_inv key"
  for key :: "'a \<Rightarrow> int"
proof unfold_locales
  fix s k x
  assume "ks_inv key s"
  then show "ks_find key k (ks_insert key x s) =
      (if k = key x \<and> ks_find key k s = None then Some x else ks_find key k s)"
    by (simp add: ks_find_insert)
qed (auto simp: ks_find_erase ks_inv_insert ks_inv_erase dest: ks_find_Some)

end
