(* ===== verification/CpusetVector.thy ===== *)
theory CpusetVector
  imports StdSet
begin

text \<open>
  \<open>rm/librmcommon/cpusetvector.cpp\<close>: a set of processing units written as a vector of
  inclusive ranges, and the conversions between it, \<open>std::set<short>\<close> (a strictly sorted list)
  and \<open>std::vector<short>\<close>. The code trusts its vectors to be canonical: ranges that are not
  empty, in order, and neither overlapping nor adjacent. \<open>canonical\<close> says so; the lemmas show
  that \<open>toCpusetVector\<close> builds canonical vectors, that on them the conversions are inverse to
  each other, and that \<open>addPU\<close>, \<open>removePU\<close> and \<open>countPUs\<close> are insertion, removal and size of
  the set.
\<close>

type_synonym cpuset_vector = "(int \<times> int) list"

section \<open>The operations\<close>

text \<open>
  \<open>std::accumulate\<close> keeps its sum in an \<open>int\<close>, but the lambda takes it as a \<open>short\<close>.
\<close>

definition countPUs :: "cpuset_vector \<Rightarrow> int" where
  "countPUs vec = foldl (\<lambda>init p. to_short init + (snd p - fst p + 1)) 0 vec"

fun containsPU :: "cpuset_vector \<Rightarrow> int \<Rightarrow> bool" where
  "containsPU [] pu = False"
| "containsPU (p # vec) pu = (if fst p \<le> pu \<and> pu \<le> snd p then True else containsPU vec pu)"

abbreviation pu_insert :: "int \<Rightarrow> int list \<Rightarrow> int list" where
  "pu_insert \<equiv> ks_insert (\<lambda>x. x)"

abbreviation pu_erase :: "int \<Rightarrow> int list \<Rightarrow> int list" where
  "pu_erase \<equiv> ks_erase (\<lambda>x. x)"

definition toSet :: "cpuset_vector \<Rightarrow> int list" where
  "toSet vec = foldl (\<lambda>res c. foldl (\<lambda>res i. pu_insert i res) res [fst c..snd c]) [] vec"

text \<open>
  The loop shared by the two \<open>toCpusetVector\<close>: \<open>lastPu\<close> and \<open>res\<close> are its variables.
  \<open>res[res.size()-1]\<close> on an empty vector is out of range.
\<close>

fun cpuset_loop :: "int \<Rightarrow> cpuset_vector \<Rightarrow> int list \<Rightarrow> cpuset_vector result" where
  "cpuset_loop lastPu res [] = Inr res"
| "cpuset_loop lastPu res (pu # pus) =
     (if pu = lastPu + 1
      then (if res = [] then Inl (Undefined ''vector index out of range'')
            else cpuset_loop pu (butlast res @ [(fst (last res), pu)]) pus)
      else cpuset_loop pu (res @ [(pu, pu)]) pus)"

definition toCpusetVector_set :: "int list \<Rightarrow> cpuset_vector result" where
  "toCpusetVector_set puSet = cpuset_loop (- 10) [] puSet"

definition toCpusetVector_vec :: "int list \<Rightarrow> cpuset_vector result" where
  "toCpusetVector_vec puVec = cpuset_loop (- 10) [] (sort puVec)"

definition toVector_set :: "int list \<Rightarrow> int list" where
  "toVector_set puSet = puSet"

definition toVector :: "cpuset_vector \<Rightarrow> int list" where
  "toVector vec = foldl (\<lambda>res c. res @ [fst c..snd c]) [] vec"

text \<open>The outcome of \<open>removePU\<close> and \<open>addPU\<close>: their \<open>bool\<close> and the vector they leave.\<close>

definition removePU :: "cpuset_vector \<Rightarrow> int \<Rightarrow> (bool \<times> cpuset_vector) result" where
  "removePU vec pu =
     (if pu = - 1 then Inr (False, vec)
      else map_sum id (\<lambda>v. (True, v)) (toCpusetVector_set (pu_erase pu (toSet vec))))"

definition addPU :: "cpuset_vector \<Rightarrow> int \<Rightarrow> (bool \<times> cpuset_vector) result" where
  "addPU vec pu =
     (if pu = - 1 then Inr (False, vec)
      else map_sum id (\<lambda>v. (True, v)) (toCpusetVector_set (pu_insert pu (toSet vec))))"

section \<open>Canonical vectors\<close>

fun canonical :: "cpuset_vector \<Rightarrow> bool" where
  "canonical [] = True"
| "canonical [p] = (fst p \<le> snd p)"
| "canonical (p # q # vec) = (fst p \<le> snd p \<and> snd p + 1 < fst q \<and> canonical (q # vec))"

text \<open>All numbers of the vector are processing unit numbers: non-negative shorts.\<close>

definition pu_range :: "cpuset_vector \<Rightarrow> bool" where
  "pu_range vec \<longleftrightarrow> (\<forall>p\<in>set vec. 0 \<le> fst p \<and> snd p < 2 ^ 15)"

definition pus_of :: "cpuset_vector \<Rightarrow> int set" where
  "pus_of vec = (\<Union>p\<in>set vec. {fst p..snd p})"

definition is_pu_set :: "int list \<Rightarrow> bool" where
  "is_pu_set xs \<longleftrightarrow> sorted_wrt (<) xs \<and> (\<forall>x\<in>set xs. 0 \<le> x \<and> x < 2 ^ 15)"

lemma toVector_concat: "toVector vec = concat (map (\<lambda>c. [fst c..snd c]) vec)"
proof -
  have "foldl (\<lambda>res c. res @ [fst c..snd c]) r v = r @ concat (map (\<lambda>c. [fst c..snd c]) v)" for r :: "int list" and v
    by (induction v arbitrary: r) simp_all
  then show ?thesis by (simp add: toVector_def)
qed

lemma set_toVector: "set (toVector vec) = pus_of vec"
  by (auto simp: toVector_concat pus_of_def)

lemma strict_pu_insert: "sorted_wrt (<) xs \<Longrightarrow> sorted_wrt (<) (pu_insert x xs)"
  using ks_inv_insert [of "\<lambda>x. x" xs x] by (simp add: ks_inv_def)

lemma set_pu_insert: "set (pu_insert x xs) = insert x (set xs)"
  using keys_ks_insert [of "\<lambda>x. x" x xs] by simp

lemma strict_fold_insert:
  "sorted_wrt (<) r \<Longrightarrow> sorted_wrt (<) (foldl (\<lambda>res i. pu_insert i res) r is) \<and>
     set (foldl (\<lambda>res i. pu_insert i res) r is) = set r \<union> set is"
  by (induction "is" arbitrary: r) (auto simp: strict_pu_insert set_pu_insert)

lemma strict_fold_insert_Nil:
  "sorted_wrt (<) (foldl (\<lambda>res i. pu_insert i res) [] is)"
  "set (foldl (\<lambda>res i. pu_insert i res) [] is) = set is"
  using strict_fold_insert [of "[]" "is"] by simp_all

lemma toSet_props: "sorted_wrt (<) (toSet vec)" "set (toSet vec) = pus_of vec"
proof -
  have "sorted_wrt (<) r \<Longrightarrow>
      sorted_wrt (<) (foldl (\<lambda>res c. foldl (\<lambda>res i. pu_insert i res) res [fst c..snd c]) r v) \<and>
      set (foldl (\<lambda>res c. foldl (\<lambda>res i. pu_insert i res) res [fst c..snd c]) r v) = set r \<union> pus_of v" for r :: "int list" and v
  proof (induction v arbitrary: r)
    case Nil
    then show ?case by (simp add: pus_of_def)
  next
    case (Cons c v)
    from strict_fold_insert [OF Cons.prems, of "[fst c..snd c]"] Cons.IH
    show ?case by (auto simp: pus_of_def)
  qed
  from this [of "[]" vec] show "sorted_wrt (<) (toSet vec)" "set (toSet vec) = pus_of vec"
    by (simp_all add: toSet_def)
qed

lemma strict_sorted_unique:
  "sorted_wrt (<) xs \<Longrightarrow> sorted_wrt (<) ys \<Longrightarrow> set xs = set ys \<Longrightarrow> xs = (ys :: int list)"
  by (metis strict_sorted_equal)

lemma toSet_eqI: "sorted_wrt (<) xs \<Longrightarrow> set xs = pus_of vec \<Longrightarrow> toSet vec = xs"
  by (simp add: strict_sorted_unique toSet_props)

lemma containsPU_iff: "containsPU vec pu \<longleftrightarrow> pu \<in> set (toSet vec)"
  unfolding toSet_props(2) by (induction vec) (auto simp: pus_of_def)

section \<open>Building a vector from a set\<close>

text \<open>The ranges the loop produces once it has opened the range \<open>(a, b)\<close>.\<close>

fun runs :: "int \<Rightarrow> int \<Rightarrow> int list \<Rightarrow> cpuset_vector" where
  "runs a b [] = [(a, b)]"
| "runs a b (p # ps) = (if p = b + 1 then runs a p ps else (a, b) # runs p p ps)"

lemma cpuset_loop_runs: "cpuset_loop b (res @ [(a, b)]) ps = Inr (res @ runs a b ps)"
proof (induction ps arbitrary: a b res)
  case (Cons p ps)
  show ?case
    using Cons.IH [of "b + 1" res a] Cons.IH [of p "res @ [(a, b)]" p] by simp
qed simp

lemma cpuset_loop_start: "x \<noteq> - 9 \<Longrightarrow> cpuset_loop (- 10) [] (x # xs) = Inr (runs x x xs)"
  using cpuset_loop_runs [of x "[]" x xs] by simp

lemma runs_concat:
  "a \<le> b \<Longrightarrow> concat (map (\<lambda>c. [fst c..snd c]) (runs a b ps)) = [a..b] @ ps"
proof (induction ps arbitrary: a b)
  case (Cons p ps)
  have "[a..b + 1] = [a..b] @ [b + 1]" using Cons.prems upto_rec2 [of a "b + 1"] by simp
  then show ?case using Cons by simp
qed simp

lemma fst_hd_runs: "\<exists>b' v. runs a b ps = (a, b') # v"
  by (induction ps arbitrary: b) auto

lemma canonical_Cons:
  "canonical (p # v) \<longleftrightarrow> fst p \<le> snd p \<and> canonical v \<and> (v \<noteq> [] \<longrightarrow> snd p + 1 < fst (hd v))"
  by (cases v) auto

lemma canonical_member: "canonical v \<Longrightarrow> p \<in> set v \<Longrightarrow> fst p \<le> snd p"
  by (induction v) (auto simp: canonical_Cons)

lemma canonical_runs: "a \<le> b \<Longrightarrow> sorted_wrt (<) (b # ps) \<Longrightarrow> canonical (runs a b ps)"
proof (induction ps arbitrary: a b)
  case (Cons p ps)
  obtain b' v where "runs p p ps = (p, b') # v" using fst_hd_runs by blast
  moreover have "canonical (runs p p ps)" using Cons by simp
  ultimately show ?case using Cons by (auto simp: canonical_Cons)
qed simp

lemma canonical_toVector: "canonical v \<Longrightarrow> sorted_wrt (<) (toVector v)"
proof (induction v)
  case (Cons p v)
  have "\<forall>x\<in>set (toVector v). snd p < x"
    using Cons.prems
  proof (induction v arbitrary: p)
    case Nil
    then show ?case by (simp add: toVector_def)
  next
    case (Cons q v)
    then show ?case by (fastforce simp: toVector_concat canonical_Cons)
  qed
  then have "\<forall>x\<in>set [fst p..snd p]. \<forall>y\<in>set (toVector v). x < y" by auto
  moreover have "toVector (p # v) = [fst p..snd p] @ toVector v" by (simp add: toVector_concat)
  moreover have "sorted_wrt (<) (toVector v)" using Cons by (simp add: canonical_Cons)
  ultimately show ?case by (simp add: sorted_wrt_append)
qed (simp add: toVector_def)

lemma canonical_toSet: "canonical v \<Longrightarrow> toSet v = toVector v"
  by (simp add: toSet_eqI canonical_toVector set_toVector)

lemma toCpusetVector_set_ok:
  assumes "is_pu_set xs"
  obtains v where "toCpusetVector_set xs = Inr v" and "canonical v" and "toSet v = xs" and "pu_range v"
proof (cases xs)
  case Nil
  then show ?thesis by (intro that [of "[]"]) (simp_all add: toCpusetVector_set_def toSet_def pu_range_def)
next
  case (Cons y ys)
  let ?v = "runs y y ys"
  have s: "sorted_wrt (<) (y # ys)" and r: "\<forall>x\<in>set (y # ys). 0 \<le> x \<and> x < 2 ^ 15"
    using assms Cons by (simp_all add: is_pu_set_def)
  have c: "canonical ?v" using s by (simp add: canonical_runs)
  have t: "toVector ?v = xs" using Cons by (simp add: toVector_concat runs_concat)
  have ends: "fst p \<in> set xs \<and> snd p \<in> set xs" if p: "p \<in> set ?v" for p
  proof -
    have "fst p \<le> snd p" using c p by (rule canonical_member)
    with p have "fst p \<in> pus_of ?v" "snd p \<in> pus_of ?v" by (auto simp: pus_of_def)
    then show ?thesis by (simp flip: set_toVector add: t)
  qed
  show ?thesis
  proof (rule that)
    show "toCpusetVector_set xs = Inr ?v"
      using r Cons cpuset_loop_start [of y ys]
      by (simp add: toCpusetVector_set_def del: cpuset_loop.simps)
    show "canonical ?v" by (rule c)
    show "toSet ?v = xs" using c t by (simp add: canonical_toSet)
    show "pu_range ?v"
      unfolding pu_range_def using ends r [folded Cons] by blast
  qed
qed

lemma is_pu_set_toSet: "pu_range v \<Longrightarrow> is_pu_set (toSet v)"
  by (fastforce simp: is_pu_set_def toSet_props pus_of_def pu_range_def)

lemma runs_interval: "a \<le> b \<Longrightarrow> b \<le> c \<Longrightarrow> runs a b ([b + 1..c] @ ps) = runs a c ps"
proof (induction "nat (c - b)" arbitrary: b)
  case (Suc n)
  then have "[b + 1..c] = (b + 1) # [b + 1 + 1..c]" by (simp add: upto_rec1)
  moreover have "runs a (b + 1) ([b + 1 + 1..c] @ ps) = runs a c ps"
    using Suc by (intro Suc.hyps(1)) auto
  ultimately show ?case by simp
qed simp

lemma runs_canonical: "canonical ((a, b) # v) \<Longrightarrow> runs a b (toVector v) = (a, b) # v"
proof (induction v arbitrary: a b)
  case Nil
  then show ?case by (simp add: toVector_def)
next
  case (Cons p v)
  obtain c d where p: "p = (c, d)" by (cases p)
  from Cons.prems p have *: "b + 1 < c" "c \<le> d" "canonical ((c, d) # v)" by (auto simp: canonical_Cons)
  then have "[c..d] = c # [c + 1..d]" by (simp add: upto_rec1)
  with * p Cons.IH [of c d] runs_interval [of c c d "toVector v"]
  show ?case by (simp add: toVector_concat)
qed

lemma toCpusetVector_toSet:
  assumes "canonical v" and "pu_range v"
  shows "toCpusetVector_set (toSet v) = Inr v"
proof (cases v)
  case Nil
  then show ?thesis by (simp add: toSet_def toCpusetVector_set_def)
next
  case (Cons p w)
  obtain a b where p: "p = (a, b)" by (cases p)
  have ab: "a \<le> b" "0 \<le> a" using assms Cons p by (auto simp: canonical_Cons pu_range_def)
  then have "toSet v = a # ([a + 1..b] @ toVector w)"
    using assms(1) Cons p by (simp add: canonical_toSet toVector_concat upto_rec1)
  moreover have "runs a a ([a + 1..b] @ toVector w) = v"
    using ab assms(1) Cons p by (simp add: runs_interval runs_canonical)
  ultimately show ?thesis
    using ab cpuset_loop_start [of a] by (simp add: toCpusetVector_set_def del: cpuset_loop.simps)
qed

section \<open>The set operations\<close>

lemma addPU_spec:
  assumes "pu_range vec" and "0 \<le> pu" and "pu < 2 ^ 15"
  obtains v where "addPU vec pu = Inr (True, v)" and "canonical v" and "pu_range v"
    and "set (toSet v) = insert pu (set (toSet vec))"
proof -
  have "is_pu_set (pu_insert pu (toSet vec))"
    using is_pu_set_toSet [OF assms(1)] assms(2,3)
    by (auto simp: is_pu_set_def strict_pu_insert set_pu_insert)
  then obtain v where "toCpusetVector_set (pu_insert pu (toSet vec)) = Inr v" "canonical v"
    "toSet v = pu_insert pu (toSet vec)" "pu_range v" by (rule toCpusetVector_set_ok)
  with assms(2) show ?thesis by (intro that [of v]) (simp_all add: addPU_def set_pu_insert)
qed

lemma removePU_spec:
  assumes "pu_range vec" and "pu \<noteq> - 1"
  obtains v where "removePU vec pu = Inr (True, v)" and "canonical v" and "pu_range v"
    and "set (toSet v) = set (toSet vec) - {pu}"
proof -
  have s: "set (pu_erase pu (toSet vec)) = set (toSet vec) - {pu}" by (auto simp: set_ks_erase)
  have "sorted_wrt (<) (pu_erase pu (toSet vec))"
    using ks_inv_erase [of "\<lambda>x. x" "toSet vec" pu] by (simp add: ks_inv_def toSet_props)
  with s have "is_pu_set (pu_erase pu (toSet vec))"
    using is_pu_set_toSet [OF assms(1)] by (auto simp: is_pu_set_def)
  then obtain v where "toCpusetVector_set (pu_erase pu (toSet vec)) = Inr v" "canonical v"
    "toSet v = pu_erase pu (toSet vec)" "pu_range v" by (rule toCpusetVector_set_ok)
  with assms(2) s show ?thesis by (intro that [of v]) (simp_all add: removePU_def)
qed

text \<open>
  The sum of \<open>countPUs\<close> stays below the first unit not yet counted, so the \<open>short\<close> it passes
  through never wraps.
\<close>

lemma countPUs_fold:
  "canonical vec \<Longrightarrow> pu_range vec \<Longrightarrow> 0 \<le> n \<Longrightarrow> n \<le> 2 ^ 15 - 1 \<Longrightarrow> (vec \<noteq> [] \<Longrightarrow> n \<le> fst (hd vec)) \<Longrightarrow>
     foldl (\<lambda>init p. to_short init + (snd p - fst p + 1)) n vec = n + int (length (toVector vec))"
proof (induction vec arbitrary: n)
  case Nil
  then show ?case by (simp add: toVector_def)
next
  case (Cons p vec)
  have p: "fst p \<le> snd p" "snd p < 2 ^ 15" "n \<le> fst p" using Cons.prems by (auto simp: canonical_Cons pu_range_def)
  let ?m = "n + (snd p - fst p + 1)"
  have len: "length (toVector (p # vec)) = nat (snd p - fst p + 1) + length (toVector vec)"
    by (simp add: toVector_concat)
  show ?case
  proof (cases vec)
    case Nil
    with p Cons.prems len show ?thesis by (simp add: is_short_def toVector_def)
  next
    case (Cons q w)
    with Cons.prems have q: "snd p + 1 < fst q" "fst q < 2 ^ 15"
      by (auto simp: canonical_Cons pu_range_def)
    have "foldl (\<lambda>init p. to_short init + (snd p - fst p + 1)) ?m vec = ?m + int (length (toVector vec))"
      using Cons.prems p q local.Cons by (intro Cons.IH) (auto simp: canonical_Cons pu_range_def)
    with p Cons.prems len show ?thesis by (simp add: is_short_def)
  qed
qed

lemma countPUs_size: "canonical vec \<Longrightarrow> pu_range vec \<Longrightarrow> countPUs vec = int (length (toSet vec))"
proof -
  assume c: "canonical vec" and r: "pu_range vec"
  have "vec \<noteq> [] \<Longrightarrow> 0 \<le> fst (hd vec)" using r by (cases vec) (auto simp: pu_range_def)
  with c r countPUs_fold [of vec 0] show ?thesis by (simp add: countPUs_def canonical_toSet)
qed

end
