(* ===== verification/CpusetFormat.thy ===== *)
theory CpusetFormat
  imports CpusetVector NumericValue
begin

text \<open>
  The text form of a set of processing units, as the cpuset files hold it: \<open>parseCpuSet\<close> and
  the two copies of the printer in \<open>rm/platformcontrol/cgroup/controllers/cpusetcontrol.cpp\<close>
  (\<open>setCpus\<close>, \<open>setMems\<close>), and \<open>toString\<close> of \<open>rm/librmcommon/cpusetvector.cpp\<close>.
\<close>

section \<open>Parsing\<close>

text \<open>The loop of \<open>parseCpuSet\<close>: \<open>emplace_back\<close> narrows the two \<open>int\<close> to \<open>short\<close>.\<close>

function parse_loop :: "cpuset_vector \<Rightarrow> string \<Rightarrow> cpuset_vector result" where
  "parse_loop vec p =
     (if peek p = NUL then Inr vec
      else if \<not> isdigit (peek p) then Inl (PcException ''getCpusetCpus: invalid format'')
      else (let (n1, endptr) = strtol p; cpu1 = to_int32 n1 in
        if peek endptr = NUL then Inr (vec @ [(to_short cpu1, to_short cpu1)])
        else if peek endptr = CHR '','' then parse_loop (vec @ [(to_short cpu1, to_short cpu1)]) (tl endptr)
        else if peek endptr = CHR ''-'' then
          (let p2 = tl endptr in
           if \<not> isdigit (peek p2) then Inl (PcException ''getCpusetCpus: invalid format'')
           else (let (n2, endptr2) = strtol p2;
                     vec' = vec @ [(to_short cpu1, to_short (to_int32 n2))] in
             if peek endptr2 = NUL then Inr vec'
             else if peek endptr2 = CHR '','' then parse_loop vec' (tl endptr2)
             else Inl (PcException ''getCpusetCpus: invalid format'')))
        else Inl (PcException ''getCpusetCpus: invalid format'')))"
  by pat_completeness auto
termination
proof (relation "measure (length \<circ> snd)", goal_cases)
  case (2 vec p x n1 endptr cpu1)
  then have "endptr = snd (strtol p)" by (metis snd_conv)
  then show ?case using strtol_rest_shorter [of p] 2 by auto
next
  case (3 vec p x n1 endptr cpu1 p2 y n2 endptr2 vec')
  then have "endptr = snd (strtol p)" "endptr2 = snd (strtol p2)" by (metis snd_conv)+
  then have "length endptr < length p" "length endptr2 < length p2"
    using strtol_rest_shorter [of p] strtol_rest_shorter [of p2] 3 by auto
  then show ?case using 3 by simp
qed simp

declare parse_loop.simps [simp del]

definition parseCpuSet :: "string \<Rightarrow> cpuset_vector result" where
  "parseCpuSet line = parse_loop [] line"

section \<open>Printing\<close>

text \<open>\<open>setCpus\<close> and \<open>setMems\<close>, up to the call of \<open>setValue\<close>: a loop over an index.\<close>

definition render_cpus :: "cpuset_vector \<Rightarrow> string" where
  "render_cpus cpus =
     concat (map (\<lambda>i.
       (if i > 0 then '','' else []) @ show_int (fst (cpus ! i)) @
       (if snd (cpus ! i) \<noteq> fst (cpus ! i) then CHR ''-'' # show_int (snd (cpus ! i)) else []))
       [0..<length cpus])"

text \<open>\<open>toString\<close>, with its flag \<open>f\<close>.\<close>

fun toString_loop :: "bool \<Rightarrow> cpuset_vector \<Rightarrow> string" where
  "toString_loop f [] = []"
| "toString_loop f (p # vec) =
     (if f then [] else '','') @
     (if fst p = snd p then show_int (fst p) else show_int (fst p) @ CHR ''-'' # show_int (snd p)) @
     toString_loop False vec"

definition toString :: "cpuset_vector \<Rightarrow> string" where
  "toString vec = toString_loop True vec"

section \<open>Printing agrees, and parsing undoes it\<close>

definition show_range :: "int \<times> int \<Rightarrow> string" where
  "show_range p = show_int (fst p) @ (if snd p \<noteq> fst p then CHR ''-'' # show_int (snd p) else [])"

lemma join_Cons: "join s (w # ws) = w @ (if ws = [] then [] else s # join s ws)"
  by (cases ws) simp_all

lemma toString_loop_join:
  "toString_loop f vec = (if vec = [] \<or> f then [] else '','') @ join (CHR '','') (map show_range vec)"
proof (induction vec arbitrary: f)
  case (Cons p vec)
  have "toString_loop f (p # vec) = (if f then [] else '','') @ show_range p @ toString_loop False vec"
    by (simp add: show_range_def)
  also have "\<dots> = (if f then [] else '','') @ join (CHR '','') (map show_range (p # vec))"
    unfolding Cons.IH list.map join_Cons by simp
  finally show ?case by simp
qed simp

lemma toString_join: "toString vec = join (CHR '','') (map show_range vec)"
  by (simp add: toString_def toString_loop_join)

lemma join_snoc: "ws \<noteq> [] \<Longrightarrow> join s (ws @ [w]) = join s ws @ s # w"
  by (induction s ws rule: join.induct) auto

lemma render_cpus_join: "render_cpus vec = join (CHR '','') (map show_range vec)"
proof (induction vec rule: rev_induct)
  case Nil
  then show ?case by (simp add: render_cpus_def)
next
  case (snoc p vec)
  have r: "render_cpus v = concat (map (\<lambda>i. (if i > 0 then '','' else []) @ show_range (v ! i)) [0..<length v])" for v
    by (simp add: render_cpus_def show_range_def)
  have "concat (map (\<lambda>i. (if i > 0 then '','' else []) @ show_range ((vec @ [p]) ! i)) [0..<length vec])
      = concat (map (\<lambda>i. (if i > 0 then '','' else []) @ show_range (vec ! i)) [0..<length vec])"
    by (intro arg_cong [where f = concat] map_cong) (simp_all add: nth_append)
  then have "render_cpus (vec @ [p]) = render_cpus vec @ (if vec \<noteq> [] then '','' else []) @ show_range p"
    unfolding r by simp
  with snoc show ?case by (cases "vec = []") (simp_all add: join_snoc)
qed

lemma parse_loop_step:
  assumes p: "0 \<le> fst p" "fst p < 2 ^ 15" "0 \<le> snd p" "snd p < 2 ^ 15"
    and rest: "rest = [] \<or> hd rest = CHR '',''"
  shows "parse_loop vec (show_range p @ rest) =
    (if rest = [] then Inr (vec @ [p]) else parse_loop (vec @ [p]) (tl rest))"
proof -
  obtain a b where ab: "p = (a, b)" by (cases p)
  have sh: "to_short (to_int32 a) = a" "to_short (to_int32 b) = b"
    using p ab by (simp_all add: is_int32_def is_short_def)
  have pk: "isdigit (peek (show_nat n @ s)) \<and> peek (show_nat n @ s) \<noteq> NUL" for n s
    using isdigit_hd_show_nat [of n] by (cases "show_nat n") (auto simp: isdigit_not_special)
  have st: "strtol (show_nat (nat i) @ s) = (i, s)" if "0 \<le> i" "i < 2 ^ 15" "s = [] \<or> \<not> isdigit (hd s)" for i s
    using that strtol_show_nat [of "nat i" s] by simp
  have nd: "\<not> isdigit (CHR '','')" "\<not> isdigit (CHR ''-'')" by (auto simp: isdigit_def code_def)
  have ne: "CHR '','' \<noteq> NUL" "CHR ''-'' \<noteq> NUL" by (simp_all add: NUL_def)
  have r: "peek rest = NUL \<longleftrightarrow> rest = []" "peek rest = CHR '','' \<longleftrightarrow> rest \<noteq> []"
    "rest = [] \<or> \<not> isdigit (hd rest)"
    using rest nd ne by (cases rest; auto)+
  show ?thesis
  proof (cases "a = b")
    case True
    have "strtol (show_nat (nat a) @ rest) = (a, rest)" using p ab r by (intro st) auto
    with True p ab show ?thesis
      by (subst parse_loop.simps) (simp add: show_range_def show_int_def pk r sh)
  next
    case False
    have "strtol (show_nat (nat b) @ rest) = (b, rest)" using p ab r by (intro st) auto
    moreover have "strtol (show_nat (nat a) @ CHR ''-'' # show_nat (nat b) @ rest)
        = (a, CHR ''-'' # show_nat (nat b) @ rest)" using p ab nd by (intro st) auto
    ultimately show ?thesis using False p ab
      by (subst parse_loop.simps) (simp add: show_range_def show_int_def pk r sh ne)
  qed
qed

text \<open>Vectors whose numbers are unit numbers; they need not be canonical.\<close>

definition shorts :: "cpuset_vector \<Rightarrow> bool" where
  "shorts vec \<longleftrightarrow> (\<forall>p\<in>set vec. 0 \<le> fst p \<and> fst p < 2 ^ 15 \<and> 0 \<le> snd p \<and> snd p < 2 ^ 15)"

lemma shorts_canonical: "canonical vec \<Longrightarrow> pu_range vec \<Longrightarrow> shorts vec"
  using canonical_member by (fastforce simp: shorts_def pu_range_def)

lemma parse_loop_render:
  "shorts vec \<Longrightarrow> parse_loop acc (join (CHR '','') (map show_range vec)) = Inr (acc @ vec)"
proof (induction vec arbitrary: acc)
  case Nil
  then show ?case by (subst parse_loop.simps) simp
next
  case (Cons p vec)
  then have p: "0 \<le> fst p" "fst p < 2 ^ 15" "0 \<le> snd p" "snd p < 2 ^ 15"
    and IH: "parse_loop (acc @ [p]) (join (CHR '','') (map show_range vec)) = Inr (acc @ p # vec)"
    by (auto simp: shorts_def)
  show ?case
  proof (cases "vec = []")
    case True
    with parse_loop_step [OF p, of "[]" acc] show ?thesis by simp
  next
    case False
    then have "join (CHR '','') (map show_range (p # vec))
        = show_range p @ CHR '','' # join (CHR '','') (map show_range vec)" by (cases vec) auto
    with parse_loop_step [OF p, of "CHR '','' # join (CHR '','') (map show_range vec)" acc] IH
    show ?thesis by simp
  qed
qed

lemma parseCpuSet_render: "shorts vec \<Longrightarrow> parseCpuSet (render_cpus vec) = Inr vec"
  by (simp add: parseCpuSet_def render_cpus_join parse_loop_render)

lemma set_show_int: "c \<in> set (show_int i) \<Longrightarrow> isdigit c \<or> c = CHR ''-''"
  by (auto simp: show_int_def show_nat_digits split: if_splits)

lemma set_join: "c \<in> set (join s ws) \<Longrightarrow> c = s \<or> (\<exists>w\<in>set ws. c \<in> set w)"
  by (induction s ws rule: join.induct) auto

lemma render_cpus_line: "NEWLINE \<notin> set (render_cpus vec)"
proof
  assume "NEWLINE \<in> set (render_cpus vec)"
  then obtain p where "NEWLINE \<in> set (show_range p)"
    unfolding render_cpus_join by (auto dest!: set_join simp: NEWLINE_def)
  then show False
    by (auto simp: show_range_def NEWLINE_def isdigit_def code_def dest!: set_show_int split: if_splits)
qed

interpretation cpus: line_format render_cpus parseCpuSet shorts
  by unfold_locales (simp_all add: parseCpuSet_render render_cpus_line)

end
