(* ===== verification/KeyValueParser.thy ===== *)
theory KeyValueParser
  imports NumericValue
begin

text \<open>
  \<open>rm/platformcontrol/utilities/keyvalueparser.{h,cpp}\<close>: lines of \<open>key=value\<close> pairs, possibly
  after a device number \<open>major:minor\<close>. The two pointers of the class are suffixes of the line,
  passed and returned; a \<open>std::map\<close> is the list of its pairs in order of insertion, without
  two pairs for a key. The main fact is that a line put together from pairs is parsed back to
  them.
\<close>

type_synonym tags = "(string \<times> numeric_value) list"

definition findTokenEnd :: "string \<Rightarrow> string" where
  "findTokenEnd pStart = dropWhile isalnum pStart"

text \<open>\<open>std::map::insert\<close> keeps the pair that is already there.\<close>

definition map_insert :: "tags \<Rightarrow> string \<times> numeric_value \<Rightarrow> tags" where
  "map_insert m kv = (if fst kv \<in> fst ` set m then m else m @ [kv])"

text \<open>The result and the \<open>endptr_\<close> that the parser is left with.\<close>

definition parseMajorMinor :: "string \<Rightarrow> int \<Rightarrow> int \<Rightarrow> (bool \<times> string) result" where
  "parseMajorMinor ptr major minor =
     (if \<not> isdigit (peek ptr) then Inl (RuntimeError ''Invalid line: digit expected for major'')
      else (case strtol ptr of (devMajor, endptr) \<Rightarrow>
        if peek endptr \<noteq> CHR '':'' then Inl (RuntimeError ''Invalid line: ':' expected after major'')
        else if to_int32 devMajor \<noteq> major then Inr (False, endptr)
        else (let ptr = tl endptr in
          if \<not> isdigit (peek ptr) then Inl (RuntimeError ''Invalid line: digit expected for minor'')
          else (case strtol ptr of (devMinor, endptr) \<Rightarrow>
            if to_int32 devMinor \<noteq> minor then Inr (False, endptr) else Inr (True, endptr)))))"

definition parseKeyValue :: "string \<Rightarrow> ((string \<times> numeric_value) \<times> string) result" where
  "parseKeyValue ptr =
     (let tag = takeWhile isalnum ptr; endptr = findTokenEnd ptr in
      if tag = [] then Inl (RuntimeError ''Invalid line: alpha character expected for tag'')
      else if peek endptr \<noteq> CHR ''='' \<and> peek endptr \<noteq> CHR '':''
      then Inl (RuntimeError ''Invalid line: '=' or ':' expected after tag'')
      else (let ptr = tl endptr; endptr = findTokenEnd ptr; n = length ptr - length endptr in
        if n = 0 then Inl (RuntimeError ''Invalid line: alphanumeric character expected for value'')
        else (let val = nv_init (Some ptr) (Some n) in
          if isInvalid val then Inl (RuntimeError ''Invalid line: invalid numeric value'')
          else Inr ((tag, val), endptr))))"

lemma parseKeyValue_shorter: "parseKeyValue ptr = Inr (kv, endptr) \<Longrightarrow> length endptr < length ptr"
proof -
  assume "parseKeyValue ptr = Inr (kv, endptr)"
  then have e: "endptr = dropWhile isalnum (tl (dropWhile isalnum ptr))"
    and t: "takeWhile isalnum ptr \<noteq> []"
    by (auto simp: parseKeyValue_def findTokenEnd_def Let_def split: if_splits)
  have "length endptr \<le> length (tl (dropWhile isalnum ptr))"
    unfolding e by (rule length_dropWhile_le)
  also have "\<dots> \<le> length (dropWhile isalnum ptr)" by simp
  also have "\<dots> < length ptr"
    using t by (cases ptr) (auto simp: le_imp_less_Suc length_dropWhile_le split: if_splits)
  finally show ?thesis .
qed

text \<open>The loop of \<open>parseLineNv(line)\<close>; a NUL in the line ends it.\<close>

function parseLine_loop :: "tags \<Rightarrow> string \<Rightarrow> tags result" where
  "parseLine_loop tags ptr =
     (if peek ptr = NUL then Inr tags
      else (case parseKeyValue ptr of
          Inl e \<Rightarrow> Inl e
        | Inr (kv, endptr) \<Rightarrow>
            (let tags' = map_insert tags kv in
             if peek endptr = NUL then Inr tags'
             else if peek endptr \<noteq> CHR '' ''
             then Inl (RuntimeError ''Invalid line: expected space character after value'')
             else if peek (tl endptr) = NUL
             then Inl (RuntimeError ''Invalid line: expected new tag after last value'')
             else parseLine_loop tags' (tl endptr))))"
  by pat_completeness auto
termination
  by (relation "measure (length \<circ> snd)") (auto dest!: parseKeyValue_shorter)

declare parseLine_loop.simps [simp del]

definition parseLineNv :: "string \<Rightarrow> tags result" where
  "parseLineNv line = parseLine_loop [] line"

definition parseLineNv_device :: "string \<Rightarrow> int \<Rightarrow> int \<Rightarrow> tags result" where
  "parseLineNv_device line major minor =
     (case parseMajorMinor line major minor of
        Inl e \<Rightarrow> Inl e
      | Inr (found, endptr) \<Rightarrow>
          (if \<not> found \<or> peek endptr = NUL then Inr []
           else if peek endptr \<noteq> CHR '' '' then Inl (RuntimeError ''Invalid line: space expected after minor'')
           else parseLineNv (tl endptr)))"

section \<open>Round trip\<close>

definition render_tag :: "char \<Rightarrow> string \<times> numeric_value \<Rightarrow> string" where
  "render_tag sep kv = fst kv @ sep # nv_show (snd kv)"

definition render_tags :: "char \<Rightarrow> tags \<Rightarrow> string" where
  "render_tags sep kvs = join (CHR '' '') (map (render_tag sep) kvs)"

definition tag_ok :: "string \<times> numeric_value \<Rightarrow> bool" where
  "tag_ok kv \<longleftrightarrow> fst kv \<noteq> [] \<and> (\<forall>c\<in>set (fst kv). isalnum c) \<and> \<not> isInvalid (snd kv)"

lemma token_append:
  assumes "\<forall>c\<in>set w. isalnum c" and "rest = [] \<or> \<not> isalnum (hd rest)"
  shows "takeWhile isalnum (w @ rest) = w" and "findTokenEnd (w @ rest) = rest"
  using span_append [of w isalnum rest] assms by (auto simp: span_def findTokenEnd_def)

lemma parseKeyValue_render:
  assumes "tag_ok kv" and sep: "sep = CHR ''='' \<or> sep = CHR '':''" and "rest = [] \<or> \<not> isalnum (hd rest)"
  shows "parseKeyValue (render_tag sep kv @ rest) = Inr (kv, rest)"
proof -
  obtain k v where kv: "kv = (k, v)" by (cases kv)
  with assms(1) have k: "k \<noteq> []" "\<forall>c\<in>set k. isalnum c" and v: "\<not> isInvalid v"
    by (auto simp: tag_ok_def)
  from sep have "\<not> isalnum sep" using isalnum_not_special(7,8) by blast
  with k token_append [of k "sep # nv_show v @ rest"]
  have "takeWhile isalnum (k @ sep # nv_show v @ rest) = k"
    "findTokenEnd (k @ sep # nv_show v @ rest) = sep # nv_show v @ rest" by simp_all
  moreover have "findTokenEnd (nv_show v @ rest) = rest"
    using assms(3) by (intro token_append) (auto dest: set_nv_show)
  ultimately show ?thesis
    using k v sep nv_init_show [OF v assms(3)] by (auto simp: parseKeyValue_def render_tag_def kv Let_def)
qed

lemma peek_render: "tag_ok kv \<Longrightarrow> peek (render_tag sep kv @ rest) \<noteq> NUL"
  by (cases "fst kv") (auto simp: tag_ok_def render_tag_def isalnum_not_special)

lemma peek_render_tags: "kvs \<noteq> [] \<Longrightarrow> \<forall>kv\<in>set kvs. tag_ok kv \<Longrightarrow> peek (render_tags sep kvs) \<noteq> NUL"
  using peek_render [of "hd kvs" sep "[]"] peek_render [of "hd kvs" sep]
  by (cases kvs; cases "tl kvs") (auto simp: render_tags_def)

lemma parseLine_loop_render:
  assumes "\<forall>kv\<in>set kvs. tag_ok kv" and "sep = CHR ''='' \<or> sep = CHR '':''"
    and "distinct (map fst (tags @ kvs))"
  shows "parseLine_loop tags (render_tags sep kvs) = Inr (tags @ kvs)"
  using assms
proof (induction kvs arbitrary: tags)
  case Nil
  then show ?case by (subst parseLine_loop.simps) (simp add: render_tags_def)
next
  case (Cons kv kvs)
  have i: "map_insert tags kv = tags @ [kv]" using Cons.prems(3) by (auto simp: map_insert_def)
  show ?case
  proof (cases "kvs = []")
    case True
    then show ?thesis
      using Cons.prems i parseKeyValue_render [of kv sep "[]"] peek_render [of kv sep "[]"]
      by (subst parseLine_loop.simps) (simp add: render_tags_def)
  next
    case False
    then obtain kv' kvs' where *: "kvs = kv' # kvs'" by (cases kvs) auto
    let ?rest = "CHR '' '' # render_tags sep kvs"
    have r: "render_tags sep (kv # kvs) = render_tag sep kv @ ?rest" by (simp add: render_tags_def *)
    have "parseLine_loop (tags @ [kv]) (render_tags sep kvs) = Inr ((tags @ [kv]) @ kvs)"
      using Cons.prems by (intro Cons.IH) auto
    moreover have "parseKeyValue (render_tag sep kv @ ?rest) = Inr (kv, ?rest)"
      using Cons.prems isalnum_not_special(5) by (intro parseKeyValue_render) auto
    moreover have "peek (render_tags sep kvs) \<noteq> NUL"
      using False Cons.prems by (intro peek_render_tags) auto
    ultimately show ?thesis
      using Cons.prems i peek_render [of kv sep ?rest]
      by (subst parseLine_loop.simps) (simp add: r NUL_def)
  qed
qed

lemma parseMajorMinor_render:
  assumes "0 \<le> major" "major < 2 ^ 31" "0 \<le> minor" "minor < 2 ^ 31"
    and rest: "rest = [] \<or> \<not> isdigit (hd rest)"
  shows "parseMajorMinor (show_int major @ CHR '':'' # show_int minor @ rest) major' minor'
    = (if major' = major \<and> minor' = minor then Inr (True, rest)
       else Inr (False, if major' = major then rest else CHR '':'' # show_int minor @ rest))"
proof -
  have colon: "\<not> isdigit (CHR '':'')" by (simp add: isdigit_def code_def)
  have "isdigit (peek (show_nat n @ s))" for n s
    using isdigit_hd_show_nat [of n] by (cases "show_nat n") auto
  moreover have "strtol (show_nat (nat major) @ CHR '':'' # show_int minor @ rest)
      = (major, CHR '':'' # show_int minor @ rest)"
    using assms colon strtol_show_nat [of "nat major" "CHR '':'' # show_int minor @ rest"] by simp
  moreover have "strtol (show_nat (nat minor) @ rest) = (minor, rest)"
    using assms strtol_show_nat [of "nat minor" rest] by simp
  moreover have "to_int32 major = major" "to_int32 minor = minor"
    using assms by (simp_all add: is_int32_def)
  ultimately show ?thesis
    using assms by (simp add: parseMajorMinor_def show_int_def Let_def)
qed

end
