(* ===== verification/Controllers.thy ===== *)
theory Controllers
  imports CgroupControl CpusetFormat KeyValueParser
begin

text \<open>
  \<open>rm/platformcontrol/cgroup/controllers/\<close>: one group of definitions per controller, each
  reading and writing its control files through \<open>CgroupControl\<close>. The formats of the files
  interpret \<open>line_format\<close>, so what a setter writes its getter reads back.
\<close>

section \<open>cpuset\<close>

definition setCpus :: "('k, 'm) platform_scheme \<Rightarrow> cpuset_vector \<Rightarrow> app \<Rightarrow> ('k, unit) act" where
  "setCpus pf cpus app = setValue pf ''cpuset'' ''cpuset.cpus'' (render_cpus cpus) app"

definition getCpus :: "('k, 'm) platform_scheme \<Rightarrow> app \<Rightarrow> ('k, cpuset_vector) act" where
  "getCpus pf app =
     bnd (cg_getLine pf ''cpuset'' ''cpuset.cpus'' app) (\<lambda>line. lift_result (parseCpuSet line))"

definition getCpusEffective :: "('k, 'm) platform_scheme \<Rightarrow> app \<Rightarrow> ('k, cpuset_vector) act" where
  "getCpusEffective pf app =
     bnd (cg_getLine pf ''cpuset'' ''cpuset.cpus.effective'' app) (\<lambda>line. lift_result (parseCpuSet line))"

definition setMems :: "('k, 'm) platform_scheme \<Rightarrow> cpuset_vector \<Rightarrow> app \<Rightarrow> ('k, unit) act" where
  "setMems pf memNodes app = setValue pf ''cpuset'' ''cpuset.mems'' (render_cpus memNodes) app"

definition getMems :: "('k, 'm) platform_scheme \<Rightarrow> app \<Rightarrow> ('k, cpuset_vector) act" where
  "getMems pf app =
     bnd (cg_getLine pf ''cpuset'' ''cpuset.mems'' app) (\<lambda>line. lift_result (parseCpuSet line))"

definition getMemsEffective :: "('k, 'm) platform_scheme \<Rightarrow> app \<Rightarrow> ('k, cpuset_vector) act" where
  "getMemsEffective pf app =
     bnd (cg_getLine pf ''cpuset'' ''cpuset.mems.effective'' app) (\<lambda>line. lift_result (parseCpuSet line))"

section \<open>cpu\<close>

definition cpu_period :: int where
  "cpu_period = 100000"

text \<open>The text that \<open>CpuControl::setMax\<close> puts together, in 64-bit unsigned arithmetic.\<close>

definition cpu_max_text :: "numeric_value \<Rightarrow> string" where
  "cpu_max_text percentage =
     (if isMax percentage then nv_show percentage @ CHR '' '' # show_int cpu_period
      else show_u64 ((nv_value percentage * to_u64 cpu_period) div 100) @ CHR '' '' # show_int cpu_period)"

definition cpu_setMax :: "('k, 'm) platform_scheme \<Rightarrow> numeric_value \<Rightarrow> app \<Rightarrow> ('k, unit) act" where
  "cpu_setMax pf percentage app = setValue pf ''cpu'' ''cpu.max'' (cpu_max_text percentage) app"

text \<open>What \<open>CpuControl::getMax\<close> makes of the line; a period of 0 would be divided by.\<close>

definition parse_cpu_max :: "string \<Rightarrow> numeric_value result" where
  "parse_cpu_max svalue =
     (case nv_extract svalue of
        (value, None) \<Rightarrow> Inr nv_invalid
      | (value, Some rest) \<Rightarrow>
          (case read_int rest of
             None \<Rightarrow> Inr nv_invalid
           | Some (period, _) \<Rightarrow>
               (if isInvalid value \<or> isMax value then Inr value
                else if period = 0 then Inl (Undefined ''division by zero'')
                else Inr (NumericValue ((nv_value value * 100) div to_u64 period)))))"

definition cpu_getMax :: "('k, 'm) platform_scheme \<Rightarrow> app \<Rightarrow> ('k, numeric_value) act" where
  "cpu_getMax pf app =
     bnd (cg_getLine pf ''cpu'' ''cpu.max'' app) (\<lambda>svalue. lift_result (parse_cpu_max svalue))"

definition cpu_getStat :: "('k, 'm) platform_scheme \<Rightarrow> app \<Rightarrow> ('k, (string \<times> 64 word) list) act" where
  "cpu_getStat pf app = getContentAsMap pf ''cpu'' ''cpu.stat'' app"

definition cpu_setWeight :: "('k, 'm) platform_scheme \<Rightarrow> int \<Rightarrow> app \<Rightarrow> ('k, unit) act" where
  "cpu_setWeight pf weight app = setValue pf ''cpu'' ''cpu.weight'' (show_int weight) app"

section \<open>memory\<close>

definition mem_getCurrent :: "('k, 'm) platform_scheme \<Rightarrow> app \<Rightarrow> ('k, int) act" where
  "mem_getCurrent pf app = getValueAsInt pf ''memory'' ''memory.current'' app"

definition mem_setMin :: "('k, 'm) platform_scheme \<Rightarrow> int \<Rightarrow> app \<Rightarrow> ('k, unit) act" where
  "mem_setMin pf minMem app = setValue pf ''memory'' ''memory.min'' (show_int minMem) app"

definition mem_getMin :: "('k, 'm) platform_scheme \<Rightarrow> app \<Rightarrow> ('k, int) act" where
  "mem_getMin pf app = getValueAsInt pf ''memory'' ''memory.min'' app"

definition mem_setMax :: "('k, 'm) platform_scheme \<Rightarrow> numeric_value \<Rightarrow> app \<Rightarrow> ('k, unit) act" where
  "mem_setMax pf maxMem app = setValue pf ''memory'' ''memory.max'' (nv_show maxMem) app"

definition mem_getMax :: "('k, 'm) platform_scheme \<Rightarrow> app \<Rightarrow> ('k, numeric_value) act" where
  "mem_getMax pf app = bnd (cg_getLine pf ''memory'' ''memory.max'' app) (\<lambda>line. ret (nv_of_string line))"

definition mem_getEvents :: "('k, 'm) platform_scheme \<Rightarrow> app \<Rightarrow> ('k, (string \<times> 64 word) list) act" where
  "mem_getEvents pf app = getContentAsMap pf ''memory'' ''memory.events'' app"

definition mem_getStat :: "('k, 'm) platform_scheme \<Rightarrow> app \<Rightarrow> ('k, (string \<times> 64 word) list) act" where
  "mem_getStat pf app = getContentAsMap pf ''memory'' ''memory.stat'' app"

section \<open>pids\<close>

definition pids_setMax :: "('k, 'm) platform_scheme \<Rightarrow> numeric_value \<Rightarrow> app \<Rightarrow> ('k, unit) act" where
  "pids_setMax pf numPids app = setValue pf ''pids'' ''pids.max'' (nv_show numPids) app"

definition pids_getMax :: "('k, 'm) platform_scheme \<Rightarrow> app \<Rightarrow> ('k, numeric_value) act" where
  "pids_getMax pf app = bnd (cg_getLine pf ''pids'' ''pids.max'' app) (\<lambda>line. ret (nv_of_string line))"

text \<open>The \<open>int\<close> of \<open>getValueAsInt\<close> is widened to \<open>uint64_t\<close>.\<close>

definition pids_getCurrent :: "('k, 'm) platform_scheme \<Rightarrow> app \<Rightarrow> ('k, numeric_value) act" where
  "pids_getCurrent pf app =
     bnd (getValueAsInt pf ''pids'' ''pids.current'' app) (\<lambda>n. ret (NumericValue (to_u64 n)))"

section \<open>io\<close>

datatype io_max = RBPS | WBPS | RIOPS | WIOPS

datatype io_file = IO_STAT | IO_MAX

fun io_fileName :: "io_file \<Rightarrow> string" where
  "io_fileName IO_STAT = ''io.stat''"
| "io_fileName IO_MAX = ''io.max''"

fun keyName :: "io_max \<Rightarrow> string" where
  "keyName RBPS = ''rbps''"
| "keyName WBPS = ''wbps''"
| "keyName RIOPS = ''riops''"
| "keyName WIOPS = ''wiops''"

text \<open>The loop of \<open>getIOHelper\<close>: the first line with tags for the device ends it.\<close>

fun io_scan :: "int \<Rightarrow> int \<Rightarrow> string list \<Rightarrow> tags result" where
  "io_scan major minor [] = Inr []"
| "io_scan major minor (line # ls) =
     (case parseLineNv_device line major minor of
        Inl e \<Rightarrow> Inl e
      | Inr tags \<Rightarrow> (if tags \<noteq> [] then Inr tags else io_scan major minor ls))"

definition getIOHelper :: "('k, 'm) platform_scheme \<Rightarrow> io_file \<Rightarrow> int \<Rightarrow> int \<Rightarrow> app \<Rightarrow> ('k, tags) act" where
  "getIOHelper pf cf major minor app =
     bnd (cg_getContent pf ''io'' (io_fileName cf) app) (\<lambda>ls. lift_result (io_scan major minor ls))"

definition io_getStat :: "('k, 'm) platform_scheme \<Rightarrow> int \<Rightarrow> int \<Rightarrow> app \<Rightarrow> ('k, tags) act" where
  "io_getStat pf major minor app = getIOHelper pf IO_STAT major minor app"

definition io_getMax :: "('k, 'm) platform_scheme \<Rightarrow> int \<Rightarrow> int \<Rightarrow> app \<Rightarrow> ('k, tags) act" where
  "io_getMax pf major minor app = getIOHelper pf IO_MAX major minor app"

definition io_max_text :: "int \<Rightarrow> int \<Rightarrow> io_max \<Rightarrow> numeric_value \<Rightarrow> string" where
  "io_max_text major minor ioMax value =
     show_int major @ CHR '':'' # show_int minor @ CHR '' '' # keyName ioMax @ CHR ''='' # nv_show value"

definition io_setMax :: "('k, 'm) platform_scheme \<Rightarrow> int \<Rightarrow> int \<Rightarrow> io_max \<Rightarrow> numeric_value \<Rightarrow> app \<Rightarrow> ('k, unit) act" where
  "io_setMax pf major minor ioMax value app =
     setValue pf ''io'' ''io.max'' (io_max_text major minor ioMax value) app"

section \<open>The cpu.max format\<close>

text \<open>Percentages for which the conversion to microseconds stays within 64 bits, or \<open>max\<close>.\<close>

definition cpu_percentage :: "numeric_value \<Rightarrow> bool" where
  "cpu_percentage v \<longleftrightarrow> isMax v \<or> unat (nv_value v) * 100000 < 2 ^ 64"

lemma read_int_show: "0 \<le> i \<Longrightarrow> i < 2 ^ 31 \<Longrightarrow> read_int (CHR '' '' # show_int i) = Some (i, [])"
proof -
  assume i: "0 \<le> i" "i < 2 ^ 31"
  have sp: "isspace (CHR '' '')" by (simp add: isspace_def code_def)
  have "scan_number (CHR '' '' # s) = scan_number s" for s
    by (simp add: scan_number_def sp)
  with i scan_number_show_nat [of "[]" "nat i"] show ?thesis
    by (simp add: read_int_def show_int_def is_int32_def)
qed

lemma quota_value:
  fixes v :: "64 word"
  assumes "unat v * 100000 < 2 ^ 64"
  shows "unat ((v * 100000) div 100) = unat v * 1000"
  using assms by (simp add: unat_div unat_word_ariths)

lemma parse_cpu_max_text:
  assumes "cpu_percentage v"
  shows "parse_cpu_max (cpu_max_text v) = Inr v"
proof -
  have p: "read_int (CHR '' '' # show_int cpu_period) = Some (cpu_period, [])"
    by (rule read_int_show) (simp_all add: cpu_period_def)
  have sp: "isspace (CHR '' '')" by (simp add: isspace_def code_def)
  show ?thesis
  proof (cases "isMax v")
    case True
    then have "\<not> isInvalid v" by (auto simp: isMax_iff)
    then have "nv_extract (nv_show v @ CHR '' '' # show_int cpu_period) = (v, Some (CHR '' '' # show_int cpu_period))"
      by (rule nv_extract_show) (simp add: sp)
    then show ?thesis
      unfolding parse_cpu_max_def cpu_max_text_def by (simp only: True p if_True prod.case option.case simp_thms)
  next
    case False
    with assms have v: "unat (nv_value v) * 100000 < 2 ^ 64" by (simp add: cpu_percentage_def)
    define q where "q = (nv_value v * 100000) div (100 :: 64 word)"
    have q: "unat q = unat (nv_value v) * 1000" using v unfolding q_def by (rule quota_value)
    have "uint NUMERIC_VALUE_INVALID = 2 ^ 64 - 2" "uint NUMERIC_VALUE_MAX = 2 ^ 64 - 1" by code_simp+
    moreover have "uint q < 2 ^ 63"
    proof -
      have "unat q < 2 ^ 63" using q v by simp
      then have "int (unat q) < int (2 ^ 63)" by (simp only: of_nat_less_iff)
      then show ?thesis by simp
    qed
    ultimately have ne: "q \<noteq> NUMERIC_VALUE_INVALID" "q \<noteq> NUMERIC_VALUE_MAX" by auto
    then have nm: "\<not> isInvalid (NumericValue q)" "\<not> isMax (NumericValue q)"
      by (simp_all add: isInvalid_def isMax_def)
    have per: "to_u64 cpu_period = 100000" by (simp add: to_u64_def cpu_period_def)
    have "nv_extract (nv_show (NumericValue q) @ CHR '' '' # show_int cpu_period)
        = (NumericValue q, Some (CHR '' '' # show_int cpu_period))"
      using nm sp by (intro nv_extract_show) auto
    moreover have "nv_show (NumericValue q) = show_u64 q" using ne by (simp add: nv_show_def)
    moreover have "(q * 100) div 100000 = nv_value v"
    proof (rule word_unat_eq_iff [THEN iffD2])
      show "unat ((q * 100) div 100000) = unat (nv_value v)"
        using q v by (simp add: unat_div unat_word_ariths)
    qed
    moreover have "cpu_period \<noteq> 0" by (simp add: cpu_period_def)
    ultimately show ?thesis
      using False nm p by (simp add: parse_cpu_max_def cpu_max_text_def q_def [symmetric] per)
  qed
qed

interpretation cpu_max: line_format cpu_max_text parse_cpu_max cpu_percentage
proof
  fix v
  show "cpu_percentage v \<Longrightarrow> parse_cpu_max (cpu_max_text v) = Inr v" by (rule parse_cpu_max_text)
  have "NEWLINE \<noteq> CHR '' ''" by (simp add: NEWLINE_def)
  moreover have "NEWLINE \<notin> set (show_nat n)" for n using show_nat_digits isdigit_not_special(10) by blast
  moreover have "NEWLINE \<notin> set (nv_show w)" for w using set_nv_show isalnum_not_special(10) by blast
  ultimately show "NEWLINE \<notin> set (cpu_max_text v)"
    by (simp add: cpu_max_text_def show_u64_def show_int_def cpu_period_def)
qed

section \<open>The io.max format\<close>

lemma keyName_tag: "\<not> isInvalid v \<Longrightarrow> tag_ok (keyName k, v)"
  by (cases k) (simp_all add: tag_ok_def isalnum_def isdigit_def code_def)

lemma parse_io_max_text:
  assumes dev: "0 \<le> major" "major < 2 ^ 31" "0 \<le> minor" "minor < 2 ^ 31" and v: "\<not> isInvalid v"
  shows "parseLineNv_device (io_max_text major minor k v) major' minor'
    = Inr (if major' = major \<and> minor' = minor then [(keyName k, v)] else [])"
proof -
  have nd: "\<not> isdigit (CHR '' '')" by (simp add: isdigit_def code_def)
  have t: "io_max_text major minor k v
      = show_int major @ CHR '':'' # show_int minor @ CHR '' '' # render_tags (CHR ''='') [(keyName k, v)]"
    by (simp add: io_max_text_def render_tags_def render_tag_def)
  have "parseLineNv (render_tags (CHR ''='') [(keyName k, v)]) = Inr [(keyName k, v)]"
    using parseLine_loop_render [of "[(keyName k, v)]" "CHR ''=''" "[]"] keyName_tag [OF v]
    by (simp add: parseLineNv_def)
  then show ?thesis
    using parseMajorMinor_render [OF dev, of "CHR '' '' # render_tags (CHR ''='') [(keyName k, v)]" major' minor'] nd
    by (simp add: parseLineNv_device_def t NUL_def)
qed

end
