(* ===== verification/Float32.thy ===== *)
theory Float32
  imports Prelude "HOL-Library.Log_Nat"
begin

text \<open>
  The C++ type \<open>float\<close>: IEEE 754 binary32 with rounding to nearest, ties to even, as the
  x86-64 and AArch64 builds compute it (one rounding per operation, no excess precision, no
  contraction). Every finite binary32 value is a multiple of \<open>2 ^ -149\<close>, so a finite float is
  that integer multiple: \<open>Fin k\<close> is \<open>k * 2 ^ -149\<close>. The two zeros are one value: no operation
  of the modelled code can tell them apart (nothing divides by a zero). All operations are
  integer computations, so closed terms evaluate.

  What is shown: rounding is monotone (\<open>round_mag_mono\<close>), leaves every value of at most 24
  significant bits unchanged (\<open>round_mag_exact\<close>), and so addition and multiplication are
  monotone and exact on small integers, which is what the threshold and quota proofs need.
\<close>

datatype flt = NaN | PInf | NInf | Fin int

section \<open>Rounding\<close>

text \<open>\<open>rhe a b\<close>: the integer nearest to \<open>a / b\<close>, the even one on a tie.\<close>

definition rhe :: "int \<Rightarrow> int \<Rightarrow> int" where
  "rhe a b =
     (let q = a div b; r = a mod b
      in if 2 * r < b then q else if b < 2 * r then q + 1 else if even q then q else q + 1)"

text \<open>
  Round the non-negative rational \<open>n / d\<close> (in units of \<open>2 ^ -149\<close>) to \<open>p\<close> significant bits;
  below \<open>2 ^ p\<close> units the quantum is one unit, which is gradual underflow.
\<close>

definition round_mag :: "nat \<Rightarrow> int \<Rightarrow> int \<Rightarrow> int" where
  "round_mag p n d =
     (let s = nat (bitlen (n div d) - int p) in rhe n (d * 2 ^ s) * 2 ^ s)"

definition round_to :: "nat \<Rightarrow> int \<Rightarrow> int \<Rightarrow> flt" where
  "round_to p n d =
     (let m = round_mag p \<bar>n\<bar> d
      in if 2 ^ 277 \<le> m then (if n < 0 then NInf else PInf) else Fin (sgn n * m))"

text \<open>The value \<open>n / d\<close> of a literal, or of an exact result, as a \<open>float\<close>.\<close>

definition f32 :: "int \<Rightarrow> int \<Rightarrow> flt" where
  "f32 n d = round_to 24 (n * 2 ^ 149) d"

text \<open>
  A \<open>double\<close> literal that initialises a \<open>float\<close> is rounded twice, to 53 and to 24 bits
  (the unit is fine enough for every such literal of the sources).
\<close>

definition f32_of_double :: "int \<Rightarrow> int \<Rightarrow> flt" where
  "f32_of_double n d =
     (case round_to 53 (n * 2 ^ 149) d of Fin k \<Rightarrow> round_to 24 k 1 | x \<Rightarrow> x)"

section \<open>Arithmetic and comparisons\<close>

fun fadd :: "flt \<Rightarrow> flt \<Rightarrow> flt" where
  "fadd NaN _ = NaN"
| "fadd _ NaN = NaN"
| "fadd PInf NInf = NaN"
| "fadd NInf PInf = NaN"
| "fadd PInf _ = PInf"
| "fadd NInf _ = NInf"
| "fadd _ PInf = PInf"
| "fadd _ NInf = NInf"
| "fadd (Fin a) (Fin b) = round_to 24 (a + b) 1"

fun fneg :: "flt \<Rightarrow> flt" where
  "fneg NaN = NaN"
| "fneg PInf = NInf"
| "fneg NInf = PInf"
| "fneg (Fin a) = Fin (- a)"

definition fsub :: "flt \<Rightarrow> flt \<Rightarrow> flt" where
  "fsub a b = fadd a (fneg b)"

definition inf_of :: "int \<Rightarrow> flt" where
  "inf_of s = (if s = 0 then NaN else if 0 < s then PInf else NInf)"

fun fmul :: "flt \<Rightarrow> flt \<Rightarrow> flt" where
  "fmul NaN _ = NaN"
| "fmul _ NaN = NaN"
| "fmul PInf PInf = PInf"
| "fmul PInf NInf = NInf"
| "fmul NInf PInf = NInf"
| "fmul NInf NInf = PInf"
| "fmul PInf (Fin b) = inf_of b"
| "fmul NInf (Fin b) = inf_of (- b)"
| "fmul (Fin a) PInf = inf_of a"
| "fmul (Fin a) NInf = inf_of (- a)"
| "fmul (Fin a) (Fin b) = round_to 24 (a * b) (2 ^ 149)"

fun fdiv :: "flt \<Rightarrow> flt \<Rightarrow> flt" where
  "fdiv NaN _ = NaN"
| "fdiv _ NaN = NaN"
| "fdiv (Fin a) (Fin b) =
     (if b = 0 then inf_of a else round_to 24 (sgn b * a * 2 ^ 149) \<bar>b\<bar>)"
| "fdiv (Fin a) _ = Fin 0"
| "fdiv PInf (Fin b) = (if 0 \<le> b then PInf else NInf)"
| "fdiv NInf (Fin b) = (if 0 \<le> b then NInf else PInf)"
| "fdiv _ _ = NaN"

text \<open>The comparisons are false on NaN, as IEEE 754 has them.\<close>

fun fle :: "flt \<Rightarrow> flt \<Rightarrow> bool" where
  "fle NaN _ = False"
| "fle _ NaN = False"
| "fle NInf _ = True"
| "fle _ PInf = True"
| "fle (Fin a) (Fin b) = (a \<le> b)"
| "fle _ _ = False"

fun fless :: "flt \<Rightarrow> flt \<Rightarrow> bool" where
  "fless NaN _ = False"
| "fless _ NaN = False"
| "fless (Fin a) (Fin b) = (a < b)"
| "fless NInf NInf = False"
| "fless NInf _ = True"
| "fless PInf _ = False"
| "fless _ PInf = True"
| "fless _ _ = False"

definition fge :: "flt \<Rightarrow> flt \<Rightarrow> bool" where
  "fge a b = fle b a"

definition fgt :: "flt \<Rightarrow> flt \<Rightarrow> bool" where
  "fgt a b = fless b a"

fun is_finite :: "flt \<Rightarrow> bool" where
  "is_finite (Fin _) = True"
| "is_finite _ = False"

text \<open>\<open>std::max(a, b)\<close> is \<open>(a < b) ? b : a\<close> and \<open>std::min(a, b)\<close> is \<open>(b < a) ? b : a\<close>.\<close>

definition fmax :: "flt \<Rightarrow> flt \<Rightarrow> flt" where
  "fmax a b = (if fless a b then b else a)"

definition fmin :: "flt \<Rightarrow> flt \<Rightarrow> flt" where
  "fmin a b = (if fless b a then b else a)"

text \<open>
  Conversions. Integer to \<open>float\<close> rounds; \<open>float\<close> to \<open>int\<close> truncates towards zero and is
  undefined when the truncated value does not fit.
\<close>

definition float_of_int :: "int \<Rightarrow> flt" where
  "float_of_int n = f32 n 1"

definition float_of_u64 :: "64 word \<Rightarrow> flt" where
  "float_of_u64 w = float_of_int (uint w)"

fun int_of_float :: "flt \<Rightarrow> int result" where
  "int_of_float (Fin k) =
     (let v = sgn k * (\<bar>k\<bar> div 2 ^ 149)
      in if is_int32 v then Inr v else Inl (Undefined ''float to int out of range''))"
| "int_of_float _ = Inl (Undefined ''float to int out of range'')"

section \<open>Rounding is monotone and exact on what fits\<close>

text \<open>Euclidean division, with quotient and remainder as free variables for the arithmetic.\<close>

lemma div_parts:
  fixes a b :: int
  assumes "0 < b"
  obtains q r where "a = b * q + r" and "0 \<le> r" and "r < b" and "a div b = q" and "a mod b = r"
proof
  show "a = b * (a div b) + a mod b" by simp
qed (use assms in simp_all)

lemma rhe_bounds:
  assumes "0 < b"
  shows "2 * a - b \<le> 2 * b * rhe a b" and "2 * b * rhe a b \<le> 2 * a + b"
proof -
  obtain q r where "a = b * q + r" and "0 \<le> r" and "r < b" and "a div b = q" and "a mod b = r"
    using assms by (rule div_parts)
  then have "2 * a - b \<le> 2 * b * rhe a b \<and> 2 * b * rhe a b \<le> 2 * a + b"
    by (simp add: rhe_def Let_def algebra_simps)
  then show "2 * a - b \<le> 2 * b * rhe a b" and "2 * b * rhe a b \<le> 2 * a + b" by auto
qed

lemma rhe_tie:
  assumes "0 < b" and "2 * b * rhe a b = 2 * a + b \<or> 2 * b * rhe a b = 2 * a - b"
  shows "even (rhe a b)"
proof -
  obtain q r where "a = b * q + r" and "0 \<le> r" and "r < b" and "a div b = q" and "a mod b = r"
    using assms(1) by (rule div_parts)
  with assms(2) show ?thesis
    by (auto simp: rhe_def Let_def algebra_simps split: if_splits)
qed

lemma rhe_mono:
  assumes b: "0 < b" "0 < b'" and le: "a * b' \<le> a' * b"
  shows "rhe a b \<le> rhe a' b'"
proof (rule ccontr)
  assume "\<not> ?thesis"
  then have lt: "rhe a' b' + 1 \<le> rhe a b" by simp
  have pos: "0 < b * b'" using b by simp
  have up: "2 * (b * b') * rhe a b \<le> 2 * (a * b') + b * b'"
    using mult_right_mono [OF rhe_bounds(2) [OF b(1), of a], of b'] b by (simp add: algebra_simps)
  have dn: "2 * (a' * b) - b * b' \<le> 2 * (b * b') * rhe a' b'"
    using mult_right_mono [OF rhe_bounds(1) [OF b(2), of a'], of b] b by (simp add: algebra_simps)
  have "2 * (b * b') * (rhe a b - rhe a' b' - 1) \<le> 0"
    using up dn le by (simp add: algebra_simps)
  with pos lt have eq: "rhe a b = rhe a' b' + 1"
    by (smt (verit, best) mult_pos_pos)
  with up dn le have "2 * (b * b') * rhe a b = 2 * (a * b') + b * b'"
    and "2 * (b * b') * rhe a' b' = 2 * (a' * b) - b * b'"
    by (simp_all add: algebra_simps)
  then have "b' * (2 * b * rhe a b) = b' * (2 * a + b)"
    and "b * (2 * b' * rhe a' b') = b * (2 * a' - b')"
    by (simp_all add: algebra_simps)
  with b have "2 * b * rhe a b = 2 * a + b" and "2 * b' * rhe a' b' = 2 * a' - b'"
    by simp_all
  with b have "even (rhe a b)" and "even (rhe a' b')"
    by (auto intro: rhe_tie)
  with eq show False by simp
qed

lemma div_le_div_cross:
  fixes n n' d d' :: int
  assumes "0 < d" and "0 < d'" and "n * d' \<le> n' * d"
  shows "n div d \<le> n' div d'"
proof -
  obtain q r where n: "n = d * q + r" "0 \<le> r" "r < d" "n div d = q"
    using assms(1) by (rule div_parts) blast
  have "(d * q) * d' \<le> n * d'" using n assms by simp
  also have "\<dots> \<le> n' * d" by (rule assms)
  finally have "q * d' \<le> n'" using assms(1) by (simp add: algebra_simps)
  then have "q \<le> n' div d'" using assms(2) by (metis zdiv_mono1 nonzero_mult_div_cancel_right less_irrefl)
  with n show ?thesis by simp
qed

lemma rhe_exact [simp]: "0 < b \<Longrightarrow> rhe (c * b) b = c"
  by (simp add: rhe_def)

lemma rhe_nonneg: "0 < b \<Longrightarrow> 0 \<le> a \<Longrightarrow> 0 \<le> rhe a b"
  using rhe_mono [of 1 b 0 a] rhe_exact [of 1 0] by simp

lemma bitlen_mono: "x \<le> y \<Longrightarrow> bitlen x \<le> bitlen y"
proof (cases "0 < y")
  case True
  assume "x \<le> y"
  with bitlen_bounds [OF True] have "x < 2 ^ nat (bitlen y)" by simp
  then show ?thesis by (simp add: bitlen_le_iff_power bitlen_nonneg)
next
  case False
  assume "x \<le> y"
  with False show ?thesis by (simp add: bitlen_alt_def)
qed

lemma round_mag_nonneg: "0 \<le> n \<Longrightarrow> 0 < d \<Longrightarrow> 0 \<le> round_mag p n d"
  by (simp add: round_mag_def Let_def rhe_nonneg)

lemma round_mag_0 [simp]: "0 < d \<Longrightarrow> round_mag p 0 d = 0"
  by (simp add: round_mag_def Let_def rhe_def)

text \<open>What the shift \<open>s\<close> of \<open>round_mag\<close> says about the quotient.\<close>

lemma below_pow_shift:
  assumes "0 < d" and "0 \<le> n" and "s = nat (bitlen (n div d) - int p)"
  shows "n < 2 ^ (p + s) * d"
proof -
  have "bitlen (n div d) \<le> int (p + s)" using assms by simp
  then have "n div d < 2 ^ (p + s)"
    by (simp only: bitlen_le_iff_power) (simp add: nat_add_distrib)
  then have "n div d + 1 \<le> 2 ^ (p + s)" by simp
  then have "(n div d + 1) * d \<le> 2 ^ (p + s) * d"
    using assms by (simp add: mult_right_mono)
  moreover have "n < (n div d + 1) * d"
    using assms(1) by (rule div_parts [of d n]) (simp add: algebra_simps)
  ultimately show ?thesis by simp
qed

lemma above_pow_shift:
  assumes "0 < d" and "0 \<le> n" and "s = nat (bitlen (n div d) - int p)" and "0 < s" and "0 < p"
  shows "2 ^ (p - 1 + s) * d \<le> n"
proof -
  have L: "bitlen (n div d) = int (p + s)" using assms by simp
  with assms have "0 < n div d" by (metis bitlen_eq_zero_iff not_le of_nat_0_less_iff add_pos_pos less_irrefl)
  then have "2 ^ nat (bitlen (n div d) - 1) \<le> n div d" by (simp add: bitlen_bounds)
  with L assms(5) have "2 ^ (p - 1 + s) \<le> n div d"
    by (simp add: nat_diff_distrib nat_add_distrib)
  then have "2 ^ (p - 1 + s) * d \<le> (n div d) * d" using assms by simp
  also have "\<dots> \<le> n"
    using assms(1) by (rule div_parts [of d n]) (simp add: algebra_simps)
  finally show ?thesis .
qed

lemma round_mag_mono:
  assumes d: "0 < d" "0 < d'" and n: "0 \<le> n" "0 \<le> n'" and le: "n * d' \<le> n' * d" and p: "0 < p"
  shows "round_mag p n d \<le> round_mag p n' d'"
proof -
  define s where "s = nat (bitlen (n div d) - int p)"
  define s' where "s' = nat (bitlen (n' div d') - int p)"
  have R: "round_mag p n d = rhe n (d * 2 ^ s) * 2 ^ s"
    "round_mag p n' d' = rhe n' (d' * 2 ^ s') * 2 ^ s'"
    by (simp_all add: round_mag_def Let_def s_def s'_def)
  have "n div d \<le> n' div d'"
    using d le by (rule div_le_div_cross)
  then have ss: "s \<le> s'"
    unfolding s_def s'_def by (intro nat_mono diff_right_mono bitlen_mono)
  show ?thesis
  proof (cases "s = s'")
    case True
    have "rhe n (d * 2 ^ s) \<le> rhe n' (d' * 2 ^ s)"
      using d le by (intro rhe_mono) (simp_all add: algebra_simps)
    with R True show ?thesis by simp
  next
    case False
    with ss have lt: "s < s'" by simp
    have "n * 1 \<le> 2 ^ p * (d * 2 ^ s)"
      using below_pow_shift [OF d(1) n(1) s_def] by (simp add: power_add algebra_simps)
    then have "rhe n (d * 2 ^ s) \<le> rhe (2 ^ p) 1"
      using d by (intro rhe_mono) simp_all
    then have "round_mag p n d \<le> 2 ^ p * 2 ^ s"
      using R(1) rhe_exact [of 1 "2 ^ p"] by simp
    also have "\<dots> \<le> 2 ^ (p - 1) * 2 ^ s'"
    proof -
      have "p + s \<le> p - 1 + s'" using lt p by simp
      then show ?thesis by (simp only: power_add [symmetric]) (simp add: power_increasing)
    qed
    also have "\<dots> \<le> rhe n' (d' * 2 ^ s') * 2 ^ s'"
    proof -
      have "2 ^ (p - 1) * (d' * 2 ^ s') \<le> n' * 1"
        using above_pow_shift [OF d(2) n(2) s'_def _ p] lt by (simp add: power_add algebra_simps)
      then have "rhe (2 ^ (p - 1)) 1 \<le> rhe n' (d' * 2 ^ s')"
        using d by (intro rhe_mono) simp_all
      then show ?thesis using rhe_exact [of 1 "2 ^ (p - 1)"] by simp
    qed
    finally show ?thesis using R(2) by simp
  qed
qed

lemma round_mag_exact:
  assumes "0 < d" and "0 \<le> m" and "m < 2 ^ p"
  shows "round_mag p (m * 2 ^ t * d) d = m * 2 ^ t"
proof -
  define s where "s = nat (bitlen (m * 2 ^ t) - int p)"
  have "m * 2 ^ t < 2 ^ (p + t)" using assms by (simp add: power_add)
  then have "bitlen (m * 2 ^ t) \<le> int (p + t)"
    by (simp only: bitlen_le_iff_power) (simp add: nat_add_distrib)
  then have "s \<le> t" by (simp add: s_def)
  then have T: "(2 :: int) ^ t = 2 ^ (t - s) * 2 ^ s"
    by (simp flip: power_add)
  have E: "m * 2 ^ t * d = (m * 2 ^ (t - s)) * (d * 2 ^ s)" by (simp add: T)
  have "round_mag p (m * 2 ^ t * d) d = rhe (m * 2 ^ t * d) (d * 2 ^ s) * 2 ^ s"
    using assms by (simp add: round_mag_def Let_def s_def)
  also have "\<dots> = m * 2 ^ (t - s) * 2 ^ s"
    using assms(1) by (simp only: E) (simp add: rhe_exact)
  finally show ?thesis by (simp add: T)
qed

section \<open>Facts about the operations\<close>

lemma fle_refl [simp]: "x \<noteq> NaN \<Longrightarrow> fle x x"
  by (cases x) auto

lemma fle_trans: "fle x y \<Longrightarrow> fle y z \<Longrightarrow> fle x z"
  by (cases x; cases y; cases z) auto

lemma fless_iff_not_fle: "x \<noteq> NaN \<Longrightarrow> y \<noteq> NaN \<Longrightarrow> fless x y \<longleftrightarrow> \<not> fle y x"
  by (cases x; cases y) auto

lemma fle_NaN [simp]: "\<not> fle NaN x" "\<not> fle x NaN"
  by (cases x; simp)+

lemma fless_NaN [simp]: "\<not> fless NaN x" "\<not> fless x NaN"
  by (cases x; simp)+

lemma round_to_not_NaN [simp]: "round_to p n d \<noteq> NaN"
  by (simp add: round_to_def Let_def)

lemma round_to_cases:
  obtains "round_to p n d = PInf" "0 \<le> n" "2 ^ 277 \<le> round_mag p \<bar>n\<bar> d"
  | "round_to p n d = NInf" "n < 0" "2 ^ 277 \<le> round_mag p \<bar>n\<bar> d"
  | "round_to p n d = Fin (sgn n * round_mag p \<bar>n\<bar> d)" "round_mag p \<bar>n\<bar> d < 2 ^ 277"
  by (cases "2 ^ 277 \<le> round_mag p \<bar>n\<bar> d"; cases "n < 0") (auto simp: round_to_def Let_def)

lemma round_to_nonneg: "0 \<le> n \<Longrightarrow> 0 < d \<Longrightarrow> fle (Fin 0) (round_to p n d)"
  by (rule round_to_cases [of p n d]) (auto intro: mult_nonneg_nonneg round_mag_nonneg simp: sgn_if)

lemma round_to_nonpos: "n \<le> 0 \<Longrightarrow> 0 < d \<Longrightarrow> fle (round_to p n d) (Fin 0)"
  using round_mag_nonneg [of "\<bar>n\<bar>" d p]
  by (rule_tac round_to_cases [of p n d]) (auto simp: sgn_if round_to_def Let_def)

lemma fle_round_to:
  assumes d: "0 < d" "0 < d'" and le: "n * d' \<le> n' * d" and p: "0 < p"
  shows "fle (round_to p n d) (round_to p n' d')"
proof (cases "0 \<le> n")
  case True
  then have n': "0 \<le> n'" using d le
    by (metis mult_nonneg_nonneg order.strict_implies_order order_trans zero_le_mult_iff not_less)
  have "round_mag p n d \<le> round_mag p n' d'"
    using d le p True n' by (intro round_mag_mono)
  with True n' d show ?thesis
    by (auto simp: round_to_def Let_def sgn_if intro: round_mag_nonneg)
next
  case neg: False
  show ?thesis
  proof (cases "0 \<le> n'")
    case True
    with neg d show ?thesis
      by (intro fle_trans [OF round_to_nonpos round_to_nonneg]) auto
  next
    case False
    have "round_mag p (- n') d' \<le> round_mag p (- n) d"
      using d le p neg False by (intro round_mag_mono) auto
    with neg False show ?thesis by (auto simp: round_to_def Let_def)
  qed
qed

lemma fle_inf [simp]: "fle NInf x \<longleftrightarrow> x \<noteq> NaN" "fle x PInf \<longleftrightarrow> x \<noteq> NaN"
  by (cases x; simp)+

lemma fadd_mono: "is_finite t \<Longrightarrow> fle a b \<Longrightarrow> fle (fadd t a) (fadd t b)"
  by (cases t; cases a; cases b) (auto intro!: fle_round_to)

text \<open>Values of at most 24 significant bits are floats.\<close>

lemma round_to_exact:
  assumes "0 < d" and "\<bar>m\<bar> < 2 ^ p" and "p + t \<le> 277"
  shows "round_to p (m * 2 ^ t * d) d = Fin (m * 2 ^ t)"
proof -
  have A: "\<bar>m * 2 ^ t * d\<bar> = \<bar>m\<bar> * 2 ^ t * d" using assms(1) by (simp add: abs_mult)
  have R: "round_mag p (\<bar>m\<bar> * 2 ^ t * d) d = \<bar>m\<bar> * 2 ^ t"
    using assms by (intro round_mag_exact) auto
  have "\<bar>m\<bar> * 2 ^ t < 2 ^ p * 2 ^ t" using assms(2) by simp
  also have "\<dots> \<le> 2 ^ 277"
    using assms(3) by (simp only: power_add [symmetric]) (rule power_increasing, simp_all)
  finally have "\<bar>m\<bar> * 2 ^ t < 2 ^ 277" .
  moreover have "sgn (m * 2 ^ t * d) * (\<bar>m\<bar> * 2 ^ t) = m * 2 ^ t"
    using assms(1) by (auto simp: sgn_if zero_less_mult_iff abs_if split: if_splits)
  ultimately show ?thesis
    by (simp add: round_to_def Let_def A R)
qed

lemma float_of_int_exact: "\<bar>n\<bar> < 2 ^ 24 \<Longrightarrow> float_of_int n = Fin (n * 2 ^ 149)"
  using round_to_exact [of 1 n 24 149] by (simp add: float_of_int_def f32_def)

lemma f32_one [simp]: "f32 1 1 = Fin (2 ^ 149)"
  using float_of_int_exact [of 1] by (simp add: float_of_int_def)

end
