(* ===== verification/SecState.thy ===== *)
theory SecState
  imports Float32
begin

text \<open>
  \<open>rm/policymanager/policies/secstate.{h,cpp}\<close>: the containment state machine of one
  application. The states are an instance of \<open>linorder\<close> by severity. \<open>step\<close> is the source's
  function; \<open>tracker_run\<close> is the relation of the runs of a tracker under security alerts and
  operator clears, over which the safety properties are proved by rule induction.
\<close>

section \<open>The states, ordered by severity\<close>

datatype sec_state = OBSERVE | THROTTLE | RESTRICT | QUARANTINE

text \<open>\<open>static_cast<int>\<close> of a state, and back; the code only casts back values from 0 to 2.\<close>

fun sec_int :: "sec_state \<Rightarrow> int" where
  "sec_int OBSERVE = 0"
| "sec_int THROTTLE = 1"
| "sec_int RESTRICT = 2"
| "sec_int QUARANTINE = 3"

definition sec_of_int :: "int \<Rightarrow> sec_state" where
  "sec_of_int i = (if i \<le> 0 then OBSERVE else if i = 1 then THROTTLE else if i = 2 then RESTRICT else QUARANTINE)"

instantiation sec_state :: linorder
begin

definition less_eq_sec_state :: "sec_state \<Rightarrow> sec_state \<Rightarrow> bool" where
  "less_eq_sec_state a b \<longleftrightarrow> sec_int a \<le> sec_int b"

definition less_sec_state :: "sec_state \<Rightarrow> sec_state \<Rightarrow> bool" where
  "less_sec_state a b \<longleftrightarrow> sec_int a < sec_int b"

instance
proof
  fix a b :: sec_state
  show "a \<le> b \<Longrightarrow> b \<le> a \<Longrightarrow> a = b"
    by (cases a; cases b) (simp_all add: less_eq_sec_state_def)
qed (auto simp: less_eq_sec_state_def less_sec_state_def)

end

lemmas sec_order = less_eq_sec_state_def less_sec_state_def

lemma sec_of_int_inverse [simp]: "sec_of_int (sec_int s) = s"
  by (cases s) (simp_all add: sec_of_int_def)

lemma QUARANTINE_top [simp]: "s \<le> QUARANTINE"
  by (cases s) (simp_all add: sec_order)

lemma OBSERVE_bot [simp]: "OBSERVE \<le> s"
  by (cases s) (simp_all add: sec_order)

section \<open>The tracker\<close>

record thresholds =
  t1 :: flt
  t2 :: flt
  t3 :: flt
  margin :: flt
  dwellN :: int

definition default_thresholds :: thresholds where
  "default_thresholds = \<lparr> t1 = f32 4 10, t2 = f32 6 10, t3 = f32 8 10, margin = f32 1 10, dwellN = 3 \<rparr>"

record state_tracker =
  st_state :: sec_state
  belowCount :: int

definition new_tracker :: state_tracker where
  "new_tracker = \<lparr> st_state = OBSERVE, belowCount = 0 \<rparr>"

definition target :: "flt \<Rightarrow> thresholds \<Rightarrow> flt \<Rightarrow> sec_state" where
  "target sai th off =
     (if fge sai (fadd (t3 th) off) then QUARANTINE
      else if fge sai (fadd (t2 th) off) then RESTRICT
      else if fge sai (fadd (t1 th) off) then THROTTLE
      else OBSERVE)"

text \<open>\<open>StateTracker::step\<close>; the state it returns is the \<open>st_state\<close> it leaves.\<close>

definition step :: "flt \<Rightarrow> thresholds \<Rightarrow> flt \<Rightarrow> state_tracker \<Rightarrow> state_tracker" where
  "step sai th tolOffset tr =
     (if st_state tr = QUARANTINE then tr
      else (let tgt = target sai th tolOffset in
        if tgt > st_state tr then tr\<lparr>st_state := tgt, belowCount := 0\<rparr>
        else if tgt < st_state tr then
          (if belowCount tr + 1 \<ge> dwellN th
           then tr\<lparr>st_state := sec_of_int (sec_int (st_state tr) - 1), belowCount := 0\<rparr>
           else tr\<lparr>belowCount := belowCount tr + 1\<rparr>)
        else tr\<lparr>belowCount := 0\<rparr>))"

definition clear :: "state_tracker \<Rightarrow> state_tracker" where
  "clear tr = tr\<lparr>st_state := OBSERVE, belowCount := 0\<rparr>"

section \<open>Thresholds\<close>

lemma target_mono_sai: "fle sai sai' \<Longrightarrow> target sai th off \<le> target sai' th off"
  by (auto simp: target_def fge_def sec_order dest: fle_trans)

lemma target_antimono_off:
  assumes "is_finite (t1 th)" "is_finite (t2 th)" "is_finite (t3 th)" and "fle off off'"
  shows "target sai th off' \<le> target sai th off"
  using fadd_mono [OF assms(1,4)] fadd_mono [OF assms(2,4)] fadd_mono [OF assms(3,4)]
  by (auto simp: target_def fge_def sec_order dest: fle_trans)

section \<open>One step\<close>

lemma step_quarantine: "st_state tr = QUARANTINE \<Longrightarrow> step sai th off tr = tr"
  by (simp add: step_def)

lemma step_at_least_target: "target sai th off \<le> st_state (step sai th off tr)"
  by (cases "st_state tr"; cases "target sai th off")
    (simp_all add: step_def sec_order sec_of_int_def)

lemma step_escalates:
  "st_state tr \<le> target sai th off \<Longrightarrow> st_state (step sai th off tr) = target sai th off"
  by (cases "st_state tr"; cases "target sai th off") (simp_all add: step_def sec_order)

lemma step_one_level: "sec_int (st_state tr) - 1 \<le> sec_int (st_state (step sai th off tr))"
  by (cases "st_state tr"; cases "target sai th off")
    (simp_all add: step_def sec_order sec_of_int_def)

lemma step_below:
  assumes "target sai th off < st_state tr" and "st_state tr \<noteq> QUARANTINE"
  shows "step sai th off tr =
    (if belowCount tr + 1 < dwellN th then tr\<lparr>belowCount := belowCount tr + 1\<rparr>
     else \<lparr>st_state = sec_of_int (sec_int (st_state tr) - 1), belowCount = 0, \<dots> = state_tracker.more tr\<rparr>)"
  using assms by (auto simp: step_def Let_def sec_order)

text \<open>The count of low steps never reaches the dwell.\<close>

definition tracker_inv :: "thresholds \<Rightarrow> state_tracker \<Rightarrow> bool" where
  "tracker_inv th tr \<longleftrightarrow> 0 \<le> belowCount tr \<and> belowCount tr < max 1 (dwellN th)"

lemma tracker_inv_new: "tracker_inv th new_tracker"
  by (simp add: tracker_inv_def new_tracker_def)

lemma tracker_inv_step: "tracker_inv th tr \<Longrightarrow> tracker_inv th (step sai th off tr)"
  by (auto simp: tracker_inv_def step_def Let_def)

lemma tracker_inv_clear: "tracker_inv th (clear tr)"
  by (simp add: tracker_inv_def clear_def)

section \<open>Runs\<close>

text \<open>What happens to a tracker: an alert with its SAI and tolerance, or the operator's clear.\<close>

datatype tracker_event = Alert flt flt | Clear

inductive tracker_run :: "thresholds \<Rightarrow> state_tracker \<Rightarrow> tracker_event list \<Rightarrow> state_tracker \<Rightarrow> bool"
  for th :: thresholds where
  run_Nil: "tracker_run th tr [] tr"
| run_Alert: "tracker_run th tr es tr' \<Longrightarrow> tracker_run th tr (es @ [Alert sai off]) (step sai th off tr')"
| run_Clear: "tracker_run th tr es tr' \<Longrightarrow> tracker_run th tr (es @ [Clear]) (clear tr')"

lemma run_inv: "tracker_run th tr es tr' \<Longrightarrow> tracker_inv th tr \<Longrightarrow> tracker_inv th tr'"
  by (induction rule: tracker_run.induct) (auto intro: tracker_inv_step tracker_inv_clear)

lemma run_sticky:
  "tracker_run th tr es tr' \<Longrightarrow> st_state tr = QUARANTINE \<Longrightarrow> Clear \<notin> set es \<Longrightarrow> tr' = tr"
  by (induction rule: tracker_run.induct) (auto simp: step_quarantine)

text \<open>Without a clear, each step down costs \<open>dwellN\<close> alerts: the level cannot fall faster.\<close>

lemma run_recovery_rate:
  assumes "tracker_run th tr es tr'" and "Clear \<notin> set es" and "1 \<le> dwellN th"
    and "belowCount tr = 0"
  shows "dwellN th * (sec_int (st_state tr) - sec_int (st_state tr')) + belowCount tr' \<le> int (length es)
    \<and> 0 \<le> belowCount tr'"
  using assms
proof (induction rule: tracker_run.induct)
  case (run_Alert tr es tr' sai off)
  then have IH: "dwellN th * (sec_int (st_state tr) - sec_int (st_state tr')) + belowCount tr' \<le> int (length es)"
    "0 \<le> belowCount tr'" and d: "1 \<le> dwellN th" by auto
  let ?s = "sec_int (st_state tr)" and ?u = "sec_int (st_state tr')"
  let ?tr = "step sai th off tr'"
  consider "?tr = tr'"
    | "belowCount ?tr = 0" "?u \<le> sec_int (st_state ?tr)"
    | "belowCount ?tr = belowCount tr' + 1" "st_state ?tr = st_state tr'"
    | "belowCount ?tr = 0" "sec_int (st_state ?tr) = ?u - 1" "dwellN th \<le> belowCount tr' + 1"
    by (cases "st_state tr'"; cases "target sai th off"; cases "dwellN th \<le> belowCount tr' + 1")
      (auto simp: step_def sec_order sec_of_int_def)
  then show ?case
  proof cases
    case 2
    then have "dwellN th * (?s - sec_int (st_state ?tr)) \<le> dwellN th * (?s - ?u)" using d by simp
    with 2 IH show ?thesis by simp
  next
    case 4
    then have "?s - sec_int (st_state ?tr) = (?s - ?u) + 1" by simp
    then have "dwellN th * (?s - sec_int (st_state ?tr)) = dwellN th * (?s - ?u) + dwellN th"
      by (simp only: distrib_left mult_1_right)
    with 4 IH show ?thesis by simp
  qed (use IH in simp_all)
qed auto

text \<open>Low alerts alone bring a contained application back, one level per \<open>dwellN\<close> of them.\<close>

definition alerts :: "thresholds \<Rightarrow> (flt \<times> flt) list \<Rightarrow> state_tracker \<Rightarrow> state_tracker" where
  "alerts th xs tr = foldl (\<lambda>tr (sai, off). step sai th off tr) tr xs"

lemma alerts_run: "tracker_run th tr (map (\<lambda>(sai, off). Alert sai off) xs) (alerts th xs tr)"
  by (induction xs rule: rev_induct)
    (auto simp: alerts_def split_beta intro: run_Nil run_Alert)

lemma alerts_append: "alerts th (xs @ ys) tr = alerts th ys (alerts th xs tr)"
  by (simp add: alerts_def)

lemma alerts_below:
  assumes "\<forall>(sai, off)\<in>set xs. target sai th off < st_state tr" and "st_state tr \<noteq> QUARANTINE"
    and "0 \<le> belowCount tr" and "belowCount tr + int (length xs) < dwellN th"
  shows "alerts th xs tr = tr\<lparr>belowCount := belowCount tr + int (length xs)\<rparr>"
  using assms
proof (induction xs rule: rev_induct)
  case (snoc x xs)
  then have "alerts th xs tr = tr\<lparr>belowCount := belowCount tr + int (length xs)\<rparr>" by auto
  with snoc.prems show ?case by (cases x) (auto simp: alerts_def step_below)
qed (simp add: alerts_def)

lemma alerts_step_down:
  assumes low: "\<forall>(sai, off)\<in>set xs. target sai th off < st_state tr" and "st_state tr \<noteq> QUARANTINE"
    and "belowCount tr = 0" and d: "1 \<le> dwellN th" and n: "int (length xs) = dwellN th"
  shows "alerts th xs tr = tr\<lparr>st_state := sec_of_int (sec_int (st_state tr) - 1), belowCount := 0\<rparr>"
proof -
  obtain ys x where xs: "xs = ys @ [x]" using d n by (cases xs rule: rev_cases) auto
  then have "alerts th ys tr = tr\<lparr>belowCount := int (length ys)\<rparr>"
    using assms alerts_below [of ys th tr] by auto
  with assms xs show ?thesis by (cases x) (auto simp: alerts_append step_below alerts_def)
qed

text \<open>All the way back to \<open>OBSERVE\<close>.\<close>

lemma alerts_recover:
  assumes "\<forall>(sai, off)\<in>set xs. target sai th off = OBSERVE" and "st_state tr \<noteq> QUARANTINE"
    and "belowCount tr = 0" and "1 \<le> dwellN th" and "int (length xs) = dwellN th * sec_int (st_state tr)"
  shows "alerts th xs tr = tr\<lparr>st_state := OBSERVE, belowCount := 0\<rparr>"
  using assms
proof (induction "nat (sec_int (st_state tr))" arbitrary: xs tr)
  case 0
  then have "st_state tr = OBSERVE" by (cases "st_state tr") auto
  with 0 show ?case by (auto simp: alerts_def)
next
  case (Suc n)
  let ?ys = "take (nat (dwellN th)) xs" and ?zs = "drop (nat (dwellN th)) xs"
  let ?tr = "tr\<lparr>st_state := sec_of_int (sec_int (st_state tr) - 1), belowCount := 0\<rparr>"
  have s: "1 \<le> sec_int (st_state tr)" using Suc.hyps(2) by linarith
  then have "dwellN th \<le> int (length xs)" using Suc.prems(4,5) by simp
  then have len: "int (length ?ys) = dwellN th" using Suc.prems(4) by auto
  have d: "sec_int (st_state ?tr) = sec_int (st_state tr) - 1" "st_state ?tr \<noteq> QUARANTINE"
    using s Suc.prems(2) by (cases "st_state tr"; simp add: sec_of_int_def)+
  have low: "\<forall>(sai, off)\<in>set ?ys. target sai th off < st_state tr"
  proof (clarify)
    fix sai off assume "(sai, off) \<in> set ?ys"
    then have "target sai th off = OBSERVE" using Suc.prems(1) in_set_takeD by fastforce
    then show "target sai th off < st_state tr" using s by (simp add: sec_order)
  qed
  have "alerts th xs tr = alerts th ?zs (alerts th ?ys tr)" using alerts_append [of th ?ys ?zs tr] by simp
  also have "alerts th ?ys tr = ?tr" by (rule alerts_step_down [OF low Suc.prems(2,3,4) len])
  also have "alerts th ?zs ?tr = ?tr\<lparr>st_state := OBSERVE, belowCount := 0\<rparr>"
  proof (rule Suc.hyps(1))
    show "n = nat (sec_int (st_state ?tr))" using Suc.hyps(2) d(1) by simp
    show "\<forall>(sai, off)\<in>set ?zs. target sai th off = OBSERVE" using Suc.prems(1) in_set_dropD by fastforce
    show "int (length ?zs) = dwellN th * sec_int (st_state ?tr)"
      using Suc.prems(4,5) len unfolding d(1) by (simp add: right_diff_distrib)
  qed (use Suc.prems d in simp_all)
  finally show ?case by simp
qed

text \<open>Above the target the state never goes, and never below it.\<close>

lemma step_at_most: "st_state (step sai th off tr) \<le> max (st_state tr) (target sai th off)"
  by (cases "st_state tr"; cases "target sai th off")
    (auto simp: step_def sec_order sec_of_int_def max_def)

end
