(* ===== verification/AppMapping.thy ===== *)
theory AppMapping
  imports Controllers SecState
begin

text \<open>
  \<open>rm/policymanager/appmapping.h\<close>: an application under a policy, with the resources it was
  given. The class caches the control files: a setter writes the file and keeps the value, a
  getter reads the file only while it has no value. Its methods are actions on the kernel
  state paired with the object. The locale \<open>cached_field\<close> is the contract of such a pair of
  methods; every cached field of the class interprets it.
\<close>

section \<open>The class\<close>

record app_mapping =
  am_app :: app
  puVec :: cpuset_vector
  cpuMax :: numeric_value
  memNodes :: cpuset_vector
  minMemory :: int
  maxMemory :: int
  lastFeedback :: int
  securityLevel :: security_level
  am_sai :: flt
  secState :: state_tracker
  quarantine :: bool
  baselinePids :: int

definition new_app_mapping :: "app \<Rightarrow> app_mapping" where
  "new_app_mapping app =
     \<lparr> am_app = app, puVec = [], cpuMax = nv_invalid, memNodes = [], minMemory = - 1, maxMemory = - 1,
       lastFeedback = - 1, securityLevel = getAppSecurityLevel app, am_sai = Fin 0,
       secState = new_tracker, quarantine = False, baselinePids = - 1 \<rparr>"

definition am_getPid :: "app_mapping \<Rightarrow> int" where
  "am_getPid am = getPid (am_app am)"

text \<open>A controller called with the application of the mapping; an update of the object.\<close>

definition ctl :: "(app \<Rightarrow> ('k, 'a) act) \<Rightarrow> ('k \<times> app_mapping, 'a) act" where
  [act_defs]: "ctl f s = on_fst (f (am_app (snd s))) s"

definition am_upd :: "(app_mapping \<Rightarrow> app_mapping) \<Rightarrow> ('k \<times> app_mapping, unit) act" where
  [act_defs]: "am_upd f = modify (\<lambda>(k, am). (k, f am))"

definition am_get :: "(app_mapping \<Rightarrow> 'a) \<Rightarrow> ('k \<times> app_mapping, 'a) act" where
  [act_defs]: "am_get f = gets (f \<circ> snd)"

definition getPuVector :: "('k, 'm) platform_scheme \<Rightarrow> ('k \<times> app_mapping, cpuset_vector) act" where
  "getPuVector pf =
     bnd (am_get puVec) (\<lambda>v.
     bnd (if v = [] then bnd (ctl (getCpusEffective pf)) (\<lambda>w. am_upd (puVec_update (\<lambda>_. w))) else ret ()) (\<lambda>_.
     am_get puVec))"

definition setPuVector :: "('k, 'm) platform_scheme \<Rightarrow> cpuset_vector \<Rightarrow> ('k \<times> app_mapping, unit) act" where
  "setPuVector pf v =
     bnd (ctl (setCpus pf v)) (\<lambda>_. am_upd (puVec_update (\<lambda>_. v)))"

definition am_countPUs :: "app_mapping \<Rightarrow> int" where
  "am_countPUs am = countPUs (puVec am)"

definition getCpuMax :: "('k, 'm) platform_scheme \<Rightarrow> ('k \<times> app_mapping, numeric_value) act" where
  "getCpuMax pf =
     bnd (am_get cpuMax) (\<lambda>v.
     bnd (if isInvalid v then bnd (ctl (cpu_getMax pf)) (\<lambda>w. am_upd (cpuMax_update (\<lambda>_. w))) else ret ()) (\<lambda>_.
     am_get cpuMax))"

definition setCpuMax :: "('k, 'm) platform_scheme \<Rightarrow> numeric_value \<Rightarrow> ('k \<times> app_mapping, unit) act" where
  "setCpuMax pf v =
     bnd (ctl (cpu_setMax pf v)) (\<lambda>_. am_upd (cpuMax_update (\<lambda>_. v)))"

definition getMemNodes :: "('k, 'm) platform_scheme \<Rightarrow> ('k \<times> app_mapping, cpuset_vector) act" where
  "getMemNodes pf =
     bnd (am_get memNodes) (\<lambda>v.
     bnd (if v = [] then bnd (ctl (getMemsEffective pf)) (\<lambda>w. am_upd (memNodes_update (\<lambda>_. w))) else ret ()) (\<lambda>_.
     am_get memNodes))"

definition setMemNodes :: "('k, 'm) platform_scheme \<Rightarrow> cpuset_vector \<Rightarrow> ('k \<times> app_mapping, unit) act" where
  "setMemNodes pf v =
     bnd (ctl (setMems pf v)) (\<lambda>_. am_upd (memNodes_update (\<lambda>_. v)))"

definition getCurrentMemory :: "('k, 'm) platform_scheme \<Rightarrow> ('k \<times> app_mapping, int) act" where
  "getCurrentMemory pf = ctl (mem_getCurrent pf)"

definition getMinMemory :: "('k, 'm) platform_scheme \<Rightarrow> ('k \<times> app_mapping, int) act" where
  "getMinMemory pf =
     bnd (am_get minMemory) (\<lambda>v.
     bnd (if v = - 1 then bnd (ctl (mem_getMin pf)) (\<lambda>w. am_upd (minMemory_update (\<lambda>_. w))) else ret ()) (\<lambda>_.
     am_get minMemory))"

definition setMinMemory :: "('k, 'm) platform_scheme \<Rightarrow> int \<Rightarrow> ('k \<times> app_mapping, unit) act" where
  "setMinMemory pf v =
     bnd (ctl (mem_setMin pf v)) (\<lambda>_. am_upd (minMemory_update (\<lambda>_. v)))"

text \<open>\<open>maxMemory_\<close> is an \<open>int\<close>: the value is narrowed when it is kept, and widened on return.\<close>

definition getMaxMemory :: "('k, 'm) platform_scheme \<Rightarrow> ('k \<times> app_mapping, numeric_value) act" where
  "getMaxMemory pf =
     bnd (am_get maxMemory) (\<lambda>v.
     bnd (if v = - 1
          then bnd (ctl (mem_getMax pf)) (\<lambda>w. am_upd (maxMemory_update (\<lambda>_. u64_to_int (nv_value w))))
          else ret ()) (\<lambda>_.
     am_get (\<lambda>am. NumericValue (to_u64 (maxMemory am)))))"

definition setMaxMemory :: "('k, 'm) platform_scheme \<Rightarrow> numeric_value \<Rightarrow> ('k \<times> app_mapping, unit) act" where
  "setMaxMemory pf v =
     bnd (ctl (mem_setMax pf v)) (\<lambda>_. am_upd (maxMemory_update (\<lambda>_. u64_to_int (nv_value v))))"

definition getCurrentPids :: "('k, 'm) platform_scheme \<Rightarrow> ('k \<times> app_mapping, int) act" where
  "getCurrentPids pf = bnd (ctl (pids_getCurrent pf)) (\<lambda>v. ret (u64_to_int (nv_value v)))"

definition getMaxPids :: "('k, 'm) platform_scheme \<Rightarrow> ('k \<times> app_mapping, numeric_value) act" where
  "getMaxPids pf = ctl (pids_getMax pf)"

definition setMaxPids :: "('k, 'm) platform_scheme \<Rightarrow> numeric_value \<Rightarrow> ('k \<times> app_mapping, unit) act" where
  "setMaxPids pf v = ctl (pids_setMax pf v)"

section \<open>Cached fields\<close>

locale cached_field =
  fixes setter :: "'v \<Rightarrow> ('s, unit) act"
    and getter :: "('s, 'v) act"
    and keeps_value :: "'v \<Rightarrow> bool"
  assumes get_set: "setter v s = (Inr (), t) \<Longrightarrow> keeps_value v \<Longrightarrow> getter t = (Inr v, t)"
begin

lemma set_then_get: "keeps_value v \<Longrightarrow> bnd (setter v) (\<lambda>_. getter) = bnd (setter v) (\<lambda>_. ret v)"
proof
  fix s
  assume v: "keeps_value v"
  show "bnd (setter v) (\<lambda>_. getter) s = bnd (setter v) (\<lambda>_. ret v) s"
  proof (cases "setter v s")
    case (Pair r t)
    then show ?thesis using get_set [OF _ v, of s t]
      by (cases r) (simp_all add: bnd_def ret_def)
  qed
qed

text \<open>The last of two sets is the one that counts.\<close>

lemma set_set_get:
  "keeps_value w \<Longrightarrow> bnd (setter v) (\<lambda>_. bnd (setter w) (\<lambda>_. getter)) = bnd (setter v) (\<lambda>_. bnd (setter w) (\<lambda>_. ret w))"
  by (simp only: set_then_get)

end

lemma ctl_def': "ctl f (k, am) = (case f (am_app am) k of (r, k') \<Rightarrow> (r, (k', am)))"
  by (simp add: ctl_def on_fst_def)

interpretation pu_field: cached_field "setPuVector pf" "getPuVector pf" "\<lambda>v. v \<noteq> []"
  by unfold_locales
    (auto simp: setPuVector_def getPuVector_def act_defs split: prod.splits sum.splits)

interpretation cpu_field: cached_field "setCpuMax pf" "getCpuMax pf" "\<lambda>v. \<not> isInvalid v"
  by unfold_locales
    (auto simp: setCpuMax_def getCpuMax_def act_defs split: prod.splits sum.splits)

interpretation mem_field: cached_field "setMemNodes pf" "getMemNodes pf" "\<lambda>v. v \<noteq> []"
  by unfold_locales
    (auto simp: setMemNodes_def getMemNodes_def act_defs split: prod.splits sum.splits)

interpretation min_field: cached_field "setMinMemory pf" "getMinMemory pf" "\<lambda>v. v \<noteq> - 1"
  by unfold_locales
    (auto simp: setMinMemory_def getMinMemory_def act_defs split: prod.splits sum.splits)

text \<open>The memory limit is cached in 32 bits: only limits that survive the narrowing are kept.\<close>

definition fits_int :: "numeric_value \<Rightarrow> bool" where
  "fits_int v \<longleftrightarrow> NumericValue (to_u64 (u64_to_int (nv_value v))) = v \<and> u64_to_int (nv_value v) \<noteq> - 1"

interpretation max_field: cached_field "setMaxMemory pf" "getMaxMemory pf" fits_int
  by unfold_locales
    (auto simp: setMaxMemory_def getMaxMemory_def fits_int_def act_defs split: prod.splits sum.splits)

text \<open>What the other limits turn into.\<close>

lemma max_field_get:
  "setMaxMemory pf v s = (Inr (), t) \<Longrightarrow> u64_to_int (nv_value v) \<noteq> - 1 \<Longrightarrow>
     getMaxMemory pf t = (Inr (NumericValue (to_u64 (u64_to_int (nv_value v)))), t)"
  by (auto simp: setMaxMemory_def getMaxMemory_def act_defs split: prod.splits sum.splits)

lemma narrowed_small: "uint w < 2 ^ 31 \<Longrightarrow> to_u64 (u64_to_int w) = w"
proof -
  assume "uint w < 2 ^ 31"
  moreover have "- (2 ^ 31) \<le> uint w" by (rule order_trans [OF _ uint_ge_0]) simp
  ultimately have "to_int32 (uint w) = uint w" by (intro to_int32_id) (simp add: is_int32_def)
  then show ?thesis by (simp add: u64_to_int_def to_u64_def)
qed

lemma mod_once: "- m \<le> x \<Longrightarrow> x < 0 \<Longrightarrow> x mod m = x + m" for x m :: int
  by (metis add_less_same_cancel2 diff_ge_0_iff_ge diff_minus_eq_add add.commute mod_add_self2 mod_pos_pos_trivial)

lemma narrowed_large:
  "2 ^ 31 \<le> uint w \<Longrightarrow> uint w < 2 ^ 32 \<Longrightarrow> uint (to_u64 (u64_to_int w)) = uint w + 2 ^ 64 - 2 ^ 32"
proof -
  assume w: "2 ^ 31 \<le> uint w" "uint w < 2 ^ 32"
  have "(uint w - 2 ^ 31 + 2 ^ 32) mod 2 ^ 32 = uint w - 2 ^ 31"
    unfolding mod_add_self2 using w by (intro mod_pos_pos_trivial) auto
  moreover have "uint w - 2 ^ 31 + 2 ^ 32 = uint w + (2 ^ 31 :: int)" by simp
  ultimately have "u64_to_int w = uint w - 2 ^ 32" by (simp only: u64_to_int_def to_int32_def)
  moreover have "(uint w - 2 ^ 32) mod 2 ^ 64 = uint w - 2 ^ 32 + 2 ^ 64" using w by (intro mod_once) auto
  ultimately show ?thesis unfolding to_u64_def uint_word_of_int by simp
qed

section \<open>What the methods leave alone\<close>

text \<open>No method changes which application the object is for.\<close>

definition am_frame :: "('k \<times> app_mapping, 'a) act \<Rightarrow> bool" where
  "am_frame m \<longleftrightarrow> (\<forall>k am. am_app (snd (snd (m (k, am)))) = am_app am)"

named_theorems frame_intros \<open>an action keeps the application of a mapping\<close>

lemma frame_ret [frame_intros]: "am_frame (ret x)"
  by (simp add: am_frame_def act_defs)

lemma frame_throw [frame_intros]: "am_frame (throw e)"
  by (simp add: am_frame_def act_defs)

lemma frame_lift [frame_intros]: "am_frame (lift_result r)"
  by (simp add: am_frame_def act_defs)

lemma frame_get [frame_intros]: "am_frame (am_get f)"
  by (simp add: am_frame_def act_defs)

lemma frame_ctl [frame_intros]: "am_frame (ctl f)"
  by (simp add: am_frame_def act_defs split: prod.splits)

lemma frame_on_fst [frame_intros]: "am_frame (on_fst m)"
  by (simp add: am_frame_def act_defs split: prod.splits)

lemma frame_upd [frame_intros]: "(\<And>am. am_app (f am) = am_app am) \<Longrightarrow> am_frame (am_upd f)"
  by (simp add: am_frame_def act_defs)

lemma frame_bnd [frame_intros]: "am_frame m \<Longrightarrow> (\<And>x. am_frame (f x)) \<Longrightarrow> am_frame (bnd m f)"
  unfolding am_frame_def bnd_def by (auto split: prod.splits sum.splits) (metis snd_conv)+

lemma frame_if [frame_intros]: "am_frame m \<Longrightarrow> am_frame n \<Longrightarrow> am_frame (if b then m else n)"
  by simp

lemma frame_try [frame_intros]: "am_frame m \<Longrightarrow> (\<And>e. am_frame (h e)) \<Longrightarrow> am_frame (try_catch c m h)"
  unfolding am_frame_def try_catch_def by (auto split: prod.splits sum.splits) (metis snd_conv)+

lemma frame_methods [frame_intros]:
  "am_frame (getPuVector pf)" "am_frame (setPuVector pf v)" "am_frame (getCpuMax pf)" "am_frame (setCpuMax pf c)"
  "am_frame (getMemNodes pf)" "am_frame (setMemNodes pf v)" "am_frame (getMinMemory pf)" "am_frame (setMinMemory pf n)"
  "am_frame (getMaxMemory pf)" "am_frame (setMaxMemory pf c)" "am_frame (getCurrentPids pf)" "am_frame (getMaxPids pf)"
  "am_frame (setMaxPids pf c)"
  unfolding getPuVector_def setPuVector_def getCpuMax_def setCpuMax_def getMemNodes_def setMemNodes_def
    getMinMemory_def setMinMemory_def getMaxMemory_def setMaxMemory_def getCurrentPids_def getMaxPids_def setMaxPids_def
  by (auto intro!: frame_intros)

end
