(* ===== verification/PlatformDescription.thy ===== *)
theory PlatformDescription
  imports CpusetVector Text
begin

text \<open>
  \<open>rm/platformdescription/\<close> and \<open>rm/librmcommon/memoryinfo.h\<close>. The topology is the object
  tree of \<open>hwloc\<close>, a third-party library: here a tree given as an argument. A \<open>hwloc_obj_t\<close>
  pointer is the position of the object in the tree, the list of child numbers from the root;
  two pointers are equal when the positions are, \<open>parent\<close> drops the last number and the null
  pointer is \<open>None\<close>. \<open>hwloc_get_next_obj_by_type\<close> walks over the objects of a type in the
  order of the tree.
\<close>

section \<open>Processing unit mappings\<close>

definition NUM_CACHES :: int where
  "NUM_CACHES = 5"

record pu_mapping =
  osPuIdx :: int
  osCoreIdx :: int
  osCpuIdx :: int
  osCacheIdx :: "int list"
  hwlocCacheIdx :: "int list"

definition new_pu_mapping :: "int \<Rightarrow> pu_mapping" where
  "new_pu_mapping idx =
     \<lparr> osPuIdx = idx, osCoreIdx = - 1, osCpuIdx = - 1,
       osCacheIdx = replicate (nat NUM_CACHES) (- 1), hwlocCacheIdx = replicate (nat NUM_CACHES) (- 1) \<rparr>"

definition setCache :: "int \<Rightarrow> int \<Rightarrow> int \<Rightarrow> pu_mapping \<Rightarrow> pu_mapping" where
  "setCache cacheLevel osIdx hwlocLogicalIdx m =
     (if cacheLevel \<ge> 1 \<and> cacheLevel \<le> NUM_CACHES
      then m\<lparr>osCacheIdx := (osCacheIdx m)[nat (cacheLevel - 1) := osIdx],
             hwlocCacheIdx := (hwlocCacheIdx m)[nat (cacheLevel - 1) := hwlocLogicalIdx]\<rparr>
      else m)"

definition getCacheOsIdx :: "int \<Rightarrow> pu_mapping \<Rightarrow> int" where
  "getCacheOsIdx cacheLevel m =
     (if cacheLevel \<ge> 1 \<and> cacheLevel \<le> NUM_CACHES then osCacheIdx m ! nat (cacheLevel - 1) else - 1)"

definition getCacheHwlocIdx :: "int \<Rightarrow> pu_mapping \<Rightarrow> int" where
  "getCacheHwlocIdx cacheLevel m =
     (if cacheLevel \<ge> 1 \<and> cacheLevel \<le> NUM_CACHES then hwlocCacheIdx m ! nat (cacheLevel - 1) else - 1)"

definition pu_show :: "pu_mapping \<Rightarrow> string" where
  "pu_show m =
     (let cache = (\<lambda>i. '':['' @ show_int (osCacheIdx m ! i) @ '','' @ show_int (hwlocCacheIdx m ! i) @ '']'') in
      ''{'' @ ''\"idx\":'' @ show_int (osPuIdx m) @ '',\"core\":'' @ show_int (osCoreIdx m) @
      '',\"L1cache\"'' @ cache 0 @ '',\"L2cache\"'' @ cache 1 @ '',\"L3cache\"'' @ cache 2 @
      '',\"L4cache\"'' @ cache 3 @ '',\"L5cache\"'' @ cache 4 @ '',\"cpu\":'' @ show_int (osCpuIdx m) @ ''}'')"

section \<open>The object tree\<close>

datatype hw_type = Machine | Package | Core | PU | Cache int | OtherObj

datatype hw_obj = HwObj (hw_kind: hw_type) (os_index: int) (logical_index: int) (hw_children: "hw_obj list")

type_synonym hw_pos = "nat list"

text \<open>The objects of the tree with their positions, in the order of the tree.\<close>

fun objects :: "hw_pos \<Rightarrow> hw_obj \<Rightarrow> (hw_pos \<times> hw_obj) list"
  and objects_list :: "hw_pos \<Rightarrow> nat \<Rightarrow> hw_obj list \<Rightarrow> (hw_pos \<times> hw_obj) list" where
  "objects pos (HwObj t o_idx l_idx cs) = (pos, HwObj t o_idx l_idx cs) # objects_list pos 0 cs"
| "objects_list pos n [] = []"
| "objects_list pos n (c # cs) = objects (pos @ [n]) c @ objects_list pos (Suc n) cs"

definition objs_by_type :: "hw_obj \<Rightarrow> hw_type \<Rightarrow> (hw_pos \<times> hw_obj) list" where
  "objs_by_type topology t = filter (\<lambda>(pos, obj). hw_kind obj = t) (objects [] topology)"

definition parent :: "hw_pos \<Rightarrow> hw_pos option" where
  "parent pos = (if pos = [] then None else Some (butlast pos))"

text \<open>\<open>os_index\<close> is \<open>unsigned\<close>: the \<open>int\<close> it is compared with is converted.\<close>

definition findObjByOsIndex :: "hw_obj \<Rightarrow> hw_type \<Rightarrow> int \<Rightarrow> hw_pos option" where
  "findObjByOsIndex topology objType osIdx =
     map_option fst (find (\<lambda>(pos, obj). os_index obj = osIdx mod 2 ^ 32) (objs_by_type topology objType))"

text \<open>The objects on the way from the parent of a position up to the root.\<close>

fun obj_at :: "hw_obj \<Rightarrow> hw_pos \<Rightarrow> hw_obj option" where
  "obj_at (HwObj t oi li cs) [] = Some (HwObj t oi li cs)"
| "obj_at (HwObj t oi li cs) (n # pos) = (if n < length cs then obj_at (cs ! n) pos else None)"

function walk_up :: "hw_obj \<Rightarrow> hw_pos option \<Rightarrow> pu_mapping \<Rightarrow> pu_mapping" where
  "walk_up topology None m = m"
| "walk_up topology (Some pos) m =
     (let m' = (case obj_at topology pos of
                  None \<Rightarrow> m
                | Some p \<Rightarrow>
                    (case hw_kind p of
                       Package \<Rightarrow> m\<lparr>osCpuIdx := os_index p\<rparr>
                     | Core \<Rightarrow> m\<lparr>osCoreIdx := os_index p\<rparr>
                     | Cache n \<Rightarrow> setCache n (os_index p) (logical_index p) m
                     | _ \<Rightarrow> m))
      in walk_up topology (parent pos) m')"
  by pat_completeness auto
termination
  by (relation "measure (\<lambda>(t, pos, m). case pos of None \<Rightarrow> 0 | Some p \<Rightarrow> Suc (length p))")
    (auto simp: parent_def)

definition getProcessingUnits :: "hw_obj \<Rightarrow> pu_mapping list" where
  "getProcessingUnits topology =
     map (\<lambda>(pos, obj). walk_up topology (parent pos) (new_pu_mapping (os_index obj))) (objs_by_type topology PU)"

function obj_distance_loop :: "hw_pos option \<Rightarrow> hw_pos option \<Rightarrow> int \<Rightarrow> int" where
  "obj_distance_loop o1 o2 distance =
     (if o1 \<noteq> o2 \<and> o1 \<noteq> None \<and> o2 \<noteq> None
      then obj_distance_loop (parent (the o1)) (parent (the o2)) (distance + 1)
      else distance)"
  by pat_completeness auto
termination
  by (relation "measure (\<lambda>(o1, o2, d). case o1 of None \<Rightarrow> 0 | Some p \<Rightarrow> Suc (length p))")
    (auto simp: parent_def split: option.splits)

declare obj_distance_loop.simps [simp del]

definition objDistance :: "hw_pos option \<Rightarrow> hw_pos option \<Rightarrow> int" where
  "objDistance o1 o2 =
     (if o1 = None \<or> o2 = None then 10 else obj_distance_loop o1 o2 0)"

definition puDistance :: "hw_obj \<Rightarrow> int \<Rightarrow> int \<Rightarrow> int" where
  "puDistance topology osidx1 osidx2 =
     objDistance (findObjByOsIndex topology PU osidx1) (findObjByOsIndex topology PU osidx2)"

section \<open>The description\<close>

definition getNumCpus :: "hw_obj \<Rightarrow> int" where
  "getNumCpus topology = int (length (objs_by_type topology Package))"

definition getNumCores :: "hw_obj \<Rightarrow> int" where
  "getNumCores topology = int (length (objs_by_type topology Core))"

definition getNumProcessingUnits :: "hw_obj \<Rightarrow> int" where
  "getNumProcessingUnits topology = int (length (objs_by_type topology PU))"

definition getPUSet :: "hw_obj \<Rightarrow> int list" where
  "getPUSet topology =
     foldl (\<lambda>res i. pu_insert (to_short i) res) [] [0..getNumProcessingUnits topology - 1]"

definition getPUDistance :: "hw_obj \<Rightarrow> int \<Rightarrow> int \<Rightarrow> int" where
  "getPUDistance topology pu1 pu2 = puDistance topology pu1 pu2"

definition getTopology :: "hw_obj \<Rightarrow> pu_mapping list" where
  "getTopology topology = getProcessingUnits topology"

text \<open>\<open>sysinfo\<close>, when it succeeds, gives an amount and its unit in bytes.\<close>

definition getMemoryInfo :: "(64 word \<times> 64 word) option \<Rightarrow> 64 word" where
  "getMemoryInfo info = (case info of None \<Rightarrow> 0 | Some (totalram, mem_unit) \<Rightarrow> (totalram * mem_unit) div 1024)"

definition getSwapInfo :: "(64 word \<times> 64 word) option \<Rightarrow> 64 word" where
  "getSwapInfo info = (case info of None \<Rightarrow> 0 | Some (totalswap, mem_unit) \<Rightarrow> (totalswap * mem_unit) div 1024)"

definition topology_text :: "64 word \<Rightarrow> 64 word \<Rightarrow> hw_obj \<Rightarrow> string" where
  "topology_text totalRamKB totalSwapKB topology =
     ''PLATFORMDESCRIPTION: '' @ ''{'' @ ''\"totalRamKb\":'' @ show_u64 totalRamKB @
     '',\"totalSwapKb\":'' @ show_u64 totalSwapKB @ '',\"coreTopology\": ['' @
     join (CHR '','') (map pu_show (getTopology topology)) @ '']'' @ ''}''"

section \<open>The distance\<close>

text \<open>
  On two positions of the same depth the loop counts the levels up to the common ancestor.
\<close>

fun common :: "hw_pos \<Rightarrow> hw_pos \<Rightarrow> nat" where
  "common (a # p) (b # q) = (if a = b then Suc (common p q) else 0)"
| "common _ _ = 0"

lemma common_le: "common p q \<le> length p" "common p q \<le> length q"
  by (induction p q rule: common.induct) auto

lemma common_sym: "common p q = common q p"
  by (induction p q rule: common.induct) auto

lemma common_refl [simp]: "common p p = length p"
  by (induction p) auto

lemma common_eq: "length p = length q \<Longrightarrow> common p q = length p \<longleftrightarrow> p = q"
  by (induction p q rule: common.induct) auto

lemma common_triangle: "min (common p q) (common q r) \<le> common p r"
proof (induction p q arbitrary: r rule: common.induct)
  case (1 a p b q)
  then show ?case by (cases r) auto
qed auto

lemma common_snoc: "length p = length q \<Longrightarrow> common (p @ [a]) (q @ [b]) = (if p = q \<and> a = b then Suc (length p) else common p q)"
  by (induction p q rule: list_induct2) auto

lemma distance_loop_same_depth:
  "length p = length q \<Longrightarrow> obj_distance_loop (Some p) (Some q) d = d + int (length p - common p q)"
proof (induction p arbitrary: q d rule: rev_induct)
  case Nil
  then show ?case by (subst obj_distance_loop.simps) simp
next
  case (snoc a p)
  then obtain q' b where q: "q = q' @ [b]" "length q' = length p" by (cases q rule: rev_cases) auto
  show ?case
  proof (cases "p @ [a] = q")
    case True
    then show ?thesis by (subst obj_distance_loop.simps) simp
  next
    case False
    then have ne: "\<not> (p = q' \<and> a = b)" using q by auto
    have "obj_distance_loop (Some (p @ [a])) (Some q) d = obj_distance_loop (Some p) (Some q') (d + 1)"
      using False q by (subst obj_distance_loop.simps) (simp add: parent_def)
    also have "\<dots> = d + 1 + int (length p - common p q')" using q by (intro snoc.IH) simp
    also have "common p q' = common (p @ [a]) q"
      using common_snoc [OF q(2) [symmetric], of a b] ne unfolding q(1) by argo
    also have "d + 1 + int (length p - common (p @ [a]) q) = d + int (length (p @ [a]) - common (p @ [a]) q)"
      unfolding \<open>common p q' = common (p @ [a]) q\<close> [symmetric] using common_le(1) [of p q'] by simp
    finally show ?thesis .
  qed
qed

lemma objDistance_same_depth:
  "length p = length q \<Longrightarrow> objDistance (Some p) (Some q) = int (length p - common p q)"
  by (simp add: objDistance_def distance_loop_same_depth)

text \<open>
  All processing units of a topology lie at the same depth, as \<open>hwloc\<close> documents of its
  normal objects. Then the distance is an ultrametric: the units within a given distance of
  one another form groups that do not overlap.
\<close>

definition level_units :: "hw_obj \<Rightarrow> nat \<Rightarrow> bool" where
  "level_units topology n \<longleftrightarrow> (\<forall>(pos, obj)\<in>set (objs_by_type topology PU). length pos = n)"

definition has_pu :: "hw_obj \<Rightarrow> int \<Rightarrow> bool" where
  "has_pu topology i \<longleftrightarrow> findObjByOsIndex topology PU i \<noteq> None"

lemma find_level:
  "level_units topology n \<Longrightarrow> findObjByOsIndex topology PU i = Some p \<Longrightarrow> length p = n"
  by (auto simp: level_units_def findObjByOsIndex_def find_Some_iff split: prod.splits)
    (metis nth_mem case_prodD)

locale unit_distance =
  fixes present :: "int \<Rightarrow> bool"
    and dist :: "int \<Rightarrow> int \<Rightarrow> int"
  assumes dist_nonneg: "present x \<Longrightarrow> present y \<Longrightarrow> 0 \<le> dist x y"
    and dist_self: "present x \<Longrightarrow> dist x x = 0"
    and dist_sym: "present x \<Longrightarrow> present y \<Longrightarrow> dist x y = dist y x"
    and dist_ultra: "present x \<Longrightarrow> present y \<Longrightarrow> present z \<Longrightarrow> dist x z \<le> max (dist x y) (dist y z)"
begin

text \<open>Being within a distance of each other is an equivalence: the topology's groups.\<close>

lemma same_group:
  assumes "present x" "present y" "present z" and "dist x y \<le> n" and "dist y z \<le> n"
  shows "dist x z \<le> n"
  using dist_ultra [OF assms(1-3)] assms(4,5) by linarith

text \<open>Of three units, the two that are farthest from each other tie with another pair.\<close>

lemma isosceles:
  assumes "present x" "present y" "present z" and "dist x y < dist y z"
  shows "dist x z = dist y z"
proof (rule antisym)
  show "dist x z \<le> dist y z" using dist_ultra [OF assms(1-3)] assms(4) by linarith
  have "dist y z \<le> max (dist y x) (dist x z)" using assms(1-3) by (intro dist_ultra)
  with assms show "dist y z \<le> dist x z" using dist_sym [of x y] by auto
qed

end

definition unit_at :: "hw_obj \<Rightarrow> nat \<Rightarrow> int \<Rightarrow> bool" where
  "unit_at topology n x \<longleftrightarrow> level_units topology n \<and> has_pu topology x"

lemma unit_at_pos:
  assumes "unit_at topology n x"
  obtains p where "findObjByOsIndex topology PU x = Some p" and "length p = n"
  using assms find_level by (auto simp: unit_at_def has_pu_def)

lemma getPUDistance_common:
  "findObjByOsIndex topology PU x = Some p \<Longrightarrow> findObjByOsIndex topology PU y = Some q \<Longrightarrow>
     length p = n \<Longrightarrow> length q = n \<Longrightarrow> getPUDistance topology x y = int n - int (common p q)"
  using common_le(1) [of p q]
  by (simp add: getPUDistance_def puDistance_def objDistance_same_depth of_nat_diff)

interpretation topo: unit_distance "unit_at topology n" "getPUDistance topology"
proof
  fix x
  assume "unit_at topology n x"
  then obtain p where p: "findObjByOsIndex topology PU x = Some p" "length p = n" by (rule unit_at_pos)
  then show "getPUDistance topology x x = 0" using getPUDistance_common [OF p(1) p(1) p(2) p(2)] by simp
  fix y
  assume "unit_at topology n y"
  then obtain q where q: "findObjByOsIndex topology PU y = Some q" "length q = n" by (rule unit_at_pos)
  note d = getPUDistance_common [OF p(1) q(1) p(2) q(2)]
  show "0 \<le> getPUDistance topology x y" unfolding d using common_le(1) [of p q] p(2) by linarith
  show "getPUDistance topology x y = getPUDistance topology y x"
    unfolding d getPUDistance_common [OF q(1) p(1) q(2) p(2)] by (simp add: common_sym)
  fix z
  assume "unit_at topology n z"
  then obtain r where r: "findObjByOsIndex topology PU z = Some r" "length r = n" by (rule unit_at_pos)
  show "getPUDistance topology x z \<le> max (getPUDistance topology x y) (getPUDistance topology y z)"
    unfolding d getPUDistance_common [OF p(1) r(1) p(2) r(2)] getPUDistance_common [OF q(1) r(1) q(2) r(2)]
    using common_triangle [of p q r] by linarith
qed

section \<open>The set of units\<close>

lemma is_pu_set_getPUSet:
  "getNumProcessingUnits topology \<le> 2 ^ 15 \<Longrightarrow> is_pu_set (getPUSet topology)"
  "getNumProcessingUnits topology \<le> 2 ^ 15 \<Longrightarrow> set (getPUSet topology) = {0..<getNumProcessingUnits topology}"
proof -
  assume n: "getNumProcessingUnits topology \<le> 2 ^ 15"
  have "foldl (\<lambda>res i. pu_insert (to_short i) res) r xs = foldl (\<lambda>res i. pu_insert i res) r xs"
    if "\<forall>i\<in>set xs. is_short i" for r xs
    using that by (induction xs arbitrary: r) auto
  then have e: "getPUSet topology = foldl (\<lambda>res i. pu_insert i res) [] [0..getNumProcessingUnits topology - 1]"
    using n by (simp add: getPUSet_def is_short_def)
  have s: "set (getPUSet topology) = {0..<getNumProcessingUnits topology}"
    unfolding e strict_fold_insert_Nil by auto
  then show "set (getPUSet topology) = {0..<getNumProcessingUnits topology}" .
  have "sorted_wrt (<) (getPUSet topology)" unfolding e by (rule strict_fold_insert_Nil)
  with s n show "is_pu_set (getPUSet topology)" by (simp add: is_pu_set_def)
qed

end
