(* ===== verification/Sai.thy ===== *)
theory Sai
  imports SecState
begin

text \<open>
  \<open>rm/librmcommon/sai.{h,cpp}\<close>: the security anomaly index of an application. \<open>Ewma\<close> is a
  running mean and variance; its \<open>deviation\<close> turns a sample into a factor, and
  \<open>computeSai\<close> is the clamped weighted sum of the factors. \<open>std::sqrt\<close> on \<open>float\<close> is the
  correctly rounded root; \<open>std::exp\<close> is not specified to the last bit by any standard and is
  the argument \<open>expf\<close>, with the facts used about it as hypotheses.
\<close>

section \<open>Square root\<close>

text \<open>The integer square root, one binary digit at a time from the top.\<close>

fun isqrt_loop :: "nat \<Rightarrow> int \<Rightarrow> int \<Rightarrow> int" where
  "isqrt_loop 0 n r = r"
| "isqrt_loop (Suc i) n r = isqrt_loop i n (if (r + 2 ^ i)\<^sup>2 \<le> n then r + 2 ^ i else r)"

definition isqrt :: "int \<Rightarrow> int" where
  "isqrt n = isqrt_loop (nat (bitlen n) div 2 + 1) n 0"

text \<open>
  In units of \<open>2 ^ -149\<close> the root of \<open>k\<close> units is the root of \<open>k * 2 ^ 149\<close>; it is rounded to
  24 bits, to nearest even.
\<close>

fun fsqrt :: "flt \<Rightarrow> flt" where
  "fsqrt (Fin k) =
     (if k < 0 then NaN
      else (let n = k * 2 ^ 149; s = nat (bitlen (isqrt n) - 24); q = isqrt (n div 4 ^ s); h = (2 * q + 1)\<^sup>2 * 4 ^ s
            in Fin ((if 4 * n < h then q else if h < 4 * n then q + 1 else if even q then q else q + 1) * 2 ^ s)))"
| "fsqrt PInf = PInf"
| "fsqrt _ = NaN"

lemma isqrt_loop_nonneg: "0 \<le> r \<Longrightarrow> r \<le> isqrt_loop i n r"
proof (induction i arbitrary: r)
  case (Suc i)
  have "r \<le> (if (r + 2 ^ i)\<^sup>2 \<le> n then r + 2 ^ i else r)" by simp
  also have "\<dots> \<le> isqrt_loop i n (if (r + 2 ^ i)\<^sup>2 \<le> n then r + 2 ^ i else r)"
    using Suc.prems by (intro Suc.IH) simp
  finally show ?case by simp
qed simp

lemma isqrt_nonneg: "0 \<le> isqrt n"
  using isqrt_loop_nonneg [of 0] by (simp add: isqrt_def del: isqrt_loop.simps)

text \<open>The loop finds the floor of the root.\<close>

lemma isqrt_loop_floor:
  assumes "0 \<le> r" and "r\<^sup>2 \<le> n" and "n < (r + 2 ^ i)\<^sup>2"
  shows "(isqrt_loop i n r)\<^sup>2 \<le> n \<and> n < (isqrt_loop i n r + 1)\<^sup>2"
  using assms
proof (induction i arbitrary: r)
  case (Suc i)
  show ?case
  proof (cases "(r + 2 ^ i)\<^sup>2 \<le> n")
    case True
    moreover have "n < (r + 2 ^ i + 2 ^ i)\<^sup>2" using Suc.prems(3) by (simp add: add.assoc)
    ultimately show ?thesis using Suc.IH [of "r + 2 ^ i"] Suc.prems(1) by simp
  next
    case False
    with Suc.IH [of r] Suc.prems show ?thesis by simp
  qed
qed simp

lemma isqrt_floor: "0 \<le> n \<Longrightarrow> (isqrt n)\<^sup>2 \<le> n \<and> n < (isqrt n + 1)\<^sup>2"
proof -
  assume n: "0 \<le> n"
  let ?i = "nat (bitlen n) div 2 + 1"
  have "n < 2 ^ nat (bitlen n)" using bitlen_bounds [of n] n by (cases "n = 0") auto
  also have "\<dots> \<le> 2 ^ (?i * 2)" by (rule power_increasing) auto
  also have "\<dots> = (2 ^ ?i)\<^sup>2" by (simp only: power_mult)
  finally show ?thesis using n isqrt_loop_floor [of 0 n ?i] by (simp add: isqrt_def)
qed

lemma fsqrt_nonneg: "fsqrt x = NaN \<or> fle (Fin 0) (fsqrt x)"
  using isqrt_nonneg by (cases x) (simp_all add: Let_def)

section \<open>The index\<close>

record security_factors =
  fanout :: flt
  halfOpen :: flt
  forkRate :: flt
  newExec :: flt
  cpuBurst :: flt
  egress :: flt
  memGrowth :: flt
  rawSocket :: flt

text \<open>The weights, one for each factor; a record of the same shape.\<close>

type_synonym sai_weights = security_factors

definition default_weights :: sai_weights where
  "default_weights =
     \<lparr> fanout = f32 30 100, halfOpen = f32 25 100, forkRate = f32 15 100, newExec = f32 20 100,
       cpuBurst = f32 10 100, egress = f32 15 100, memGrowth = f32 10 100, rawSocket = f32 20 100 \<rparr>"

definition clamp01 :: "flt \<Rightarrow> flt" where
  "clamp01 v = fmax (Fin 0) (fmin (f32 1 1) v)"

text \<open>The factors and weights in the order of the sum; \<open>s\<close> of \<open>computeSai\<close>.\<close>

definition weighted_sum :: "security_factors \<Rightarrow> sai_weights \<Rightarrow> flt" where
  "weighted_sum f w =
     fadd (fadd (fadd (fadd (fadd (fadd (fadd
       (fmul (fanout w) (fanout f))
       (fmul (halfOpen w) (halfOpen f)))
       (fmul (forkRate w) (forkRate f)))
       (fmul (newExec w) (newExec f)))
       (fmul (cpuBurst w) (cpuBurst f)))
       (fmul (egress w) (egress f)))
       (fmul (memGrowth w) (memGrowth f)))
       (fmul (rawSocket w) (rawSocket f))"

definition computeSai :: "security_factors \<Rightarrow> sai_weights \<Rightarrow> flt" where
  "computeSai f w =
     (let s = weighted_sum f w in if \<not> is_finite s then Fin 0 else clamp01 s)"

section \<open>The baseline\<close>

record ewma =
  mean :: flt
  var :: flt
  count :: int

definition WARMUP :: int where
  "WARMUP = 5"

definition new_ewma :: ewma where
  "new_ewma = \<lparr> mean = Fin 0, var = Fin 0, count = 0 \<rparr>"

definition ewma_update :: "flt \<Rightarrow> flt \<Rightarrow> ewma \<Rightarrow> ewma" where
  "ewma_update x alpha e =
     (if count e = 0 then e\<lparr>mean := x, var := Fin 0, count := count e + 1\<rparr>
      else (let d = fsub x (mean e) in
        e\<lparr>mean := fadd (mean e) (fmul alpha d),
          var := fmul (fsub (f32 1 1) alpha) (fadd (var e) (fmul (fmul alpha d) d)),
          count := count e + 1\<rparr>))"

definition warming :: "ewma \<Rightarrow> bool" where
  "warming e \<longleftrightarrow> count e < WARMUP"

definition deviation :: "(flt \<Rightarrow> flt) \<Rightarrow> ewma \<Rightarrow> flt \<Rightarrow> flt" where
  "deviation expf e x =
     (if warming e then Fin 0
      else (let sd = fadd (fsqrt (var e)) (f32 1 1000000);
                z = fdiv (fsub x (mean e)) sd
            in if fle z (Fin 0) then Fin 0
               else fsub (f32 1 1) (expf (fmul (fneg z) (f32 5 10)))))"

section \<open>The index stays in the unit interval\<close>

definition unit_flt :: "flt \<Rightarrow> bool" where
  "unit_flt x \<longleftrightarrow> fle (Fin 0) x \<and> fle x (f32 1 1)"

lemma unit_flt_iff: "unit_flt x \<longleftrightarrow> (\<exists>k. x = Fin k \<and> 0 \<le> k \<and> k \<le> 2 ^ 149)"
  by (cases x) (simp_all add: unit_flt_def)

lemma clamp01_unit: "is_finite v \<Longrightarrow> unit_flt (clamp01 v)"
  by (cases v) (auto simp: unit_flt_def clamp01_def fmax_def fmin_def)

lemma computeSai_unit: "unit_flt (computeSai f w)"
  by (auto simp: computeSai_def Let_def clamp01_unit) (simp add: unit_flt_def)

lemma clamp01_mono: "fle a b \<Longrightarrow> fle (clamp01 a) (clamp01 b)"
  by (cases a; cases b) (auto simp: clamp01_def fmax_def fmin_def)

text \<open>A sample never moves the factor out of the unit interval, whatever the baseline.\<close>

lemma fmul_neg_half: "fle z (Fin 0) \<or> z = NaN \<or> fle (fmul (fneg z) (f32 5 10)) (Fin 0)"
proof (cases z)
  case (Fin k)
  obtain h where h: "f32 5 10 = Fin h" "0 < h"
    by (rule that [of "2 ^ 148"]) (simp_all, code_simp)
  show ?thesis
  proof (cases "k \<le> 0")
    case False
    then have "- k * h \<le> 0" using h by (simp add: mult_nonneg_nonneg)
    then have "fle (round_to 24 (- k * h) (2 ^ 149)) (Fin 0)" by (rule round_to_nonpos) simp
    then show ?thesis using Fin h by simp
  qed (simp add: Fin)
next
  case PInf
  have "f32 5 10 = Fin (2 ^ 148)" by code_simp
  with PInf show ?thesis by (simp add: inf_of_def)
qed simp_all

lemma deviation_unit:
  assumes "\<And>y. fle y (Fin 0) \<Longrightarrow> unit_flt (expf y)" and "expf NaN = NaN"
  shows "deviation expf e x = NaN \<or> unit_flt (deviation expf e x)"
proof -
  define z where "z = fdiv (fsub x (mean e)) (fadd (fsqrt (var e)) (f32 1 1000000))"
  have d: "deviation expf e x = (if warming e \<or> fle z (Fin 0) then Fin 0
      else fsub (f32 1 1) (expf (fmul (fneg z) (f32 5 10))))"
    by (simp add: deviation_def z_def Let_def)
  consider "warming e \<or> fle z (Fin 0)" | "z = NaN" | "fle (fmul (fneg z) (f32 5 10)) (Fin 0)"
    using fmul_neg_half [of z] by blast
  then show ?thesis
  proof cases
    case 1
    then show ?thesis using d by (auto simp: unit_flt_def)
  next
    case 2
    then show ?thesis using d assms(2) by (simp add: fsub_def unit_flt_def)
  next
    case 3
    then obtain k where k: "expf (fmul (fneg z) (f32 5 10)) = Fin k" "0 \<le> k" "k \<le> 2 ^ 149"
      using assms(1) unit_flt_iff by blast
    have "fle (Fin 0) (round_to 24 (2 ^ 149 - k) 1)" using k by (intro round_to_nonneg) auto
    moreover have "fle (round_to 24 (2 ^ 149 - k) 1) (round_to 24 (2 ^ 149) 1)"
      using k by (intro fle_round_to) auto
    moreover have "round_to 24 (2 ^ 149) 1 = Fin (2 ^ 149)" using round_to_exact [of 1 1 24 149] by simp
    ultimately show ?thesis using d k by (simp add: fsub_def unit_flt_def)
  qed
qed

section \<open>More signal never means a lower index\<close>

definition unit_factors :: "security_factors \<Rightarrow> bool" where
  "unit_factors f \<longleftrightarrow> unit_flt (fanout f) \<and> unit_flt (halfOpen f) \<and> unit_flt (forkRate f) \<and> unit_flt (newExec f) \<and>
     unit_flt (cpuBurst f) \<and> unit_flt (egress f) \<and> unit_flt (memGrowth f) \<and> unit_flt (rawSocket f)"

definition factors_le :: "security_factors \<Rightarrow> security_factors \<Rightarrow> bool" where
  "factors_le f g \<longleftrightarrow> fle (fanout f) (fanout g) \<and> fle (halfOpen f) (halfOpen g) \<and> fle (forkRate f) (forkRate g) \<and>
     fle (newExec f) (newExec g) \<and> fle (cpuBurst f) (cpuBurst g) \<and> fle (egress f) (egress g) \<and>
     fle (memGrowth f) (memGrowth g) \<and> fle (rawSocket f) (rawSocket g)"

definition zero_to :: "int \<Rightarrow> flt \<Rightarrow> bool" where
  "zero_to n x \<longleftrightarrow> fle (Fin 0) x \<and> fle x (Fin (n * 2 ^ 149))"

lemma unit_within: "unit_flt x \<longleftrightarrow> zero_to 1 x"
  by (simp add: unit_flt_def zero_to_def)

lemma within_Fin: "zero_to n x \<longleftrightarrow> (\<exists>k. x = Fin k \<and> 0 \<le> k \<and> k \<le> n * 2 ^ 149)"
  by (cases x) (simp_all add: zero_to_def)

lemma fmul_unit: "zero_to 1 w \<Longrightarrow> zero_to 1 x \<Longrightarrow> zero_to 1 (fmul w x)"
proof -
  assume "zero_to 1 w" and "zero_to 1 x"
  then obtain a b where ab: "w = Fin a" "x = Fin b" "0 \<le> a" "a \<le> 2 ^ 149" "0 \<le> b" "b \<le> 2 ^ 149"
    unfolding within_Fin by auto
  then have "a * b \<le> 2 ^ 149 * 2 ^ 149" by (intro mult_mono) auto
  then have "fle (round_to 24 (a * b) (2 ^ 149)) (round_to 24 (2 ^ 149) 1)" by (intro fle_round_to) auto
  moreover have "round_to 24 (2 ^ 149) 1 = Fin (2 ^ 149)" using round_to_exact [of 1 1 24 149] by simp
  ultimately show ?thesis using ab round_to_nonneg [of "a * b" "2 ^ 149" 24] by (simp add: zero_to_def)
qed

lemma fmul_mono: "zero_to 1 w \<Longrightarrow> zero_to 1 x \<Longrightarrow> zero_to 1 y \<Longrightarrow> fle x y \<Longrightarrow> fle (fmul w x) (fmul w y)"
  by (auto simp: within_Fin intro!: fle_round_to mult_left_mono)

lemma fadd_within:
  assumes "zero_to n x" and "zero_to 1 y" and n: "0 \<le> n" "n < 2 ^ 23"
  shows "zero_to (n + 1) (fadd x y)"
proof -
  obtain a b where ab: "x = Fin a" "y = Fin b" "0 \<le> a" "a \<le> n * 2 ^ 149" "0 \<le> b" "b \<le> 2 ^ 149"
    using assms unfolding within_Fin by auto
  then have "fle (round_to 24 (a + b) 1) (round_to 24 ((n + 1) * 2 ^ 149) 1)"
    by (intro fle_round_to) (auto simp: distrib_right)
  moreover have "round_to 24 ((n + 1) * 2 ^ 149) 1 = Fin ((n + 1) * 2 ^ 149)"
    using round_to_exact [of 1 "n + 1" 24 149] n by simp
  ultimately show ?thesis using ab round_to_nonneg [of "a + b" 1 24] by (simp add: zero_to_def)
qed

lemma fadd_within_mono:
  "zero_to n x \<Longrightarrow> zero_to n x' \<Longrightarrow> zero_to m y \<Longrightarrow> zero_to m y' \<Longrightarrow> fle x x' \<Longrightarrow> fle y y' \<Longrightarrow>
     fle (fadd x y) (fadd x' y')"
  by (auto simp: within_Fin intro!: fle_round_to)

lemma fadd_sum_mono:
  "list_all2 (\<lambda>a b. zero_to 1 a \<and> zero_to 1 b \<and> fle a b) xs ys \<Longrightarrow> zero_to n x \<Longrightarrow> zero_to n y \<Longrightarrow> fle x y \<Longrightarrow>
     0 \<le> n \<Longrightarrow> n + int (length xs) < 2 ^ 23 \<Longrightarrow>
     fle (foldl fadd x xs) (foldl fadd y ys) \<and> zero_to (n + int (length xs)) (foldl fadd x xs)"
proof (induction xs ys arbitrary: n x y rule: list_all2_induct)
  case (Cons a xs b ys)
  have "fle (foldl fadd (fadd x a) xs) (foldl fadd (fadd y b) ys) \<and>
      zero_to (n + 1 + int (length xs)) (foldl fadd (fadd x a) xs)"
    using Cons by (intro Cons.IH) (auto intro: fadd_within fadd_within_mono)
  then show ?case by (simp add: algebra_simps)
qed simp

lemma weighted_sum_fold:
  "weighted_sum f w = foldl fadd (fmul (fanout w) (fanout f))
     (map (\<lambda>p. fmul (p w) (p f)) [halfOpen, forkRate, newExec, cpuBurst, egress, memGrowth, rawSocket])"
  by (simp add: weighted_sum_def)

lemma weighted_sum_facts:
  assumes "unit_factors w" and "unit_factors f" and "unit_factors g" and "factors_le f g"
  shows "fle (weighted_sum f w) (weighted_sum g w)" and "zero_to 8 (weighted_sum f w)"
proof -
  let ?s = "\<lambda>f. map (\<lambda>p. fmul (p w) (p f)) [halfOpen, forkRate, newExec, cpuBurst, egress, memGrowth, rawSocket]"
  have "list_all2 (\<lambda>a b. zero_to 1 a \<and> zero_to 1 b \<and> fle a b) (?s f) (?s g)"
    using assms by (simp add: unit_factors_def factors_le_def unit_within fmul_unit fmul_mono)
  then have "fle (foldl fadd (fmul (fanout w) (fanout f)) (?s f)) (foldl fadd (fmul (fanout w) (fanout g)) (?s g)) \<and>
      zero_to (1 + int (length (?s f))) (foldl fadd (fmul (fanout w) (fanout f)) (?s f))"
    using assms by (intro fadd_sum_mono) (simp_all add: unit_factors_def factors_le_def unit_within fmul_unit fmul_mono)
  then show "fle (weighted_sum f w) (weighted_sum g w)" "zero_to 8 (weighted_sum f w)"
    unfolding weighted_sum_fold by simp_all
qed

lemma computeSai_mono:
  assumes "unit_factors w" and "unit_factors f" and "unit_factors g" and "factors_le f g"
  shows "fle (computeSai f w) (computeSai g w)"
proof -
  have gg: "factors_le g g" using assms(3) by (auto simp: factors_le_def unit_factors_def unit_flt_iff)
  note weighted_sum_facts [OF assms] weighted_sum_facts(2) [OF assms(1,3,3) gg]
  then show ?thesis
    by (auto simp: computeSai_def Let_def within_Fin intro!: clamp01_mono)
qed

end
