(* ===== verification/Policy.thy ===== *)
theory Policy
  imports PuCommon Sai
begin

text \<open>
  \<open>rm/policymanager/policies/ibasepolicy.h\<close> with the two policies that need no state,
  \<open>nopolicy\<close> and \<open>randpolicy\<close>. A policy object is its state \<open>'p\<close>; the virtual functions are
  the fields of a record of actions on the kernel, the application mapping the call is for,
  and the policy state. The locale \<open>policy_contract\<close> states what \<open>PolicyManager\<close> relies on;
  each of the five policies interprets it.
\<close>

section \<open>The interface\<close>

type_synonym ('k, 'p, 'a) pol_act = "(('k \<times> app_mapping) \<times> 'p, 'a) act"

text \<open>
  \<open>addApp\<close> is given the set of applications, to which the policies hold a reference.
\<close>

record ('k, 'p) policy =
  pol_addApp :: "app_mapping list \<Rightarrow> ('k, 'p, unit) pol_act"
  pol_removeApp :: "('k, 'p, unit) pol_act"
  pol_timer :: "'p \<Rightarrow> 'p"
  pol_monitor :: "int list \<Rightarrow> 'p \<Rightarrow> 'p"
  pol_feedback :: "int \<Rightarrow> ('k, 'p, unit) pol_act"
  pol_securityAlert :: "flt \<Rightarrow> security_factors \<Rightarrow> string \<Rightarrow> ('k, 'p, unit) pol_act"
  pol_clearApp :: "('k, 'p, unit) pol_act"
  pol_setThresholds :: "thresholds \<Rightarrow> 'p \<Rightarrow> 'p"

text \<open>The default implementations of the base class.\<close>

definition base_securityAlert :: "flt \<Rightarrow> security_factors \<Rightarrow> string \<Rightarrow> ('k, 'p, unit) pol_act" where
  "base_securityAlert sai factors labels = ret ()"

definition base_clearApp :: "('k, 'p, unit) pol_act" where
  "base_clearApp = ret ()"

definition base_setThresholds :: "thresholds \<Rightarrow> 'p \<Rightarrow> 'p" where
  "base_setThresholds th p = p"

section \<open>The contract\<close>

text \<open>
  An action on a mapping under a policy that keeps an invariant of the policy state and the
  application the mapping is for, whichever way it is left.
\<close>

definition pol_ok :: "('p \<Rightarrow> bool) \<Rightarrow> ('k, 'p, 'a) pol_act \<Rightarrow> bool" where
  "pol_ok I m \<longleftrightarrow>
     (\<forall>s. I (snd s) \<longrightarrow> I (snd (snd (m s))) \<and> am_app (snd (fst (snd (m s)))) = am_app (snd (fst s)))"

named_theorems pol_intros \<open>an action honours the policy contract\<close>

lemma pol_okD: "pol_ok I m \<Longrightarrow> I p \<Longrightarrow> m ((k, am), p) = (r, ((k', am'), p')) \<Longrightarrow> I p' \<and> am_app am' = am_app am"
  unfolding pol_ok_def by (metis fst_conv snd_conv)

lemma pol_ok_ret [pol_intros]: "pol_ok I (ret x)"
  by (simp add: pol_ok_def act_defs)

lemma pol_ok_throw [pol_intros]: "pol_ok I (throw e)"
  by (simp add: pol_ok_def act_defs)

lemma pol_ok_lift [pol_intros]: "pol_ok I (lift_result r)"
  by (simp add: pol_ok_def act_defs)

lemma pol_ok_get [pol_intros]: "pol_ok I (pol_get f)"
  by (simp add: pol_ok_def act_defs)

lemma pol_ok_upd [pol_intros]: "(\<And>p. I p \<Longrightarrow> I (f p)) \<Longrightarrow> pol_ok I (pol_upd f)"
  by (auto simp: pol_ok_def act_defs)

lemma pol_ok_fst [pol_intros]: "am_frame m \<Longrightarrow> pol_ok I (on_fst m)"
  by (auto simp: pol_ok_def am_frame_def act_defs split: prod.splits) (metis prod.collapse snd_conv)+

lemma pol_ok_bnd [pol_intros]: "pol_ok I m \<Longrightarrow> (\<And>x. pol_ok I (f x)) \<Longrightarrow> pol_ok I (bnd m f)"
  unfolding pol_ok_def bnd_def by (auto split: prod.splits sum.splits) (metis fst_conv snd_conv)+

lemma pol_ok_if [pol_intros]: "(b \<Longrightarrow> pol_ok I m) \<Longrightarrow> (\<not> b \<Longrightarrow> pol_ok I n) \<Longrightarrow> pol_ok I (if b then m else n)"
  by simp

lemma pol_ok_try [pol_intros]: "pol_ok I m \<Longrightarrow> (\<And>e. pol_ok I (h e)) \<Longrightarrow> pol_ok I (try_catch c m h)"
  unfolding pol_ok_def try_catch_def by (auto split: prod.splits sum.splits) (metis fst_conv snd_conv)+

locale policy_contract =
  fixes pol :: "('k, 'p) policy"
    and inv :: "'p \<Rightarrow> bool"
  assumes addApp_ok: "pol_ok inv (pol_addApp pol apps)"
    and addApp_silent: "raises (\<lambda>e. \<not> catchable e) (pol_addApp pol apps)"
    and removeApp_ok: "pol_ok inv (pol_removeApp pol)"
    and timer_ok: "inv p \<Longrightarrow> inv (pol_timer pol p)"
    and monitor_ok: "inv p \<Longrightarrow> inv (pol_monitor pol loads p)"
    and feedback_ok: "pol_ok inv (pol_feedback pol fb)"
    and securityAlert_ok: "pol_ok inv (pol_securityAlert pol sai factors labels)"
    and clearApp_ok: "pol_ok inv (pol_clearApp pol)"
    and setThresholds_ok: "inv p \<Longrightarrow> inv (pol_setThresholds pol th p)"

section \<open>NoPolicy\<close>

definition NoPolicy :: "('k, unit) policy" where
  "NoPolicy =
     \<lparr> pol_addApp = (\<lambda>apps. ret ()), pol_removeApp = ret (), pol_timer = (\<lambda>p. p), pol_monitor = (\<lambda>loads p. p),
       pol_feedback = (\<lambda>fb. ret ()), pol_securityAlert = base_securityAlert, pol_clearApp = base_clearApp,
       pol_setThresholds = base_setThresholds \<rparr>"

lemmas base_defs = base_securityAlert_def base_clearApp_def base_setThresholds_def

interpretation no_policy: policy_contract NoPolicy "\<lambda>_. True"
  by unfold_locales (simp_all add: NoPolicy_def base_defs pol_intros raises_intros)

section \<open>RandPolicy\<close>

text \<open>
  The random numbers: \<open>std::random_device\<close> feeds a generator, and a uniform distribution
  draws from it. The stream of raw draws is the policy's state here, and a draw is brought
  into the range \<open>0..cpusNum-1\<close>.
\<close>

record rand_state =
  rand_draws :: "nat \<Rightarrow> nat"
  rand_next :: nat

definition getRandNumber :: "int \<Rightarrow> ('k, rand_state, int) pol_act" where
  "getRandNumber cpusNum =
     bnd (pol_get (\<lambda>p. rand_draws p (rand_next p))) (\<lambda>d.
     bnd (pol_upd (\<lambda>p. p\<lparr>rand_next := Suc (rand_next p)\<rparr>)) (\<lambda>_.
     ret (int d mod cpusNum)))"

definition rand_addApp :: "('k, 'm) platform_scheme \<Rightarrow> hw_obj \<Rightarrow> app_mapping list \<Rightarrow> ('k, rand_state, unit) pol_act" where
  "rand_addApp pf topology apps =
     bnd (on_fst (am_get (countAppsWithSameCgroup apps))) (\<lambda>n.
     if n > 1 then ret ()
     else try_catch catchable
       (bnd (getRandNumber (getNumProcessingUnits topology)) (\<lambda>r.
        (let puNum = to_short r in on_fst (setPuVector pf [(puNum, puNum)]))))
       (\<lambda>_. ret ()))"

definition rand_feedback :: "int \<Rightarrow> ('k, rand_state, unit) pol_act" where
  "rand_feedback feedback = on_fst (am_upd (lastFeedback_update (\<lambda>_. feedback)))"

definition RandPolicy :: "('k, 'm) platform_scheme \<Rightarrow> hw_obj \<Rightarrow> ('k, rand_state) policy" where
  "RandPolicy pf topology =
     \<lparr> pol_addApp = rand_addApp pf topology, pol_removeApp = ret (), pol_timer = (\<lambda>p. p),
       pol_monitor = (\<lambda>loads p. p), pol_feedback = rand_feedback,
       pol_securityAlert = base_securityAlert, pol_clearApp = base_clearApp,
       pol_setThresholds = base_setThresholds \<rparr>"

lemma raises_silent_try:
  "raises (\<lambda>e. \<not> catchable e) (try_catch catchable m (\<lambda>_. ret ()))"
  by (intro raises_intros) (simp add: raises_def)

lemma raises_am_get [raises_intros]: "raises P (am_get f)"
  by (simp add: raises_def act_defs)

interpretation rand_policy: policy_contract "RandPolicy pf topology" "\<lambda>_. True"
proof
  show "pol_ok (\<lambda>_. True) (pol_addApp (RandPolicy pf topology) apps)" for apps
    by (auto simp: RandPolicy_def rand_addApp_def getRandNumber_def Let_def intro!: pol_intros frame_intros)
  show "raises (\<lambda>e. \<not> catchable e) (pol_addApp (RandPolicy pf topology) apps)" for apps
    by (auto simp: RandPolicy_def rand_addApp_def intro!: raises_intros raises_silent_try)
qed (auto simp: RandPolicy_def base_defs rand_feedback_def intro!: pol_intros frame_intros)

lemma rand_pu_range:
  assumes "1 \<le> getNumProcessingUnits topology" and "getNumProcessingUnits topology \<le> 2 ^ 15"
    and "getRandNumber (getNumProcessingUnits topology) s = (Inr r, s')"
  shows "0 \<le> to_short r \<and> to_short r < getNumProcessingUnits topology"
proof -
  have "r = int (rand_draws (snd s) (rand_next (snd s))) mod getNumProcessingUnits topology"
    using assms(3) by (auto simp: getRandNumber_def act_defs)
  then have "0 \<le> r \<and> r < getNumProcessingUnits topology" using assms(1) by simp
  with assms(2) show ?thesis by (simp add: is_short_def)
qed

end
