(* ===== verification/PuFacts.thy ===== *)
theory PuFacts
  imports PuCommon
begin

text \<open>
  What the searches and the quota functions of the placing policies compute.
\<close>

section \<open>Least loaded unit\<close>

definition load_of :: "int list \<Rightarrow> int \<Rightarrow> int" where
  "load_of xs i = xs ! nat i"

definition in_range :: "int list \<Rightarrow> int \<Rightarrow> bool" where
  "in_range xs i \<longleftrightarrow> 0 \<le> i \<and> i < int (length xs)"

text \<open>\<open>m\<close> at \<open>idx\<close> is the minimum of \<open>f\<close> over \<open>S\<close>; the start value when \<open>S\<close> is empty.\<close>

definition is_min :: "(int \<Rightarrow> int) \<Rightarrow> int set \<Rightarrow> int \<Rightarrow> int \<Rightarrow> bool" where
  "is_min f S m idx \<longleftrightarrow>
     (if S = {} then m = INT_MAX \<and> idx = - 1 else idx \<in> S \<and> m = f idx \<and> (\<forall>i\<in>S. f idx \<le> f i))"

lemma is_minD:
  "is_min f S m idx \<Longrightarrow> S \<noteq> {} \<Longrightarrow> idx \<in> S \<and> m = f idx \<and> (\<forall>i\<in>S. f idx \<le> f i)"
  by (simp add: is_min_def)

lemma is_min_insert:
  "is_min f S m idx \<Longrightarrow> f i < INT_MAX \<Longrightarrow> is_min f (insert i S) (if f i < m then f i else m) (if f i < m then i else idx)"
  by (auto simp: is_min_def split: if_splits)

definition load_ok :: "int list \<Rightarrow> int list \<Rightarrow> int set \<Rightarrow> load_min \<Rightarrow> bool" where
  "load_ok pus appsOn S a \<longleftrightarrow>
     is_min (load_of pus) S (minLoad a) (minLoadIdx a) \<and>
     is_min (load_of pus) {i \<in> S. load_of appsOn i > 0} (minUsedLoad a) (minUsedLoadIdx a)"

lemma load_ok_step:
  assumes "load_ok pus appsOn S a" and "load_of pus i < INT_MAX"
  shows "load_ok pus appsOn (insert i S) (load_step (load_of pus i) (load_of appsOn i) i a)"
proof -
  have ins: "{j \<in> insert i S. load_of appsOn j > 0}
      = (if load_of appsOn i > 0 then insert i {j \<in> S. load_of appsOn j > 0} else {j \<in> S. load_of appsOn j > 0})"
    by auto
  from assms have "is_min (load_of pus) (insert i S) (if load_of pus i < minLoad a then load_of pus i else minLoad a)
      (if load_of pus i < minLoad a then i else minLoadIdx a)"
    by (intro is_min_insert) (simp_all add: load_ok_def)
  moreover from assms have "is_min (load_of pus) (insert i {j \<in> S. load_of appsOn j > 0})
      (if load_of pus i < minUsedLoad a then load_of pus i else minUsedLoad a)
      (if load_of pus i < minUsedLoad a then i else minUsedLoadIdx a)"
    by (intro is_min_insert) (simp_all add: load_ok_def)
  moreover have "minLoad (load_step (load_of pus i) (load_of appsOn i) i a)
      = (if load_of pus i < minLoad a then load_of pus i else minLoad a)"
    "minLoadIdx (load_step (load_of pus i) (load_of appsOn i) i a) = (if load_of pus i < minLoad a then i else minLoadIdx a)"
    "minUsedLoad (load_step (load_of pus i) (load_of appsOn i) i a)
      = (if load_of appsOn i > 0 \<and> load_of pus i < minUsedLoad a then load_of pus i else minUsedLoad a)"
    "minUsedLoadIdx (load_step (load_of pus i) (load_of appsOn i) i a)
      = (if load_of appsOn i > 0 \<and> load_of pus i < minUsedLoad a then i else minUsedLoadIdx a)"
    by (auto simp: load_step_def Let_def)
  ultimately show ?thesis
    using assms(1) unfolding load_ok_def ins by (cases "load_of appsOn i > 0") simp_all
qed

lemma load_loop_ok:
  assumes "load_ok pus appsOn S a"
    and "\<forall>i\<in>set is. in_range pus i \<and> in_range appsOn i \<and> load_of pus i < INT_MAX"
  shows "\<exists>b. load_loop pus appsOn is a = Inr b \<and> load_ok pus appsOn (set is \<union> S) b"
  using assms
proof (induction "is" arbitrary: S a)
  case (Cons i "is")
  have "vec_at pus i = Inr (load_of pus i)" "vec_at appsOn i = Inr (load_of appsOn i)"
    using Cons.prems(2) by (simp_all add: in_range_def load_of_def)
  moreover have "\<exists>b. load_loop pus appsOn is (load_step (load_of pus i) (load_of appsOn i) i a) = Inr b \<and>
      load_ok pus appsOn (set is \<union> insert i S) b"
    using Cons.prems by (intro Cons.IH load_ok_step) auto
  ultimately show ?case by auto
qed auto

text \<open>
  A unit with the lowest load of those that already run applications, or of all of them when
  none does.
\<close>

definition least_loaded :: "int list \<Rightarrow> int list \<Rightarrow> int set \<Rightarrow> int \<Rightarrow> bool" where
  "least_loaded pus appsOn S r \<longleftrightarrow> r \<in> S \<and>
     (if \<exists>i\<in>S. load_of appsOn i > 0
      then load_of appsOn r > 0 \<and> (\<forall>i\<in>S. load_of appsOn i > 0 \<longrightarrow> load_of pus r \<le> load_of pus i)
      else \<forall>i\<in>S. load_of pus r \<le> load_of pus i)"

lemma load_choice_least:
  assumes "load_ok pus appsOn S a" and "S \<noteq> {}" and "\<forall>i\<in>S. 0 \<le> i"
  shows "least_loaded pus appsOn S (load_choice d a)"
proof (cases "{i \<in> S. load_of appsOn i > 0} = {}")
  case True
  with assms show ?thesis
    by (auto simp: load_ok_def is_min_def load_choice_def least_loaded_def)
next
  case False
  from is_minD [OF _ this] assms(1) have "minUsedLoadIdx a \<in> {i \<in> S. load_of appsOn i > 0}"
    "\<forall>i\<in>{i \<in> S. load_of appsOn i > 0}. load_of pus (minUsedLoadIdx a) \<le> load_of pus i"
    unfolding load_ok_def by blast+
  moreover from this assms(3) have "minUsedLoadIdx a \<noteq> - 1" by auto
  ultimately show ?thesis using False by (auto simp: load_choice_def least_loaded_def)
qed

lemma load_ok_start: "load_ok pus appsOn {} load_start"
  by (simp add: load_ok_def is_min_def load_start_def)

lemma getLowerUsagePU_least:
  assumes "pus \<noteq> []" and "length pus \<le> length appsOn" and "\<forall>x\<in>set pus. x < INT_MAX"
  shows "\<exists>r. getLowerUsagePU pus appsOn = Inr r \<and> least_loaded pus appsOn {0..<int (length pus)} r"
proof -
  have "\<forall>i\<in>set [0..int (length pus) - 1]. in_range pus i \<and> in_range appsOn i \<and> load_of pus i < INT_MAX"
    using assms(2,3) by (auto simp: in_range_def load_of_def)
  from load_loop_ok [OF load_ok_start this] obtain b where
    b: "load_loop pus appsOn [0..int (length pus) - 1] load_start = Inr b"
    "load_ok pus appsOn {0..<int (length pus)} b"
    by (auto simp: atLeastAtMostPlus1_int_conv [symmetric] ivl_disj_un)
      (metis atLeastLessThanPlusOne_atLeastAtMost_int diff_add_cancel)
  have "least_loaded pus appsOn {0..<int (length pus)} (load_choice 0 b)"
    using assms(1) by (intro load_choice_least b(2)) auto
  with b(1) assms(1) show ?thesis by (simp add: getLowerUsagePU_def)
qed

lemma getLowerUsagePU_fallback:
  "pus = [] \<Longrightarrow> appsOn \<noteq> [] \<Longrightarrow>
     \<exists>r. getLowerUsagePU pus appsOn = Inr r \<and> in_range appsOn r \<and>
       (\<forall>i. in_range appsOn i \<longrightarrow> load_of appsOn r \<le> load_of appsOn i)"
  using min_element_Some [of appsOn] min_element_spec [of appsOn]
  by (auto simp: getLowerUsagePU_def in_range_def load_of_def)

lemma least_apps_loop_ok:
  assumes "is_min (load_of appsOn) S m idx"
    and "\<forall>i\<in>set is. in_range appsOn i \<and> load_of appsOn i < INT_MAX"
  shows "\<exists>r n. least_apps_loop appsOn is m idx = Inr r \<and> is_min (load_of appsOn) (set is \<union> S) n r"
  using assms
proof (induction "is" arbitrary: S m idx)
  case (Cons i "is")
  have v: "vec_at appsOn i = Inr (load_of appsOn i)"
    using Cons.prems(2) by (simp add: in_range_def load_of_def)
  have "is_min (load_of appsOn) (insert i S) (if load_of appsOn i < m then load_of appsOn i else m)
      (if load_of appsOn i < m then i else idx)"
    using Cons.prems by (intro is_min_insert) auto
  then have "\<exists>r n. least_apps_loop appsOn is (if load_of appsOn i < m then load_of appsOn i else m)
      (if load_of appsOn i < m then i else idx) = Inr r \<and> is_min (load_of appsOn) (set is \<union> insert i S) n r"
    using Cons.prems by (intro Cons.IH) auto
  with v show ?case by (auto split: if_splits)
qed auto

text \<open>The choice among a set of units, with and without load figures.\<close>

lemma getLowerUsagePU_in_ok:
  assumes "S \<noteq> []" and rng: "\<forall>i\<in>set S. in_range appsOn i \<and> load_of appsOn i < INT_MAX"
    and loads: "pus \<noteq> [] \<longrightarrow> (\<forall>i\<in>set S. in_range pus i \<and> load_of pus i < INT_MAX)"
  shows "\<exists>r. getLowerUsagePU_in pus appsOn S = Inr r \<and>
    (if pus \<noteq> [] then least_loaded pus appsOn (set S) r
     else r \<in> set S \<and> (\<forall>i\<in>set S. load_of appsOn r \<le> load_of appsOn i))"
proof (cases "pus = []")
  case True
  have "is_min (load_of appsOn) {} INT_MAX (- 1)" by (simp add: is_min_def)
  from least_apps_loop_ok [OF this rng] assms(1) True show ?thesis
    by (auto simp: getLowerUsagePU_in_def toVector_set_def is_min_def)
next
  case False
  then have "\<forall>i\<in>set S. in_range pus i \<and> in_range appsOn i \<and> load_of pus i < INT_MAX"
    using rng loads by blast
  from load_loop_ok [OF load_ok_start this] obtain b where
    b: "load_loop pus appsOn S load_start = Inr b" "load_ok pus appsOn (set S) b" by auto
  have "least_loaded pus appsOn (set S) (load_choice (- 1) b)"
    using assms(1) rng by (intro load_choice_least b(2)) (auto simp: in_range_def)
  with b(1) False show ?thesis by (simp add: getLowerUsagePU_in_def toVector_set_def)
qed

section \<open>Sets of units\<close>

lemma getAvailablePUs_props:
  assumes "getNumProcessingUnits topology \<le> 2 ^ 15" and "sorted_wrt (<) used"
  shows "set (getAvailablePUs topology used) = {0..<getNumProcessingUnits topology} - set used"
    and "sorted_wrt (<) (getAvailablePUs topology used)"
  using is_pu_set_getPUSet [OF assms(1)] assms(2)
  by (auto simp: getAvailablePUs_def is_pu_set_def set_set_difference sorted_set_difference)

lemma konro_fold:
  "sorted_wrt (<) r \<Longrightarrow> \<forall>i\<in>set is. is_short i \<Longrightarrow>
     sorted_wrt (<) (foldl (\<lambda>res i. if P i then pu_insert (to_short i) res else res) r is) \<and>
     set (foldl (\<lambda>res i. if P i then pu_insert (to_short i) res else res) r is) = set r \<union> {i \<in> set is. P i}"
  by (induction "is" arbitrary: r) (auto simp: strict_pu_insert set_pu_insert)

lemma getKonroUsedPUs_props:
  assumes "length appsOn \<le> 2 ^ 15"
  shows "set (getKonroUsedPUs appsOn) = {i. in_range appsOn i \<and> load_of appsOn i > 0}"
    and "sorted_wrt (<) (getKonroUsedPUs appsOn)"
proof -
  have "\<forall>i\<in>set [0..int (length appsOn) - 1]. is_short i" using assms by (auto simp: is_short_def)
  from konro_fold [OF _ this, of "[]" "\<lambda>i. appsOn ! nat i > 0"]
  have *: "sorted_wrt (<) (getKonroUsedPUs appsOn)"
    "set (getKonroUsedPUs appsOn) = {i \<in> set [0..int (length appsOn) - 1]. appsOn ! nat i > 0}"
    by (simp_all add: getKonroUsedPUs_def)
  then show "sorted_wrt (<) (getKonroUsedPUs appsOn)" by simp
  show "set (getKonroUsedPUs appsOn) = {i. in_range appsOn i \<and> load_of appsOn i > 0}"
    unfolding * by (auto simp: in_range_def load_of_def)
qed

lemma foldl_nested:
  "foldl (\<lambda>acc u. foldl (\<lambda>acc a. f acc (u, a)) acc ys) acc xs = foldl f acc (List.product xs ys)"
proof (induction xs arbitrary: acc)
  case (Cons x xs)
  have "foldl f acc (map (Pair x) ys) = foldl (\<lambda>acc a. f acc (x, a)) acc ys" for acc
    by (induction ys arbitrary: acc) simp_all
  with Cons show ?case by simp
qed simp

definition nearest_inv :: "(int \<Rightarrow> int \<Rightarrow> int) \<Rightarrow> (int \<times> int) set \<Rightarrow> int \<times> int list \<Rightarrow> bool" where
  "nearest_inv d P acc \<longleftrightarrow> fst acc \<le> INT_MAX \<and> (\<forall>(u, a)\<in>P. 0 \<le> d u a \<longrightarrow> fst acc \<le> d u a) \<and>
     (fst acc = INT_MAX \<or> (\<exists>(u, a)\<in>P. 0 \<le> d u a \<and> d u a = fst acc)) \<and>
     set (snd acc) = {a. \<exists>u. (u, a) \<in> P \<and> 0 \<le> d u a \<and> d u a = fst acc} \<and> sorted_wrt (<) (snd acc)"

lemma nearest_inv_step:
  assumes "nearest_inv d P (best, res)"
  shows "nearest_inv d (insert (u, a) P) (nearest_step (d u a) a (best, res))"
proof -
  consider "d u a < 0" | "0 \<le> d u a" "d u a < best" | "0 \<le> d u a" "d u a = best" | "best < d u a"
    by linarith
  then show ?thesis
  proof cases
    case 2
    then have "\<not> (\<exists>u' a'. (u', a') \<in> P \<and> 0 \<le> d u' a' \<and> d u' a' = d u a)"
      using assms by (auto simp: nearest_inv_def)
    with 2 assms show ?thesis by (auto simp: nearest_inv_def nearest_step_def)
  next
    case 3
    with assms show ?thesis
      by (auto simp: nearest_inv_def nearest_step_def set_pu_insert strict_pu_insert)
  qed (use assms in \<open>auto simp: nearest_inv_def nearest_step_def\<close>)
qed

lemma nearest_fold:
  "nearest_inv d P acc \<Longrightarrow>
     nearest_inv d (P \<union> set ps) (foldl (\<lambda>acc (u, a). nearest_step (d u a) a acc) acc ps)"
proof (induction ps arbitrary: P acc)
  case (Cons p ps)
  obtain u a where p: "p = (u, a)" by (cases p)
  have "nearest_inv d (insert p P) (nearest_step (d u a) a acc)"
    using nearest_inv_step [of d P "fst acc" "snd acc" u a] Cons.prems p by simp
  from Cons.IH [OF this] p show ?case by simp
qed simp

lemma nearest_inv_set:
  assumes "nearest_inv d (U \<times> A) acc"
  shows "a \<in> set (snd acc) \<longleftrightarrow>
     a \<in> A \<and> (\<exists>u\<in>U. 0 \<le> d u a \<and> d u a \<le> INT_MAX \<and> (\<forall>u'\<in>U. \<forall>a'\<in>A. 0 \<le> d u' a' \<longrightarrow> d u a \<le> d u' a'))"
    (is "?l \<longleftrightarrow> ?r")
proof
  have b: "fst acc \<le> INT_MAX" and lb: "\<And>u a. u \<in> U \<Longrightarrow> a \<in> A \<Longrightarrow> 0 \<le> d u a \<Longrightarrow> fst acc \<le> d u a"
    and att: "fst acc = INT_MAX \<or> (\<exists>u\<in>U. \<exists>a\<in>A. 0 \<le> d u a \<and> d u a = fst acc)"
    and res: "set (snd acc) = {a. \<exists>u. u \<in> U \<and> a \<in> A \<and> 0 \<le> d u a \<and> d u a = fst acc}"
    using assms by (auto simp: nearest_inv_def)
  show "?l \<Longrightarrow> ?r" using res b lb by auto
  assume ?r
  then obtain u where u: "u \<in> U" "a \<in> A" "0 \<le> d u a" "d u a \<le> INT_MAX"
    and mn: "\<forall>u'\<in>U. \<forall>a'\<in>A. 0 \<le> d u' a' \<longrightarrow> d u a \<le> d u' a'" by blast
  have "d u a \<le> fst acc" using att u(4) mn by metis
  with lb [OF u(1-3)] have "d u a = fst acc" by simp
  with res u show ?l by blast
qed

lemma getNearestPUs_set:
  "a \<in> set (getNearestPUs topology used avail) \<longleftrightarrow>
     a \<in> set avail \<and> (\<exists>u\<in>set used. 0 \<le> getPUDistance topology u a \<and> getPUDistance topology u a \<le> INT_MAX \<and>
       (\<forall>u'\<in>set used. \<forall>a'\<in>set avail. 0 \<le> getPUDistance topology u' a' \<longrightarrow>
          getPUDistance topology u a \<le> getPUDistance topology u' a'))"
  and getNearestPUs_sorted: "sorted_wrt (<) (getNearestPUs topology used avail)"
proof -
  let ?d = "getPUDistance topology"
  let ?acc = "foldl (\<lambda>acc (u, a). nearest_step (?d u a) a acc) (INT_MAX, []) (List.product used avail)"
  have e: "getNearestPUs topology used avail = snd ?acc"
    using foldl_nested [of "\<lambda>acc (u, a). nearest_step (?d u a) a acc" avail "(INT_MAX, [])" used]
    by (simp add: getNearestPUs_def)
  have "nearest_inv ?d {} (INT_MAX, [])" by (simp add: nearest_inv_def)
  from nearest_fold [OF this, of "List.product used avail"]
  have inv: "nearest_inv ?d (set used \<times> set avail) ?acc" by simp
  then show "sorted_wrt (<) (getNearestPUs topology used avail)" by (simp add: e nearest_inv_def)
  from inv show "a \<in> set (getNearestPUs topology used avail) \<longleftrightarrow>
     a \<in> set avail \<and> (\<exists>u\<in>set used. 0 \<le> ?d u a \<and> ?d u a \<le> INT_MAX \<and>
       (\<forall>u'\<in>set used. \<forall>a'\<in>set avail. 0 \<le> ?d u' a' \<longrightarrow> ?d u a \<le> ?d u' a'))"
    unfolding e by (rule nearest_inv_set)
qed

section \<open>The unit to give up\<close>

lemma worst_loop_spec:
  assumes "(idx = - 1 \<and> best = INT_MAX \<and> S = {}) \<or> (\<exists>n\<in>S. idx = int n \<and> best = tot n \<and> (\<forall>i\<in>S. tot n \<le> tot i))"
    and "\<forall>i\<in>set is. tot i < INT_MAX" and "S \<union> set is \<noteq> {}"
  shows "\<exists>n\<in>S \<union> set is. worst_loop tot is best idx = int n \<and> (\<forall>i\<in>S \<union> set is. tot n \<le> tot i)"
  using assms
proof (induction "is" arbitrary: S best idx)
  case (Cons i "is")
  let ?b = "tot i < best"
  have "\<exists>n\<in>insert i S. (if ?b then int i else idx) = int n \<and> (if ?b then tot i else best) = tot n \<and>
      (\<forall>j\<in>insert i S. tot n \<le> tot j)"
    using Cons.prems(1)
  proof (elim disjE conjE bexE)
    assume "best = INT_MAX" "S = {}"
    then show ?thesis using Cons.prems(2) by auto
  next
    fix n assume n: "n \<in> S" "idx = int n" "best = tot n" "\<forall>i\<in>S. tot n \<le> tot i"
    then show ?thesis by (cases ?b) fastforce+
  qed
  then have "\<exists>n\<in>insert i S \<union> set is. worst_loop tot is (if ?b then tot i else best) (if ?b then int i else idx) = int n \<and>
      (\<forall>j\<in>insert i S \<union> set is. tot n \<le> tot j)"
    using Cons.prems(2) by (intro Cons.IH) simp_all
  then show ?case by (simp split: if_splits)
qed auto

lemma pickWorstPU_spec:
  assumes "countPUs vec \<noteq> 1" and "toVector vec \<noteq> []"
    and "\<forall>i<length (toVector vec). total_distance topology (toVector vec) i < INT_MAX"
  shows "\<exists>n<length (toVector vec). pickWorstPU topology vec = toVector vec ! n \<and>
    (\<forall>i<length (toVector vec). total_distance topology (toVector vec) n \<le> total_distance topology (toVector vec) i)"
  using worst_loop_spec [of "- 1" INT_MAX "{}" "total_distance topology (toVector vec)" "[0..<length (toVector vec)]"] assms
  by (auto simp: pickWorstPU_def Let_def)

end
