(* ===== verification/Quota.thy ===== *)
theory Quota
  imports PuCommon
begin

text \<open>
  The two quota functions of the placing policies. Scaling is done in \<open>float\<close> and truncated:
  on the bands the policies use it neither overflows nor leaves the bounds, and for a factor
  between 1 and 2 it never lowers a band. It does not always raise it: a band of 6% or less
  times 1.15 truncates back to itself.
\<close>

section \<open>Scaling a band\<close>

definition scale :: "int \<Rightarrow> flt \<Rightarrow> int result" where
  "scale c f = int_of_float (fmul (float_of_int c) f)"

lemma scale_bounds:
  assumes c: "0 \<le> c" "c < 2 ^ 23" and K: "0 \<le> K" "K \<le> 2 ^ 150"
  obtains v where "scale c (Fin K) = Inr v" and "0 \<le> v" and "v \<le> 2 * c"
    and "2 ^ 149 \<le> K \<Longrightarrow> c \<le> v" and "K \<le> 2 ^ 149 \<Longrightarrow> v \<le> c"
proof -
  let ?r = "round_to 24 (c * 2 ^ 149 * K) (2 ^ 149)"
  have ex: "round_to 24 (i * 2 ^ 149) 1 = Fin (i * 2 ^ 149)" if "0 \<le> i" "i < 2 ^ 24" for i
    using that round_to_exact [of 1 i 24 149] by simp
  have f: "fmul (float_of_int c) (Fin K) = ?r" using c by (simp add: float_of_int_exact)
  have "0 \<le> c * 2 ^ 149 * K" using c K by simp
  then have lo: "fle (Fin 0) ?r" by (rule round_to_nonneg) simp
  have "c * 2 ^ 149 * K \<le> c * 2 ^ 149 * 2 ^ 150" using c K by (intro mult_left_mono) auto
  then have "fle ?r (round_to 24 (2 * c * 2 ^ 149) 1)" by (intro fle_round_to) auto
  then have hi: "fle ?r (Fin (2 * c * 2 ^ 149))" using c ex [of "2 * c"] by simp
  obtain m where m: "?r = Fin m" "0 \<le> m" "m \<le> 2 * c * 2 ^ 149" using lo hi by (cases ?r) auto
  have ge: "c * 2 ^ 149 \<le> m" if "2 ^ 149 \<le> K"
  proof -
    have "c * 2 ^ 149 * 2 ^ 149 \<le> c * 2 ^ 149 * K" using c that by (intro mult_left_mono) auto
    then have "fle (round_to 24 (c * 2 ^ 149) 1) ?r" by (intro fle_round_to) auto
    then show ?thesis using c ex [of c] m by simp
  qed
  have le: "m \<le> c * 2 ^ 149" if "K \<le> 2 ^ 149"
  proof -
    have "c * 2 ^ 149 * K \<le> c * 2 ^ 149 * 2 ^ 149" using c that by (intro mult_left_mono) auto
    then have "fle ?r (round_to 24 (c * 2 ^ 149) 1)" by (intro fle_round_to) auto
    then show ?thesis using c ex [of c] m by simp
  qed
  define v where "v = m div 2 ^ 149"
  have v: "0 \<le> v" "v \<le> 2 * c" "2 ^ 149 \<le> K \<Longrightarrow> c \<le> v" "K \<le> 2 ^ 149 \<Longrightarrow> v \<le> c"
    using m ge le zdiv_mono1 [of m "2 * c * 2 ^ 149" "2 ^ 149"] zdiv_mono1 [of "c * 2 ^ 149" m "2 ^ 149"]
      zdiv_mono1 [of m "c * 2 ^ 149" "2 ^ 149"] by (simp_all add: v_def pos_imp_zdiv_nonneg_iff)
  then have "is_int32 v" using c by (simp add: is_int32_def)
  moreover have "sgn m * (\<bar>m\<bar> div 2 ^ 149) = v" using m by (auto simp: v_def sgn_if)
  moreover have "fmul (float_of_int c) (Fin K) = Fin m" using f m(1) by (simp only:)
  ultimately have "scale c (Fin K) = Inr v" by (simp add: scale_def)
  from this v show ?thesis by (rule that)
qed

text \<open>The factors of the sources: 1.15 and 0.85, from a \<open>double\<close> and from a \<open>float\<close> literal.\<close>

definition quota_scale :: "flt \<Rightarrow> bool" where
  "quota_scale s \<longleftrightarrow>
     (case fadd (f32 1 1) s of Fin K \<Rightarrow> 2 ^ 149 \<le> K \<and> K \<le> 2 ^ 150 | _ \<Rightarrow> False) \<and>
     (case fsub (f32 1 1) s of Fin L \<Rightarrow> 0 \<le> L \<and> L \<le> 2 ^ 149 | _ \<Rightarrow> False)"

lemma quota_scale_15: "quota_scale (f32_of_double 15 100)" "quota_scale (f32 15 100)"
  by code_simp+

section \<open>The outcome of a quota function\<close>

text \<open>A setter either writes and keeps the value, or throws and changes nothing in the object.\<close>

lemma setCpuMax_cases:
  obtains k' where "setCpuMax pf v (k, am) = (Inr (), (k', am\<lparr>cpuMax := v\<rparr>))"
  | e k' where "setCpuMax pf v (k, am) = (Inl e, (k', am))"
  by (cases "cpu_setMax pf v (am_app am) k"; cases "fst (cpu_setMax pf v (am_app am) k)")
    (auto simp: setCpuMax_def act_defs)

lemma getCpuMax_cached: "\<not> isInvalid (cpuMax am) \<Longrightarrow> getCpuMax pf (k, am) = (Inr (cpuMax am), (k, am))"
  by (simp add: getCpuMax_def act_defs)

lemma word_le_uint: "(a :: 64 word) \<le> b \<longleftrightarrow> uint a \<le> uint b"
  by (simp add: word_le_def)

lemma not_invalid_small: "uint w < 2 ^ 63 \<Longrightarrow> \<not> isInvalid (NumericValue w) \<and> \<not> isMax (NumericValue w)"
proof -
  have "uint NUMERIC_VALUE_INVALID = 2 ^ 64 - 2" "uint NUMERIC_VALUE_MAX = 2 ^ 64 - 1" by code_simp+
  then show "uint w < 2 ^ 63 \<Longrightarrow> ?thesis" by (auto simp: isInvalid_def isMax_def)
qed

lemma increase_outcome:
  assumes w: "cpuMax am = NumericValue w" and n: "am_countPUs am = n" "n \<le> 2 ^ 15"
    and lt: "uint w < n * 100" and s: "quota_scale s"
  obtains b where "uint w \<le> b" and "b \<le> n * 100"
    and "increaseCPUquota pf s (k, am) = bnd (setCpuMax pf (NumericValue (to_u64 b))) (\<lambda>_. ret True) (k, am)"
proof -
  obtain K where K: "fadd (f32 1 1) s = Fin K" "2 ^ 149 \<le> K" "K \<le> 2 ^ 150"
    using s by (auto simp: quota_scale_def split: flt.splits)
  have "uint w < 2 ^ 23" using lt n by simp
  then obtain v where v: "scale (uint w) (Fin K) = Inr v" "uint w \<le> v"
    using scale_bounds [of "uint w" K] K by auto
  have nm: "\<not> isInvalid (NumericValue w)" "\<not> isMax (NumericValue w)"
    using not_invalid_small [of w] lt n by auto
  have "0 \<le> n * 100" using lt uint_ge_0 [of w] by linarith
  then have m: "uint (to_u64 (n * 100)) = n * 100" using n by (intro uint_to_u64) auto
  have "increaseCPUquota pf s (k, am) = bnd (setCpuMax pf (NumericValue (to_u64 (min v (n * 100))))) (\<lambda>_. ret True) (k, am)"
    using getCpuMax_cached [of am pf k] w nm n lt m v(1) K
    by (simp add: increaseCPUquota_def bnd_Inr act_defs word_le_uint float_of_u64_def scale_def Let_def del: f32_one)
  with v(2) lt show ?thesis by (intro that [of "min v (n * 100)"]) auto
qed

lemma increase_full:
  "cpuMax am = NumericValue w \<Longrightarrow> am_countPUs am = n \<Longrightarrow> 0 \<le> n \<Longrightarrow> n \<le> 2 ^ 15 \<Longrightarrow> n * 100 \<le> uint w \<Longrightarrow>
     \<not> isInvalid (NumericValue w) \<Longrightarrow> increaseCPUquota pf s (k, am) = (Inr False, (k, am))"
  using getCpuMax_cached [of am pf k] uint_to_u64 [of "n * 100"]
  by (simp add: increaseCPUquota_def bnd_Inr act_defs word_le_uint Let_def)

text \<open>The band in force: \<open>max\<close> counts as all of the assigned units.\<close>

definition band :: "app_mapping \<Rightarrow> int" where
  "band am = (if isMax (cpuMax am) then am_countPUs am * 100 else uint (nv_value (cpuMax am)))"

lemma decrease_outcome:
  assumes n: "1 \<le> am_countPUs am" "am_countPUs am \<le> 2 ^ 15" and inv: "\<not> isInvalid (cpuMax am)"
    and gt: "(am_countPUs am - 1) * 100 < band am" "0 < band am" "band am < 2 ^ 23" and s: "quota_scale s"
  obtains b where "(am_countPUs am - 1) * 100 \<le> b" and "b \<le> band am"
    and "decreaseCPUquota pf s (k, am) = bnd (setCpuMax pf (NumericValue (to_u64 b))) (\<lambda>_. ret True) (k, am)"
proof -
  let ?n = "am_countPUs am"
  have cur: "isMax (cpuMax am) \<Longrightarrow> uint (to_u64 (?n * 100)) = band am"
    "\<not> isMax (cpuMax am) \<Longrightarrow> uint (nv_value (cpuMax am)) = band am"
    using n uint_to_u64 [of "?n * 100"] by (simp_all add: band_def)
  obtain L where L: "fsub (f32 1 1) s = Fin L" "0 \<le> L" "L \<le> 2 ^ 149"
    using s by (auto simp: quota_scale_def split: flt.splits)
  obtain v where v: "scale (band am) (Fin L) = Inr v" "v \<le> band am"
    using scale_bounds [of "band am" L] L gt by auto
  have m: "uint (to_u64 ((?n - 1) * 100)) = (?n - 1) * 100" using n by (intro uint_to_u64) auto
  have "decreaseCPUquota pf s (k, am)
      = bnd (setCpuMax pf (NumericValue (to_u64 (max v ((?n - 1) * 100))))) (\<lambda>_. ret True) (k, am)"
    using getCpuMax_cached [OF inv, of pf k] gt m v(1) L cur
    by (cases "isMax (cpuMax am)")
      (simp_all add: decreaseCPUquota_def bnd_Inr act_defs word_le_uint float_of_u64_def scale_def Let_def del: f32_one)
  with v(2) gt show ?thesis by (intro that [of "max v ((?n - 1) * 100)"]) auto
qed

section \<open>Small bands do not grow\<close>

lemma small_band_fixed:
  "0 \<le> c \<Longrightarrow> c \<le> 6 \<Longrightarrow> scale c (fadd (f32 1 1) (f32_of_double 15 100)) = Inr c"
proof -
  have "\<forall>c\<in>set [0, 1, 2, 3, 4, 5, 6]. scale c (fadd (f32 1 1) (f32_of_double 15 100)) = Inr c" by code_simp
  moreover assume "0 \<le> c" "c \<le> 6"
  then have "c \<in> set [0, 1, 2, 3, 4, 5, 6]" by auto
  ultimately show ?thesis by blast
qed

lemma increase_stuck:
  assumes w: "cpuMax am = NumericValue w" "uint w \<le> 6" and n: "1 \<le> am_countPUs am" "am_countPUs am \<le> 2 ^ 15"
  shows "increaseCPUquota pf (f32_of_double 15 100) (k, am)
    = bnd (setCpuMax pf (NumericValue w)) (\<lambda>_. ret True) (k, am)"
proof -
  have nm: "\<not> isInvalid (NumericValue w)" "\<not> isMax (NumericValue w)"
    using not_invalid_small [of w] w by auto
  have m: "uint (to_u64 (am_countPUs am * 100)) = am_countPUs am * 100" using n by (intro uint_to_u64) auto
  have "to_u64 (uint w) = w" by (simp add: to_u64_def)
  with small_band_fixed [of "uint w"] getCpuMax_cached [of am pf k] w nm n m show ?thesis
    by (simp add: increaseCPUquota_def bnd_Inr act_defs word_le_uint float_of_u64_def scale_def Let_def del: f32_one)
qed

end
