(* ===== verification/PuPolicies.thy ===== *)
theory PuPolicies
  imports Policy PuFacts Quota
begin

text \<open>
  \<open>rm/policymanager/policies/puprogressivepolicy\<close> and \<open>mincorespolicy\<close>: the policies that
  start an application on one processing unit and add units, or take quota away, as its
  feedback asks. Their state is the load figures of the last monitor event and the number of
  applications placed on each unit.
\<close>

section \<open>State\<close>

record pu_state =
  appsOnPu :: "int list"
  lastPlatformLoad :: "int list"
  hasLastPlatformLoad :: bool

definition new_pu_state :: "hw_obj \<Rightarrow> pu_state" where
  "new_pu_state topology =
     \<lparr> appsOnPu = replicate (nat (getNumProcessingUnits topology)) 0, lastPlatformLoad = [],
       hasLastPlatformLoad = False \<rparr>"

text \<open>\<open>++appsOnPu_[pu]\<close> and \<open>--appsOnPu_[pu]\<close>, unchecked.\<close>

definition count_up :: "int \<Rightarrow> ('k, pu_state, unit) pol_act" where
  "count_up pu =
     bnd (pol_get appsOnPu) (\<lambda>a.
     bnd (lift_result (vec_upd a pu (\<lambda>n. n + 1))) (\<lambda>a'. pol_upd (appsOnPu_update (\<lambda>_. a'))))"

definition count_down :: "int \<Rightarrow> ('k, pu_state, unit) pol_act" where
  "count_down pu =
     bnd (pol_get appsOnPu) (\<lambda>a.
     bnd (lift_result (vec_upd a pu (\<lambda>n. n - 1))) (\<lambda>a'. pol_upd (appsOnPu_update (\<lambda>_. a'))))"

text \<open>\<open>removeApp\<close>, the same in both.\<close>

definition pu_removeApp :: "('k, 'm) platform_scheme \<Rightarrow> ('k, pu_state, unit) pol_act" where
  "pu_removeApp pf =
     bnd (on_fst (getPuVector pf)) (\<lambda>vec.
     bnd (pol_get appsOnPu) (\<lambda>a.
     bnd (lift_result (release_loop a (toVector vec))) (\<lambda>a'.
     pol_upd (appsOnPu_update (\<lambda>_. a')))))"

definition set_lastFeedback :: "int \<Rightarrow> ('k \<times> app_mapping, unit) act" where
  "set_lastFeedback feedback = am_upd (lastFeedback_update (\<lambda>_. feedback))"

section \<open>PuProgressivePolicy\<close>

definition pp_slack :: flt where
  "pp_slack = f32 2 10"

definition pp_addApp :: "('k, 'm) platform_scheme \<Rightarrow> app_mapping list \<Rightarrow> ('k, pu_state, unit) pol_act" where
  "pp_addApp pf apps =
     bnd (on_fst (am_get (countAppsWithSameCgroup apps))) (\<lambda>n.
     if n > 1 then ret ()
     else try_catch catchable
       (bnd (pol_get (\<lambda>p. getLowerUsagePU (lastPlatformLoad p) (appsOnPu p))) (\<lambda>r.
        bnd (lift_result (map_sum id to_short r)) (\<lambda>initialPU.
        bnd (on_fst (setPuVector pf [(initialPU, initialPU)])) (\<lambda>_.
        bnd (count_up initialPU) (\<lambda>_.
        on_fst (setCpuMax pf (NumericValue (to_u64 100))))))))
       (\<lambda>_. ret ()))"

definition pp_monitor :: "int list \<Rightarrow> pu_state \<Rightarrow> pu_state" where
  "pp_monitor loads p = p\<lparr>lastPlatformLoad := loads\<rparr>"

definition pp_grow :: "('k, 'm) platform_scheme \<Rightarrow> hw_obj \<Rightarrow> flt \<Rightarrow> ('k, pu_state, unit) pol_act" where
  "pp_grow pf topology scalePercentage =
     bnd (on_fst (getPuVector pf)) (\<lambda>vec.
     bnd (pol_get (\<lambda>p. getNewPU topology (lastPlatformLoad p) (appsOnPu p) vec)) (\<lambda>r.
     bnd (lift_result r) (\<lambda>newPU.
     if newPU \<noteq> - 1
     then bnd (lift_result (addPU vec newPU)) (\<lambda>(_, vec').
          bnd (on_fst (setPuVector pf vec')) (\<lambda>_.
          bnd (count_up newPU) (\<lambda>_.
          bnd (on_fst (increaseCPUquota pf scalePercentage)) (\<lambda>_. ret ()))))
     else ret ())))"

definition pp_shrink :: "('k, 'm) platform_scheme \<Rightarrow> hw_obj \<Rightarrow> flt \<Rightarrow> ('k, pu_state, unit) pol_act" where
  "pp_shrink pf topology scalePercentage =
     bnd (on_fst (getPuVector pf)) (\<lambda>vec.
     (let remPU = pickWorstPU topology vec in
      if remPU \<noteq> - 1
      then bnd (lift_result (removePU vec remPU)) (\<lambda>(_, vec').
           bnd (on_fst (setPuVector pf vec')) (\<lambda>_.
           bnd (count_down remPU) (\<lambda>_.
           bnd (on_fst (decreaseCPUquota pf scalePercentage)) (\<lambda>_. ret ()))))
      else ret ()))"

definition pp_feedback :: "('k, 'm) platform_scheme \<Rightarrow> hw_obj \<Rightarrow> int \<Rightarrow> ('k, pu_state, unit) pol_act" where
  "pp_feedback pf topology feedback =
     (let lowerLimit = fmul (f32 100 1) (fsub (f32 1 1) pp_slack);
          upperLimit = fmul (f32 100 1) (fadd (f32 1 1) pp_slack);
          scalePercentage = f32_of_double 15 100 in
      if fless (float_of_int feedback) lowerLimit
      then bnd (on_fst (increaseCPUquota pf scalePercentage)) (\<lambda>b.
           if b then ret ()
           else bnd (pp_grow pf topology scalePercentage) (\<lambda>_. on_fst (set_lastFeedback feedback)))
      else if fgt (float_of_int feedback) upperLimit
      then bnd (on_fst (decreaseCPUquota pf scalePercentage)) (\<lambda>b.
           if b then ret ()
           else bnd (pp_shrink pf topology scalePercentage) (\<lambda>_. on_fst (set_lastFeedback feedback)))
      else on_fst (set_lastFeedback feedback))"

definition PuProgressivePolicy :: "('k, 'm) platform_scheme \<Rightarrow> hw_obj \<Rightarrow> ('k, pu_state) policy" where
  "PuProgressivePolicy pf topology =
     \<lparr> pol_addApp = pp_addApp pf, pol_removeApp = pu_removeApp pf, pol_timer = (\<lambda>p. p),
       pol_monitor = pp_monitor, pol_feedback = pp_feedback pf topology,
       pol_securityAlert = base_securityAlert, pol_clearApp = base_clearApp,
       pol_setThresholds = base_setThresholds \<rparr>"

section \<open>MinCoresPolicy\<close>

definition mc_slack :: flt where
  "mc_slack = f32_of_double 1 10"

text \<open>Its two \<open>getLowerUsagePU\<close> look at the loads only once an event has brought some.\<close>

definition mc_getLowerUsagePU :: "pu_state \<Rightarrow> int result" where
  "mc_getLowerUsagePU p =
     (if hasLastPlatformLoad p
      then (if lastPlatformLoad p = [] then Inr 0 else getLowerUsagePU (lastPlatformLoad p) (appsOnPu p))
      else getLowerUsagePU [] (appsOnPu p))"

definition mc_loads :: "pu_state \<Rightarrow> int list" where
  "mc_loads p = (if hasLastPlatformLoad p \<and> lastPlatformLoad p \<noteq> [] then lastPlatformLoad p else [])"

definition mc_getLowerUsagePU_in :: "pu_state \<Rightarrow> int list \<Rightarrow> int result" where
  "mc_getLowerUsagePU_in p puset =
     (let vec = toVector_set puset in
      if hasLastPlatformLoad p \<and> lastPlatformLoad p \<noteq> []
      then map_sum id (load_choice (- 1)) (load_loop (lastPlatformLoad p) (appsOnPu p) vec load_start)
      else least_apps_loop (appsOnPu p) vec INT_MAX (- 1))"

definition mc_getKonroAvailablePUs :: "pu_state \<Rightarrow> int list \<Rightarrow> int list" where
  "mc_getKonroAvailablePUs p usedPUs = set_difference (getKonroUsedPUs (appsOnPu p)) usedPUs"

definition mc_getNextPU :: "hw_obj \<Rightarrow> pu_state \<Rightarrow> cpuset_vector \<Rightarrow> int result" where
  "mc_getNextPU topology p vec =
     (let usedPUs = toSet vec;
          konroAvailablePUs = mc_getKonroAvailablePUs p usedPUs
      in if konroAvailablePUs \<noteq> []
         then map_sum id to_short (mc_getLowerUsagePU_in p (getNearestPUs topology usedPUs konroAvailablePUs))
         else (let availPUs = getAvailablePUs topology usedPUs in
           if availPUs \<noteq> []
           then map_sum id to_short (mc_getLowerUsagePU_in p (getNearestPUs topology usedPUs availPUs))
           else Inr (- 1)))"

text \<open>The copies of the search agree, with no loads standing for no monitor event yet.\<close>

lemma mc_getNextPU_getNewPU: "mc_getNextPU topology p vec = getNewPU topology (mc_loads p) (appsOnPu p) vec"
  by (simp add: mc_getNextPU_def getNewPU_def mc_getLowerUsagePU_in_def getLowerUsagePU_in_def mc_loads_def
      mc_getKonroAvailablePUs_def getKonroAvailablePUs_def Let_def)

definition mc_addApp :: "('k, 'm) platform_scheme \<Rightarrow> app_mapping list \<Rightarrow> ('k, pu_state, unit) pol_act" where
  "mc_addApp pf apps =
     bnd (on_fst (am_get (countAppsWithSameCgroup apps))) (\<lambda>n.
     if n > 1 then ret ()
     else try_catch catchable
       (bnd (pol_get mc_getLowerUsagePU) (\<lambda>r.
        bnd (lift_result (map_sum id to_short r)) (\<lambda>initialPU.
        bnd (on_fst (setPuVector pf [(initialPU, initialPU)])) (\<lambda>_.
        count_up initialPU))))
       (\<lambda>_. ret ()))"

definition mc_monitor :: "int list \<Rightarrow> pu_state \<Rightarrow> pu_state" where
  "mc_monitor loads p = p\<lparr>lastPlatformLoad := loads, hasLastPlatformLoad := True\<rparr>"

definition increaseCPUBandwidth :: "('k, 'm) platform_scheme \<Rightarrow> numeric_value \<Rightarrow> int \<Rightarrow> ('k \<times> app_mapping, unit) act" where
  "increaseCPUBandwidth pf curBand percentage =
     setCpuMax pf (NumericValue (nv_value curBand * to_u64 (1 + percentage)))"

definition decreaseCPUBandwidth :: "('k, 'm) platform_scheme \<Rightarrow> int \<Rightarrow> ('k \<times> app_mapping, unit) act" where
  "decreaseCPUBandwidth pf percentage =
     bnd (getCpuMax pf) (\<lambda>v.
     (let curBand = (if isMax v then 100 else nv_value v);
          newBand = u64_to_int (curBand - (curBand * to_u64 percentage) div 100)
      in setCpuMax pf (NumericValue (to_u64 newBand))))"

definition mc_feedback :: "('k, 'm) platform_scheme \<Rightarrow> hw_obj \<Rightarrow> int \<Rightarrow> ('k, pu_state, unit) pol_act" where
  "mc_feedback pf topology feedback =
     (let lowerLimit = fmul (f32 100 1) (fsub (f32 1 1) mc_slack);
          upperLimit = fmul (f32 100 1) (fadd (f32 1 1) mc_slack) in
      bnd (if fless (float_of_int feedback) lowerLimit
           then bnd (on_fst (getPuVector pf)) (\<lambda>vec.
                bnd (pol_get (\<lambda>p. mc_getNextPU topology p vec)) (\<lambda>r.
                bnd (lift_result r) (\<lambda>newPU.
                if newPU \<noteq> - 1
                then bnd (lift_result (addPU vec newPU)) (\<lambda>(_, vec').
                     bnd (on_fst (setPuVector pf vec')) (\<lambda>_. count_up newPU))
                else ret ())))
           else if fgt (float_of_int feedback) upperLimit
           then on_fst (decreaseCPUBandwidth pf 15)
           else ret ())
      (\<lambda>_. on_fst (set_lastFeedback feedback)))"

definition MinCoresPolicy :: "('k, 'm) platform_scheme \<Rightarrow> hw_obj \<Rightarrow> ('k, pu_state) policy" where
  "MinCoresPolicy pf topology =
     \<lparr> pol_addApp = mc_addApp pf, pol_removeApp = pu_removeApp pf, pol_timer = (\<lambda>p. p),
       pol_monitor = mc_monitor, pol_feedback = mc_feedback pf topology,
       pol_securityAlert = base_securityAlert, pol_clearApp = base_clearApp,
       pol_setThresholds = base_setThresholds \<rparr>"

section \<open>The contract\<close>

lemma frame_quota [frame_intros]:
  "am_frame (increaseCPUquota pf s)" "am_frame (decreaseCPUquota pf s)" "am_frame (decreaseCPUBandwidth pf n)"
  "am_frame (set_lastFeedback f)"
  unfolding increaseCPUquota_def decreaseCPUquota_def decreaseCPUBandwidth_def set_lastFeedback_def Let_def
  by (auto intro!: frame_intros)

text \<open>There is one counter per unit of the topology, at all times.\<close>

definition one_counter_each :: "hw_obj \<Rightarrow> pu_state \<Rightarrow> bool" where
  "one_counter_each topology p \<longleftrightarrow> int (length (appsOnPu p)) = getNumProcessingUnits topology"

lemma new_pu_state_counters: "one_counter_each topology (new_pu_state topology)"
  by (simp add: one_counter_each_def new_pu_state_def getNumProcessingUnits_def)

text \<open>Changing the counters as a function of themselves, when it succeeds, to as many.\<close>

lemma pol_ok_counters:
  assumes "\<And>a b. f a = Inr b \<Longrightarrow> length b = length a"
  shows "pol_ok (one_counter_each topology)
     (bnd (pol_get appsOnPu) (\<lambda>a. bnd (lift_result (f a)) (\<lambda>a'. pol_upd (appsOnPu_update (\<lambda>_. a')))))"
  using assms by (auto simp: pol_ok_def act_defs one_counter_each_def split: sum.splits)

lemma pol_ok_count [pol_intros]:
  "pol_ok (one_counter_each topology) (count_up pu)" "pol_ok (one_counter_each topology) (count_down pu)"
  unfolding count_up_def count_down_def
  by (intro pol_ok_counters; rule vec_upd_length; assumption)+

lemma pol_ok_removeApp [pol_intros]: "pol_ok (one_counter_each topology) (pu_removeApp pf)"
  unfolding pu_removeApp_def
  by (intro pol_intros frame_intros pol_ok_counters) (rule release_loop_length)

lemma pol_ok_grow [pol_intros]: "pol_ok (one_counter_each topology) (pp_grow pf topology s)"
  unfolding pp_grow_def by (auto intro!: pol_intros frame_intros)

lemma pol_ok_shrink [pol_intros]: "pol_ok (one_counter_each topology) (pp_shrink pf topology s)"
  unfolding pp_shrink_def Let_def by (auto intro!: pol_intros frame_intros)

interpretation pp_policy: policy_contract "PuProgressivePolicy pf topology" "one_counter_each topology"
proof
  show "pol_ok (one_counter_each topology) (pol_addApp (PuProgressivePolicy pf topology) apps)" for apps
    by (auto simp: PuProgressivePolicy_def pp_addApp_def intro!: pol_intros frame_intros)
  show "raises (\<lambda>e. \<not> catchable e) (pol_addApp (PuProgressivePolicy pf topology) apps)" for apps
    by (auto simp: PuProgressivePolicy_def pp_addApp_def intro!: raises_intros raises_silent_try)
  show "pol_ok (one_counter_each topology) (pol_feedback (PuProgressivePolicy pf topology) fb)" for fb
    by (auto simp: PuProgressivePolicy_def pp_feedback_def Let_def intro!: pol_intros frame_intros)
qed (auto simp: PuProgressivePolicy_def base_defs pp_monitor_def one_counter_each_def intro!: pol_intros)

interpretation mc_policy: policy_contract "MinCoresPolicy pf topology" "one_counter_each topology"
proof
  show "pol_ok (one_counter_each topology) (pol_addApp (MinCoresPolicy pf topology) apps)" for apps
    by (auto simp: MinCoresPolicy_def mc_addApp_def intro!: pol_intros frame_intros)
  show "raises (\<lambda>e. \<not> catchable e) (pol_addApp (MinCoresPolicy pf topology) apps)" for apps
    by (auto simp: MinCoresPolicy_def mc_addApp_def intro!: raises_intros raises_silent_try)
  show "pol_ok (one_counter_each topology) (pol_feedback (MinCoresPolicy pf topology) fb)" for fb
    by (auto simp: MinCoresPolicy_def mc_feedback_def Let_def intro!: pol_intros frame_intros)
qed (auto simp: MinCoresPolicy_def base_defs mc_monitor_def one_counter_each_def intro!: pol_intros)

end
