(* ===== verification/SecurityAware.thy ===== *)
theory SecurityAware
  imports Policy Quota
begin

text \<open>
  \<open>rm/policymanager/policies/securityawarepolicy\<close>: the policy that contains suspicious
  applications. It drives the state machine of \<open>SecState\<close> with the alerts and applies each
  new state to the control files: quota, processing units, process limit and the freezer.
\<close>

section \<open>State and parameters\<close>

record sa_state =
  sa_lastPlatformLoad :: "int list"
  sa_appsOnPu :: "int list"
  sa_thresholds :: thresholds
  assignedPu :: "(int \<times> int) list"

definition new_sa_state :: "hw_obj \<Rightarrow> sa_state" where
  "new_sa_state topology =
     \<lparr> sa_lastPlatformLoad = [], sa_appsOnPu = replicate (nat (getNumProcessingUnits topology)) 0,
       sa_thresholds = default_thresholds, assignedPu = [] \<rparr>"

fun tolOffset :: "security_level \<Rightarrow> flt" where
  "tolOffset MEDIUM = f32 5 100"
| "tolOffset HIGH = f32 10 100"
| "tolOffset CRITICAL = f32 15 100"
| "tolOffset _ = Fin 0"

fun stepFactor :: "security_level \<Rightarrow> flt" where
  "stepFactor HIGH = f32 80 100"
| "stepFactor CRITICAL = f32 80 100"
| "stepFactor MEDIUM = f32 65 100"
| "stepFactor _ = f32 50 100"

text \<open>A higher level is given the larger tolerance and, in \<open>THROTTLE\<close>, the larger band.\<close>

lemma tolOffset_mono: "l \<le> l' \<Longrightarrow> fle (tolOffset l) (tolOffset l')"
proof -
  have "fle (Fin 0) (f32 5 100)" "fle (f32 5 100) (f32 10 100)" "fle (f32 10 100) (f32 15 100)"
    "fle (f32 5 100) (f32 5 100)" "fle (f32 10 100) (f32 10 100)" "fle (f32 15 100) (f32 15 100)" by code_simp+
  then show "l \<le> l' \<Longrightarrow> fle (tolOffset l) (tolOffset l')"
    by (cases l; cases l') (auto simp: less_eq_security_level_def intro: fle_trans)
qed

lemma tolOffset_finite: "is_finite (tolOffset l)"
proof -
  have "is_finite (f32 5 100)" "is_finite (f32 10 100)" "is_finite (f32 15 100)" by code_simp+
  then show ?thesis by (cases l) simp_all
qed

text \<open>\<open>std::map<pid_t, int>\<close>: an entry is overwritten by \<open>[]\<close> and removed by \<open>erase\<close>.\<close>

definition map_put :: "int \<Rightarrow> int \<Rightarrow> (int \<times> int) list \<Rightarrow> (int \<times> int) list" where
  "map_put k v m = (k, v) # filter (\<lambda>p. fst p \<noteq> k) m"

definition map_erase :: "int \<Rightarrow> (int \<times> int) list \<Rightarrow> (int \<times> int) list" where
  "map_erase k m = filter (\<lambda>p. fst p \<noteq> k) m"

section \<open>Adding and removing\<close>

text \<open>\<open>++appsOnPu_[pu]; assignedPu_[pid] = pu\<close>, and the increment alone.\<close>

definition sa_assign :: "int \<Rightarrow> int \<Rightarrow> ('k, sa_state, unit) pol_act" where
  "sa_assign pid pu =
     bnd (pol_get sa_appsOnPu) (\<lambda>a.
     bnd (lift_result (vec_upd a pu (\<lambda>n. n + 1))) (\<lambda>a'.
     pol_upd (\<lambda>p. p\<lparr>sa_appsOnPu := a', assignedPu := map_put pid pu (assignedPu p)\<rparr>)))"

definition sa_count_up :: "int \<Rightarrow> ('k, sa_state, unit) pol_act" where
  "sa_count_up pu =
     bnd (pol_get sa_appsOnPu) (\<lambda>a.
     bnd (lift_result (vec_upd a pu (\<lambda>n. n + 1))) (\<lambda>a'. pol_upd (sa_appsOnPu_update (\<lambda>_. a'))))"

text \<open>The unit an application starts on.\<close>

definition sa_pick :: "security_level \<Rightarrow> int list \<Rightarrow> int" where
  "sa_pick level a =
     (if (level = HIGH \<or> level = CRITICAL) \<and> a \<noteq> []
      then (case min_element a of Some i \<Rightarrow> int i | None \<Rightarrow> int (length a)) else 0)"

definition sa_addApp :: "('k, 'm) platform_scheme \<Rightarrow> app_mapping list \<Rightarrow> ('k, sa_state, unit) pol_act" where
  "sa_addApp pf apps =
     bnd (on_fst (am_get am_getPid)) (\<lambda>pid.
     try_catch catchable
       (bnd (on_fst (am_get securityLevel)) (\<lambda>level.
        bnd (pol_get (\<lambda>p. sa_pick level (sa_appsOnPu p))) (\<lambda>pu.
        bnd (on_fst (setPuVector pf [(to_short pu, to_short pu)])) (\<lambda>_.
        bnd (sa_assign pid pu) (\<lambda>_.
        bnd (on_fst (setCpuMax pf (nv_init (Some ''max'') None))) (\<lambda>_.
        bnd (on_fst (getCurrentPids pf)) (\<lambda>n.
        on_fst (am_upd (baselinePids_update (\<lambda>_. n))))))))))
       (\<lambda>_. ret ()))"

definition sa_removeApp :: "('k, 'm) platform_scheme \<Rightarrow> ('k, sa_state, unit) pol_act" where
  "sa_removeApp pf =
     bnd (on_fst (getPuVector pf)) (\<lambda>vec.
     bnd (pol_get sa_appsOnPu) (\<lambda>a.
     bnd (lift_result (release_loop a (toVector vec))) (\<lambda>a'.
     bnd (on_fst (am_get am_getPid)) (\<lambda>pid.
     pol_upd (\<lambda>p. p\<lparr>sa_appsOnPu := a', assignedPu := map_erase pid (assignedPu p)\<rparr>)))))"

definition sa_monitor :: "int list \<Rightarrow> sa_state \<Rightarrow> sa_state" where
  "sa_monitor loads p = p\<lparr>sa_lastPlatformLoad := loads\<rparr>"

section \<open>Feedback\<close>

text \<open>An application of a high level on a single unit is given unit 1 as well.\<close>

definition sa_grow :: "('k, 'm) platform_scheme \<Rightarrow> flt \<Rightarrow> ('k, sa_state, unit) pol_act" where
  "sa_grow pf scalePercentage =
     bnd (on_fst (am_get securityLevel)) (\<lambda>level.
     if level = HIGH \<or> level = CRITICAL
     then bnd (on_fst (getPuVector pf)) (\<lambda>vec.
          if countPUs vec = 1
          then bnd (lift_result (addPU vec 1)) (\<lambda>(_, vec').
               bnd (on_fst (setPuVector pf vec')) (\<lambda>_.
               bnd (sa_count_up 1) (\<lambda>_.
               bnd (on_fst (increaseCPUquota pf scalePercentage)) (\<lambda>_. ret ()))))
          else ret ())
     else ret ())"

definition sa_feedback :: "('k, 'm) platform_scheme \<Rightarrow> int \<Rightarrow> ('k, sa_state, unit) pol_act" where
  "sa_feedback pf feedback =
     bnd (on_fst (am_get quarantine)) (\<lambda>q.
     if q then ret ()
     else
       (let lowerLimit = fmul (f32 100 1) (f32 8 10);
            upperLimit = fmul (f32 100 1) (f32 12 10);
            scalePercentage = f32 15 100;
            done = on_fst (am_upd (lastFeedback_update (\<lambda>_. feedback))) in
        if fless (float_of_int feedback) lowerLimit
        then bnd (on_fst (increaseCPUquota pf scalePercentage)) (\<lambda>b.
             if b then ret () else bnd (sa_grow pf scalePercentage) (\<lambda>_. done))
        else if fgt (float_of_int feedback) upperLimit
        then bnd (on_fst (decreaseCPUquota pf scalePercentage)) (\<lambda>b. if b then ret () else done)
        else done))"

section \<open>Containment\<close>

text \<open>
  \<open>applyState\<close>. In \<open>RESTRICT\<close> the current number of processes is read twice, once to compare
  and once to use.
\<close>

definition apply_observe :: "('k, 'm) platform_scheme \<Rightarrow> hw_obj \<Rightarrow> ('k, sa_state, unit) pol_act" where
  "apply_observe pf topology =
     bnd (on_fst (am_upd (quarantine_update (\<lambda>_. False)))) (\<lambda>_.
     bnd (on_fst (setCpuMax pf (nv_init (Some ''max'') None))) (\<lambda>_.
     bnd (on_fst (setMaxPids pf (nv_init (Some ''max'') None))) (\<lambda>_.
     if getNumProcessingUnits topology > 0
     then bnd (on_fst (am_get am_getPid)) (\<lambda>pid.
          bnd (pol_get (\<lambda>p. case map_of (assignedPu p) pid of None \<Rightarrow> 0 | Some u \<Rightarrow> u)) (\<lambda>pu.
          on_fst (setPuVector pf [(to_short pu, to_short pu)])))
     else ret ())))"

definition apply_throttle :: "('k, 'm) platform_scheme \<Rightarrow> hw_obj \<Rightarrow> ('k, sa_state, unit) pol_act" where
  "apply_throttle pf topology =
     bnd (on_fst (am_get securityLevel)) (\<lambda>level.
     (let full = max (getNumProcessingUnits topology) 1 * 100 in
      bnd (lift_result (int_of_float (fmul (float_of_int full) (stepFactor level)))) (\<lambda>b.
      on_fst (setCpuMax pf (NumericValue (to_u64 (max b 10)))))))"

definition apply_restrict :: "('k, 'm) platform_scheme \<Rightarrow> ('k, sa_state, unit) pol_act" where
  "apply_restrict pf =
     bnd (on_fst (setCpuMax pf (NumericValue (to_u64 20)))) (\<lambda>_.
     bnd (on_fst (setPuVector pf [(0, 0)])) (\<lambda>_.
     bnd (on_fst (am_get baselinePids)) (\<lambda>baseline.
     bnd (if baseline > 0 then ret baseline
          else bnd (on_fst (getCurrentPids pf)) (\<lambda>n.
               if n > 0 then on_fst (getCurrentPids pf) else ret 1)) (\<lambda>pidsCap.
     on_fst (setMaxPids pf (NumericValue (to_u64 pidsCap)))))))"

definition apply_quarantine :: "('k, 'm) platform_scheme \<Rightarrow> ('k, sa_state, unit) pol_act" where
  "apply_quarantine pf =
     bnd (on_fst (am_upd (quarantine_update (\<lambda>_. True)))) (\<lambda>_.
     on_fst (ctl (setFreeze pf True)))"

fun applyState :: "('k, 'm) platform_scheme \<Rightarrow> hw_obj \<Rightarrow> sec_state \<Rightarrow> ('k, sa_state, unit) pol_act" where
  "applyState pf topology OBSERVE = apply_observe pf topology"
| "applyState pf topology THROTTLE = apply_throttle pf topology"
| "applyState pf topology RESTRICT = apply_restrict pf"
| "applyState pf topology QUARANTINE = apply_quarantine pf"

definition sa_securityAlert :: "('k, 'm) platform_scheme \<Rightarrow> hw_obj \<Rightarrow> flt \<Rightarrow> security_factors \<Rightarrow> string \<Rightarrow> ('k, sa_state, unit) pol_act" where
  "sa_securityAlert pf topology sai factors labels =
     bnd (on_fst (am_upd (am_sai_update (\<lambda>_. sai)))) (\<lambda>_.
     bnd (on_fst (am_get (st_state \<circ> secState))) (\<lambda>prev.
     bnd (pol_get sa_thresholds) (\<lambda>th.
     bnd (on_fst (am_upd (\<lambda>am. am\<lparr>secState := step sai th (tolOffset (securityLevel am)) (secState am)\<rparr>))) (\<lambda>_.
     bnd (on_fst (am_get (st_state \<circ> secState))) (\<lambda>ns.
     if ns \<noteq> prev then applyState pf topology ns else ret ())))))"

definition sa_setThresholds :: "thresholds \<Rightarrow> sa_state \<Rightarrow> sa_state" where
  "sa_setThresholds th p = p\<lparr>sa_thresholds := th\<rparr>"

definition sa_clearApp :: "('k, 'm) platform_scheme \<Rightarrow> hw_obj \<Rightarrow> ('k, sa_state, unit) pol_act" where
  "sa_clearApp pf topology =
     bnd (on_fst (am_upd (secState_update clear))) (\<lambda>_.
     bnd (on_fst (ctl (setFreeze pf False))) (\<lambda>_.
     bnd (on_fst (am_upd (\<lambda>am. am\<lparr>quarantine := False, am_sai := Fin 0\<rparr>))) (\<lambda>_.
     applyState pf topology OBSERVE)))"

definition SecurityAwarePolicy :: "('k, 'm) platform_scheme \<Rightarrow> hw_obj \<Rightarrow> ('k, sa_state) policy" where
  "SecurityAwarePolicy pf topology =
     \<lparr> pol_addApp = sa_addApp pf, pol_removeApp = sa_removeApp pf, pol_timer = (\<lambda>p. p),
       pol_monitor = sa_monitor, pol_feedback = sa_feedback pf,
       pol_securityAlert = sa_securityAlert pf topology, pol_clearApp = sa_clearApp pf topology,
       pol_setThresholds = sa_setThresholds \<rparr>"

section \<open>The contract\<close>

text \<open>
  There is one counter per unit, and every application is assigned to a unit that exists.
\<close>

definition sa_inv :: "hw_obj \<Rightarrow> sa_state \<Rightarrow> bool" where
  "sa_inv topology p \<longleftrightarrow>
     int (length (sa_appsOnPu p)) = getNumProcessingUnits topology \<and>
     (\<forall>(pid, pu)\<in>set (assignedPu p). 0 \<le> pu \<and> pu < getNumProcessingUnits topology)"

lemma sa_inv_new: "sa_inv topology (new_sa_state topology)"
  by (simp add: sa_inv_def new_sa_state_def getNumProcessingUnits_def)

lemma frame_sa [frame_intros]:
  "am_frame (increaseCPUquota pf s)" "am_frame (decreaseCPUquota pf s)"
  unfolding increaseCPUquota_def decreaseCPUquota_def Let_def by (auto intro!: frame_intros)

lemma vec_upd_ok: "vec_upd a i f = Inr b \<Longrightarrow> length b = length a \<and> 0 \<le> i \<and> i < int (length a)"
  by (auto simp: vec_upd_def split: if_splits)

lemma pol_ok_assign [pol_intros]: "pol_ok (sa_inv topology) (sa_assign pid pu)"
  by (auto simp: pol_ok_def sa_assign_def act_defs sa_inv_def map_put_def dest!: vec_upd_ok split: sum.splits)

lemma pol_ok_count_up [pol_intros]: "pol_ok (sa_inv topology) (sa_count_up pu)"
  by (auto simp: pol_ok_def sa_count_up_def act_defs sa_inv_def dest!: vec_upd_ok split: sum.splits)

lemma pol_ok_sa_removeApp: "pol_ok (sa_inv topology) (sa_removeApp pf)"
proof -
  have "pol_ok (sa_inv topology)
     (bnd (pol_get sa_appsOnPu) (\<lambda>a.
     bnd (lift_result (release_loop a pus)) (\<lambda>a'.
     bnd (on_fst (am_get am_getPid)) (\<lambda>pid.
     pol_upd (\<lambda>p. p\<lparr>sa_appsOnPu := a', assignedPu := map_erase pid (assignedPu p)\<rparr>)))))" for pus
    by (auto simp: pol_ok_def act_defs sa_inv_def map_erase_def dest!: release_loop_length split: sum.splits)
  then show ?thesis
    unfolding sa_removeApp_def by (rule pol_ok_bnd [OF pol_ok_fst [OF frame_methods(1)]])
qed

lemma pol_ok_applyState [pol_intros]: "pol_ok I (applyState pf topology st)"
  by (cases st)
    (auto simp: apply_observe_def apply_throttle_def apply_restrict_def apply_quarantine_def Let_def
      intro!: pol_intros frame_intros)

interpretation sa_policy: policy_contract "SecurityAwarePolicy pf topology" "sa_inv topology"
proof
  show "pol_ok (sa_inv topology) (pol_addApp (SecurityAwarePolicy pf topology) apps)" for apps
    by (auto simp: SecurityAwarePolicy_def sa_addApp_def intro!: pol_intros frame_intros)
  show "raises (\<lambda>e. \<not> catchable e) (pol_addApp (SecurityAwarePolicy pf topology) apps)" for apps
    by (auto simp: SecurityAwarePolicy_def sa_addApp_def intro!: raises_intros raises_silent_try)
  show "pol_ok (sa_inv topology) (pol_removeApp (SecurityAwarePolicy pf topology))"
    by (simp add: SecurityAwarePolicy_def pol_ok_sa_removeApp)
  show "pol_ok (sa_inv topology) (pol_feedback (SecurityAwarePolicy pf topology) fb)" for fb
    by (auto simp: SecurityAwarePolicy_def sa_feedback_def sa_grow_def Let_def intro!: pol_intros frame_intros)
  show "pol_ok (sa_inv topology) (pol_securityAlert (SecurityAwarePolicy pf topology) sai factors labels)" for sai factors labels
    by (auto simp: SecurityAwarePolicy_def sa_securityAlert_def intro!: pol_intros frame_intros)
  show "pol_ok (sa_inv topology) (pol_clearApp (SecurityAwarePolicy pf topology))"
    by (auto simp: SecurityAwarePolicy_def sa_clearApp_def simp del: applyState.simps intro!: pol_intros frame_intros)
qed (auto simp: SecurityAwarePolicy_def sa_monitor_def sa_setThresholds_def sa_inv_def)

end
