(* ===== verification/Events.thy ===== *)
theory Events
  imports App Sai
begin

text \<open>
  \<open>rm/librmcommon/events/\<close>, with the figures a monitor event carries (\<open>platformload.h\<close>,
  \<open>platformtemperature.h\<close>, \<open>componenttemperature.h\<close>, \<open>platformpower.h\<close>): the events on the bus, one
  constructor per class, and the text each prints. The times of creation are left out.
\<close>

section \<open>What the platform monitor measures\<close>

record platform_load =
  load_cpus :: "int list"
  load_pus :: "int list"

definition addCpuLoad :: "int \<Rightarrow> platform_load \<Rightarrow> platform_load" where
  "addCpuLoad load pl = pl\<lparr>load_cpus := load_cpus pl @ [load]\<rparr>"

definition addPULoad :: "int \<Rightarrow> platform_load \<Rightarrow> platform_load" where
  "addPULoad load pl = pl\<lparr>load_pus := load_pus pl @ [load]\<rparr>"

definition getPULoad :: "int \<Rightarrow> platform_load \<Rightarrow> int result" where
  "getPULoad idx pl = vec_at (load_pus pl) idx"

record component_temperature =
  tc_num :: int
  tc_label :: "string option"
  tc_temp :: int
  tc_maxTemp :: int
  tc_minTemp :: int
  tc_highestTemp :: int
  tc_lowestTemp :: int
  tc_critTemp :: int
  tc_emergencyTemp :: int

definition new_temperature :: component_temperature where
  "new_temperature =
     \<lparr> tc_num = - 1, tc_label = None, tc_temp = - 1, tc_maxTemp = - 1, tc_minTemp = - 1, tc_highestTemp = - 1,
       tc_lowestTemp = - 1, tc_critTemp = - 1, tc_emergencyTemp = - 1 \<rparr>"

record platform_temperature =
  pt_cpus :: "component_temperature list"
  pt_cores :: "component_temperature list"

text \<open>The two fields of \<open>PlatformPower\<close> have no value until they are set.\<close>

record platform_power =
  batteryCurrent :: "int option"
  batteryVoltage :: "int option"

definition addCpuTemperature :: "component_temperature \<Rightarrow> platform_temperature \<Rightarrow> platform_temperature" where
  "addCpuTemperature ct pt = pt\<lparr>pt_cpus := pt_cpus pt @ [ct]\<rparr>"

definition addCoreTemperature :: "component_temperature \<Rightarrow> platform_temperature \<Rightarrow> platform_temperature" where
  "addCoreTemperature ct pt = pt\<lparr>pt_cores := pt_cores pt @ [ct]\<rparr>"

definition getCpuTemperature :: "int \<Rightarrow> platform_temperature \<Rightarrow> component_temperature result" where
  "getCpuTemperature idx pt = vec_at (pt_cpus pt) idx"

definition getCoreTemperature :: "int \<Rightarrow> platform_temperature \<Rightarrow> component_temperature result" where
  "getCoreTemperature idx pt = vec_at (pt_cores pt) idx"

section \<open>Events\<close>

datatype event =
    AddRequestEvent app
  | AddEvent app
  | RemoveEvent app
  | FeedbackRequestEvent int nat int
  | FeedbackEvent app int
  | SecurityEvent app flt security_factors string
  | ClearEvent int
  | TimerEvent
  | MonitorEvent platform_temperature platform_power platform_load
  | ForkEvent "8 word list"
  | ExecEvent "8 word list"
  | ExitEvent "8 word list"

fun event_name :: "event \<Rightarrow> string" where
  "event_name (AddRequestEvent _) = ''AddRequestEvent''"
| "event_name (AddEvent _) = ''AddEvent''"
| "event_name (RemoveEvent _) = ''RemoveEvent''"
| "event_name (FeedbackRequestEvent _ _ _) = ''FeedbackRequestEvent''"
| "event_name (FeedbackEvent _ _) = ''FeedbackEvent''"
| "event_name (SecurityEvent _ _ _ _) = ''SecurityEvent''"
| "event_name (ClearEvent _) = ''ClearEvent''"
| "event_name TimerEvent = ''TimerEvent''"
| "event_name (MonitorEvent _ _ _) = ''MonitorEvent''"
| "event_name (ForkEvent _) = ''ForkEvent''"
| "event_name (ExecEvent _) = ''ExecEvent''"
| "event_name (ExitEvent _) = ''ExitEvent''"

definition show_pid :: "int \<Rightarrow> string" where
  "show_pid p = ''{\"pid\":'' @ show_int p @ ''}''"

definition show_load :: "platform_load \<Rightarrow> string" where
  "show_load pl =
     ''{\"cpus\":['' @ join (CHR '','') (map show_int (load_cpus pl)) @
     ''],\"PUs\":['' @ join (CHR '','') (map show_int (load_pus pl)) @ '']}''"

text \<open>A label that is a null pointer and a figure that was never set have no text.\<close>

definition show_temperature :: "component_temperature \<Rightarrow> string result" where
  "show_temperature ct =
     (case tc_label ct of
        None \<Rightarrow> Inl (Undefined ''null pointer'')
      | Some label \<Rightarrow>
          Inr (''{\"num\":'' @ show_int (tc_num ct) @ '',\"label\":\"'' @ label @ ''\",\"temp\":'' @ show_int (tc_temp ct) @
               '',\"maxTemp\":'' @ show_int (tc_maxTemp ct) @ '',\"critTemp\":'' @ show_int (tc_critTemp ct) @ ''}''))"

fun collect :: "'a result list \<Rightarrow> 'a list result" where
  "collect [] = Inr []"
| "collect (r # rs) =
     (case r of Inl e \<Rightarrow> Inl e | Inr x \<Rightarrow> (case collect rs of Inl e \<Rightarrow> Inl e | Inr xs \<Rightarrow> Inr (x # xs)))"

definition show_temperatures :: "platform_temperature \<Rightarrow> string result" where
  "show_temperatures pt =
     (case collect (map show_temperature (pt_cpus pt)) of
        Inl e \<Rightarrow> Inl e
      | Inr cpus \<Rightarrow>
          (case collect (map show_temperature (pt_cores pt)) of
             Inl e \<Rightarrow> Inl e
           | Inr cores \<Rightarrow>
               Inr (''{\"cpus\":['' @ join (CHR '','') cpus @ ''],\"cores\":['' @ join (CHR '','') cores @ '']}'')))"

definition show_power :: "platform_power \<Rightarrow> string result" where
  "show_power pp =
     (case (batteryCurrent pp, batteryVoltage pp) of
        (Some c, Some v) \<Rightarrow> Inr (''{\"batteryCurrent\":'' @ show_int c @ '',\"batteryVoltage\":'' @ show_int v @ ''}'')
      | _ \<Rightarrow> Inl (Undefined ''member not initialised''))"

definition monitor_show :: "platform_temperature \<Rightarrow> platform_power \<Rightarrow> platform_load \<Rightarrow> string result" where
  "monitor_show temps pw load =
     (case show_temperatures temps of
        Inl e \<Rightarrow> Inl e
      | Inr t \<Rightarrow>
          (case show_power pw of
             Inl e \<Rightarrow> Inl e
           | Inr p \<Rightarrow> Inr (''{\"platTemp\":'' @ t @ '',\"platPower\":'' @ p @ '',\"platLoad\":'' @ show_load load @ ''}'')))"

text \<open>\<open>printOnOstream\<close>; the digits of the \<open>float\<close> of a security event are an argument.\<close>

fun event_show :: "(flt \<Rightarrow> string) \<Rightarrow> event \<Rightarrow> string result" where
  "event_show show_flt (AddRequestEvent a) = Inr (show_pid (getPid a))"
| "event_show show_flt (AddEvent a) = Inr (show_pid (getPid a))"
| "event_show show_flt (RemoveEvent a) = Inr (show_pid (getPid a))"
| "event_show show_flt (FeedbackRequestEvent p ns f) =
     Inr (''{\"pid\":'' @ show_int p @ '',\"namespace\":'' @ show_nat ns @ '',\"feedback\":'' @ show_int f @ ''}'')"
| "event_show show_flt (FeedbackEvent a f) =
     Inr (''{\"pid\":'' @ show_int (getPid a) @ '',\"feedback\":'' @ show_int f @ ''}'')"
| "event_show show_flt (SecurityEvent a sai factors labels) =
     Inr (''{\"pid\":'' @ show_int (getPid a) @ '',\"sai\":'' @ show_flt sai @ '',\"labels\":\"'' @ labels @ ''\"}'')"
| "event_show show_flt (ClearEvent p) = Inr (''{\"clear_pid\":'' @ show_int p @ ''}'')"
| "event_show show_flt (MonitorEvent temps pw load) = monitor_show temps pw load"
| "event_show show_flt _ = Inr ''{}''"

end
