(* ===== verification/PolicyManager.thy ===== *)
theory PolicyManager
  imports Policy Events StdSet
begin

text \<open>
  \<open>rm/policymanager/policymanager.{h,cpp}\<close>: the component that owns the set of applications
  and hands the events of the bus to the policy. Its state is the set of mappings, ordered by
  process id, and the policy's state; a handler is an action on these and the kernel. An
  exception of a handler is not caught: it leaves \<open>processEvent\<close> and the receiver's thread.
\<close>

section \<open>State\<close>

record 'p policy_manager =
  pm_apps :: "app_mapping list"
  pm_policy :: 'p

type_synonym ('k, 'p, 'a) pm_act = "('k \<times> 'p policy_manager, 'a) act"

datatype policy_name = NoPolicyName | RandPolicyName | PuProgressivePolicyName | MinCoresPolicyName | SecurityAwarePolicyName

definition getPolicyByName :: "string \<Rightarrow> policy_name" where
  "getPolicyByName policyName =
     (if policyName = ''RandPolicy'' then RandPolicyName
      else if policyName = ''PuProgressivePolicy'' then PuProgressivePolicyName
      else if policyName = ''MinCoresPolicy'' then MinCoresPolicyName
      else if policyName = ''SecurityAwarePolicy'' then SecurityAwarePolicyName
      else NoPolicyName)"

text \<open>
  A policy call on a mapping, and what becomes of the mapping: an entry of the set is updated
  in place; a mapping that did not get into the set is gone after the call.
\<close>

definition run_pol ::
  "(app_mapping \<Rightarrow> app_mapping list \<Rightarrow> app_mapping list) \<Rightarrow> app_mapping \<Rightarrow> ('k, 'p, 'a) pol_act \<Rightarrow> ('k, 'p, 'a) pm_act" where
  "run_pol put am m s =
     (case m ((fst s, am), pm_policy (snd s)) of
        (r, ((k', am'), p')) \<Rightarrow> (r, (k', (snd s)\<lparr>pm_policy := p', pm_apps := put am' (pm_apps (snd s))\<rparr>)))"

definition put_entry :: "app_mapping \<Rightarrow> app_mapping list \<Rightarrow> app_mapping list" where
  "put_entry am apps = ks_update am_getPid (am_getPid am) am apps"

definition put_nowhere :: "app_mapping \<Rightarrow> app_mapping list \<Rightarrow> app_mapping list" where
  "put_nowhere am apps = apps"

definition find_app :: "int \<Rightarrow> ('k, 'p, app_mapping option) pm_act" where
  "find_app pid = gets (\<lambda>s. ks_find am_getPid pid (pm_apps (snd s)))"

definition upd_apps :: "(app_mapping list \<Rightarrow> app_mapping list) \<Rightarrow> ('k, 'p, unit) pm_act" where
  "upd_apps f = modify (\<lambda>(k, pm). (k, pm\<lparr>pm_apps := f (pm_apps pm)\<rparr>))"

section \<open>Handlers\<close>

definition processAddEvent :: "('k, 'p) policy \<Rightarrow> app \<Rightarrow> ('k, 'p, unit) pm_act" where
  "processAddEvent pol app =
     (let appMapping = new_app_mapping app in
      bnd (find_app (getPid app)) (\<lambda>old.
      bnd (upd_apps (ks_insert am_getPid appMapping)) (\<lambda>_.
      bnd (gets (pm_apps \<circ> snd)) (\<lambda>apps.
      run_pol (if old = None then put_entry else put_nowhere) appMapping (pol_addApp pol apps)))))"

definition processRemoveEvent :: "('k, 'p) policy \<Rightarrow> app \<Rightarrow> ('k, 'p, unit) pm_act" where
  "processRemoveEvent pol app =
     bnd (find_app (getPid app)) (\<lambda>it.
       case it of
         None \<Rightarrow> ret ()
       | Some am \<Rightarrow>
           bnd (run_pol put_entry am (pol_removeApp pol)) (\<lambda>_.
           upd_apps (ks_erase am_getPid (getPid app))))"

definition processTimerEvent :: "('k, 'p) policy \<Rightarrow> ('k, 'p, unit) pm_act" where
  "processTimerEvent pol = modify (\<lambda>(k, pm). (k, pm\<lparr>pm_policy := pol_timer pol (pm_policy pm)\<rparr>))"

definition processMonitorEvent :: "('k, 'p) policy \<Rightarrow> platform_load \<Rightarrow> ('k, 'p, unit) pm_act" where
  "processMonitorEvent pol load =
     modify (\<lambda>(k, pm). (k, pm\<lparr>pm_policy := pol_monitor pol (load_pus load) (pm_policy pm)\<rparr>))"

definition processFeedbackEvent :: "('k, 'p) policy \<Rightarrow> app \<Rightarrow> int \<Rightarrow> ('k, 'p, unit) pm_act" where
  "processFeedbackEvent pol app feedback =
     bnd (find_app (getPid app)) (\<lambda>it.
       case it of
         None \<Rightarrow> ret ()
       | Some am \<Rightarrow> run_pol put_entry am (pol_feedback pol feedback))"

definition processSecurityEvent ::
  "('k, 'p) policy \<Rightarrow> app \<Rightarrow> flt \<Rightarrow> security_factors \<Rightarrow> string \<Rightarrow> ('k, 'p, unit) pm_act" where
  "processSecurityEvent pol app sai factors labels =
     bnd (find_app (getPid app)) (\<lambda>it.
       case it of
         None \<Rightarrow> ret ()
       | Some am \<Rightarrow> run_pol put_entry (am\<lparr>am_sai := sai\<rparr>) (pol_securityAlert pol sai factors labels))"

definition processClearEvent :: "('k, 'p) policy \<Rightarrow> int \<Rightarrow> ('k, 'p, unit) pm_act" where
  "processClearEvent pol pid =
     bnd (find_app pid) (\<lambda>it.
       case it of
         None \<Rightarrow> ret ()
       | Some am \<Rightarrow> run_pol put_entry am (pol_clearApp pol))"

definition setPolicyThresholds :: "('k, 'p) policy \<Rightarrow> thresholds \<Rightarrow> 'p policy_manager \<Rightarrow> 'p policy_manager" where
  "setPolicyThresholds pol th pm = pm\<lparr>pm_policy := pol_setThresholds pol th (pm_policy pm)\<rparr>"

text \<open>\<open>processEvent\<close>: the events the manager has subscribed to; it always goes on.\<close>

fun pm_handle :: "('k, 'p) policy \<Rightarrow> event \<Rightarrow> ('k, 'p, unit) pm_act" where
  "pm_handle pol (AddEvent a) = processAddEvent pol a"
| "pm_handle pol (RemoveEvent a) = processRemoveEvent pol a"
| "pm_handle pol TimerEvent = processTimerEvent pol"
| "pm_handle pol (MonitorEvent temps pw load) = processMonitorEvent pol load"
| "pm_handle pol (FeedbackEvent a fb) = processFeedbackEvent pol a fb"
| "pm_handle pol (SecurityEvent a sai factors labels) = processSecurityEvent pol a sai factors labels"
| "pm_handle pol (ClearEvent pid) = processClearEvent pol pid"
| "pm_handle pol _ = ret ()"

definition pm_processEvent :: "('k, 'p) policy \<Rightarrow> event \<Rightarrow> ('k, 'p, bool) pm_act" where
  "pm_processEvent pol ev = bnd (pm_handle pol ev) (\<lambda>_. ret True)"

text \<open>The events one after the other, as the receiver's thread takes them from its queue.\<close>

definition pm_events :: "('k, 'p) policy \<Rightarrow> event list \<Rightarrow> ('k, 'p, unit) pm_act" where
  "pm_events pol evs = for_each evs (\<lambda>ev. bnd (pm_processEvent pol ev) (\<lambda>_. ret ()))"

definition new_policy_manager :: "'p \<Rightarrow> 'p policy_manager" where
  "new_policy_manager p = \<lparr> pm_apps = [], pm_policy = p \<rparr>"

section \<open>The set of applications\<close>

definition pm_pids :: "'p policy_manager \<Rightarrow> int set" where
  "pm_pids pm = am_getPid ` set (pm_apps pm)"

text \<open>Which process ids an event adds and removes.\<close>

fun spec_pids :: "event \<Rightarrow> int set \<Rightarrow> int set" where
  "spec_pids (AddEvent a) P = insert (getPid a) P"
| "spec_pids (RemoveEvent a) P = P - {getPid a}"
| "spec_pids _ P = P"

definition pm_inv :: "('p \<Rightarrow> bool) \<Rightarrow> 'p policy_manager \<Rightarrow> bool" where
  "pm_inv I pm \<longleftrightarrow> ks_inv am_getPid (pm_apps pm) \<and> I (pm_policy pm)"

lemma pids_put_entry: "am_getPid ` set (put_entry am apps) = am_getPid ` set apps"
  using map_key_update [of am_getPid am "am_getPid am" apps] by (simp add: put_entry_def flip: set_map)

lemma inv_put_entry: "ks_inv am_getPid apps \<Longrightarrow> ks_inv am_getPid (put_entry am apps)"
  by (simp add: put_entry_def ks_inv_update)

text \<open>A policy call that honours the contract keeps the manager's invariant and its set.\<close>

definition pm_ok :: "('p \<Rightarrow> bool) \<Rightarrow> ('k, 'p, 'a) pm_act \<Rightarrow> (int set \<Rightarrow> int set) \<Rightarrow> bool" where
  "pm_ok I m f \<longleftrightarrow>
     (\<forall>k pm r k' pm'. pm_inv I pm \<longrightarrow> m (k, pm) = (r, (k', pm')) \<longrightarrow>
        pm_inv I pm' \<and> (isl r \<longrightarrow> pm_pids pm' \<in> {pm_pids pm, f (pm_pids pm)}) \<and>
        (\<not> isl r \<longrightarrow> pm_pids pm' = f (pm_pids pm)))"

lemma run_pol_ok:
  assumes "pol_ok I m" and "put = put_entry \<or> put = put_nowhere"
  shows "pm_ok I (run_pol put am m) (\<lambda>P. P)"
  unfolding pm_ok_def
proof (intro allI impI)
  fix k pm r k' pm'
  assume inv: "pm_inv I pm" and run: "run_pol put am m (k, pm) = (r, (k', pm'))"
  obtain am' p' where m: "m ((k, am), pm_policy pm) = (r, ((k', am'), p'))"
    and pm': "pm' = pm\<lparr>pm_policy := p', pm_apps := put am' (pm_apps pm)\<rparr>"
    using run by (auto simp: run_pol_def split: prod.splits)
  have "I p'" using pol_okD [OF assms(1) _ m] inv by (simp add: pm_inv_def)
  moreover have "pm_pids pm' = pm_pids pm" "ks_inv am_getPid (pm_apps pm')"
    using assms(2) inv pids_put_entry [of am' "pm_apps pm"] inv_put_entry [of "pm_apps pm" am']
    by (elim disjE; simp add: pm' pm_pids_def put_nowhere_def pm_inv_def)+
  ultimately show "pm_inv I pm' \<and> (isl r \<longrightarrow> pm_pids pm' \<in> {pm_pids pm, pm_pids pm}) \<and>
      (\<not> isl r \<longrightarrow> pm_pids pm' = pm_pids pm)"
    by (simp add: pm_inv_def pm')
qed

lemma pm_okD:
  assumes "pm_ok I m f" and "pm_inv I pm" and "m (k, pm) = (r, (k', pm'))"
  shows "pm_inv I pm'" and "isl r \<Longrightarrow> pm_pids pm' \<in> {pm_pids pm, f (pm_pids pm)}"
    and "\<not> isl r \<Longrightarrow> pm_pids pm' = f (pm_pids pm)"
  using assms unfolding pm_ok_def by blast+

lemma pm_ok_modify:
  "(\<And>pm. pm_inv I pm \<Longrightarrow> pm_inv I (g pm) \<and> pm_pids (g pm) = f (pm_pids pm)) \<Longrightarrow>
     pm_ok I (modify (\<lambda>(k, pm). (k, g pm))) f"
  by (auto simp: pm_ok_def act_defs)

lemma pm_ok_ret: "pm_ok I (ret x) (\<lambda>P. P)"
  by (auto simp: pm_ok_def act_defs)

text \<open>A handler that looks its application up and does nothing when there is none.\<close>

lemma pm_ok_lookup:
  assumes "\<And>am. pm_ok I (m am) f" and "\<And>P. pid \<notin> P \<Longrightarrow> f P = P"
  shows "pm_ok I (bnd (find_app pid) (\<lambda>it. case it of None \<Rightarrow> ret () | Some am \<Rightarrow> m am)) f"
  unfolding pm_ok_def
proof (intro allI impI)
  fix k pm r k' pm'
  assume inv: "pm_inv I pm"
    and run: "bnd (find_app pid) (\<lambda>it. case it of None \<Rightarrow> ret () | Some am \<Rightarrow> m am) (k, pm) = (r, (k', pm'))"
  show "pm_inv I pm' \<and> (isl r \<longrightarrow> pm_pids pm' \<in> {pm_pids pm, f (pm_pids pm)}) \<and> (\<not> isl r \<longrightarrow> pm_pids pm' = f (pm_pids pm))"
  proof (cases "ks_find am_getPid pid (pm_apps pm)")
    case None
    with run inv assms(2) [of "pm_pids pm"] show ?thesis
      by (auto simp: find_app_def act_defs pm_pids_def)
  next
    case (Some am)
    with run have "m am (k, pm) = (r, (k', pm'))" by (simp add: find_app_def act_defs)
    with pm_okD [OF assms(1) inv this] show ?thesis by blast
  qed
qed

lemma pids_insert: "am_getPid ` set (ks_insert am_getPid am apps) = insert (am_getPid am) (am_getPid ` set apps)"
  by (rule keys_ks_insert)

lemma am_getPid_new [simp]: "am_getPid (new_app_mapping a) = getPid a"
  by (simp add: am_getPid_def new_app_mapping_def)

lemma keys_ks_erase: "key ` set (ks_erase key k xs) = key ` set xs - {k}"
  by (auto simp: set_ks_erase)

lemma spec_pids_fun:
  "spec_pids (AddEvent a) = insert (getPid a)" "spec_pids (RemoveEvent a) = (\<lambda>P. P - {getPid a})"
  "spec_pids (FeedbackRequestEvent p ns f) = (\<lambda>P. P)" "spec_pids (AddRequestEvent a) = (\<lambda>P. P)"
  "spec_pids (FeedbackEvent a f) = (\<lambda>P. P)" "spec_pids (SecurityEvent a sai factors labels) = (\<lambda>P. P)"
  "spec_pids (ClearEvent p) = (\<lambda>P. P)" "spec_pids TimerEvent = (\<lambda>P. P)" "spec_pids (MonitorEvent ts pw l) = (\<lambda>P. P)"
  "spec_pids (ForkEvent d) = (\<lambda>P. P)" "spec_pids (ExecEvent d) = (\<lambda>P. P)" "spec_pids (ExitEvent d) = (\<lambda>P. P)"
  by (rule ext; simp)+

lemma pm_events_Cons:
  "pm_events pol (ev # evs) = bnd (pm_handle pol ev) (\<lambda>_. pm_events pol evs)"
  by (simp add: pm_events_def pm_processEvent_def bnd_assoc)

text \<open>The manager over any policy that honours the contract.\<close>

locale managed_policy = policy_contract pol inv
  for pol :: "('k, 'p) policy" and inv :: "'p \<Rightarrow> bool"
begin

lemma add_ok: "pm_ok inv (processAddEvent pol a) (insert (getPid a))"
  unfolding pm_ok_def
proof (intro allI impI)
  fix k pm r k' pm'
  assume i: "pm_inv inv pm" and run: "processAddEvent pol a (k, pm) = (r, (k', pm'))"
  define pm1 where "pm1 = pm\<lparr>pm_apps := ks_insert am_getPid (new_app_mapping a) (pm_apps pm)\<rparr>"
  define put where "put = (if ks_find am_getPid (getPid a) (pm_apps pm) = None then put_entry else put_nowhere)"
  have "run_pol put (new_app_mapping a) (pol_addApp pol (pm_apps pm1)) (k, pm1) = (r, (k', pm'))"
    using run by (simp add: processAddEvent_def find_app_def upd_apps_def act_defs pm1_def put_def Let_def)
  moreover have "pm_inv inv pm1" "pm_pids pm1 = insert (getPid a) (pm_pids pm)"
    using i by (simp_all add: pm1_def pm_inv_def pm_pids_def ks_inv_insert pids_insert)
  moreover have "pm_ok inv (run_pol put (new_app_mapping a) (pol_addApp pol (pm_apps pm1))) (\<lambda>P. P)"
    by (rule run_pol_ok [OF addApp_ok]) (simp add: put_def)
  ultimately show "pm_inv inv pm' \<and> (isl r \<longrightarrow> pm_pids pm' \<in> {pm_pids pm, insert (getPid a) (pm_pids pm)}) \<and>
      (\<not> isl r \<longrightarrow> pm_pids pm' = insert (getPid a) (pm_pids pm))"
    using pm_okD by fastforce
qed

lemma remove_ok: "pm_ok inv (processRemoveEvent pol a) (\<lambda>P. P - {getPid a})"
  unfolding processRemoveEvent_def
proof (rule pm_ok_lookup)
  fix am
  show "pm_ok inv (bnd (run_pol put_entry am (pol_removeApp pol)) (\<lambda>_. upd_apps (ks_erase am_getPid (getPid a))))
      (\<lambda>P. P - {getPid a})"
    unfolding pm_ok_def
  proof (intro allI impI)
    fix k pm r k' pm'
    assume i: "pm_inv inv pm"
      and run: "bnd (run_pol put_entry am (pol_removeApp pol)) (\<lambda>_. upd_apps (ks_erase am_getPid (getPid a))) (k, pm) = (r, (k', pm'))"
    obtain r1 k1 pm1 where m: "run_pol put_entry am (pol_removeApp pol) (k, pm) = (r1, (k1, pm1))"
      by (metis prod.collapse)
    note ok = pm_okD [OF run_pol_ok [OF removeApp_ok disjI1 [OF refl]] i m]
    show "pm_inv inv pm' \<and> (isl r \<longrightarrow> pm_pids pm' \<in> {pm_pids pm, pm_pids pm - {getPid a}}) \<and>
        (\<not> isl r \<longrightarrow> pm_pids pm' = pm_pids pm - {getPid a})"
    proof (cases r1)
      case (Inl e)
      with m run have "r = Inl e" "pm' = pm1" by (simp_all add: bnd_def)
      with ok Inl show ?thesis by auto
    next
      case (Inr u)
      with m run have "r = Inr ()" "pm' = pm1\<lparr>pm_apps := ks_erase am_getPid (getPid a) (pm_apps pm1)\<rparr>"
        by (simp_all add: bnd_def upd_apps_def act_defs)
      with ok Inr show ?thesis
        by (simp add: pm_inv_def pm_pids_def ks_inv_erase keys_ks_erase)
    qed
  qed
qed auto

lemma handle_ok: "pm_ok inv (pm_handle pol ev) (spec_pids ev)"
proof (cases ev)
  case (AddEvent a)
  then show ?thesis using add_ok by (simp add: spec_pids_fun)
next
  case (RemoveEvent a)
  then show ?thesis using remove_ok by (simp add: spec_pids_fun)
next
  case TimerEvent
  then show ?thesis
    by (auto simp: processTimerEvent_def pm_inv_def pm_pids_def timer_ok intro!: pm_ok_modify)
next
  case (MonitorEvent ts pw l)
  then show ?thesis
    by (auto simp: processMonitorEvent_def pm_inv_def pm_pids_def monitor_ok intro!: pm_ok_modify)
next
  case (FeedbackEvent a fb)
  then show ?thesis
    by (auto simp: processFeedbackEvent_def spec_pids_fun intro!: pm_ok_lookup run_pol_ok feedback_ok)
next
  case (SecurityEvent a sai factors labels)
  then show ?thesis
    by (auto simp: processSecurityEvent_def spec_pids_fun intro!: pm_ok_lookup run_pol_ok securityAlert_ok)
next
  case (ClearEvent pid)
  then show ?thesis
    by (auto simp: processClearEvent_def spec_pids_fun intro!: pm_ok_lookup run_pol_ok clearApp_ok)
qed (simp_all add: pm_ok_ret spec_pids_fun)

text \<open>Over a whole run the manager keeps exactly the applications added and not removed.\<close>

lemma events_ok:
  "pm_inv inv pm \<Longrightarrow> pm_events pol evs (k, pm) = (r, (k', pm')) \<Longrightarrow>
     pm_inv inv pm' \<and> (\<not> isl r \<longrightarrow> pm_pids pm' = fold spec_pids evs (pm_pids pm))"
proof (induction evs arbitrary: k pm)
  case Nil
  then show ?case by (simp add: pm_events_def act_defs)
next
  case (Cons ev evs)
  obtain r1 k1 pm1 where m: "pm_handle pol ev (k, pm) = (r1, (k1, pm1))" by (metis prod.collapse)
  note ok = pm_okD [OF handle_ok Cons.prems(1) m]
  show ?case
  proof (cases r1)
    case (Inl e)
    with m Cons.prems(2) have "r = Inl e" "pm' = pm1" by (simp_all add: pm_events_Cons bnd_def)
    with ok(1) show ?thesis by simp
  next
    case (Inr u)
    with m Cons.prems(2) have "pm_events pol evs (k1, pm1) = (r, (k', pm'))"
      by (simp add: pm_events_Cons bnd_def)
    from Cons.IH [OF ok(1) this] ok(3) Inr show ?thesis by simp
  qed
qed

end

end
