(* ===== verification/Managers.thy ===== *)
theory Managers
  imports PuPolicies SecurityAware PolicyManager
begin

text \<open>
  The policy manager over each of the five policies: the interface of \<open>PolicyManager\<close> is
  interpreted on every policy the program can be configured with.
\<close>

interpretation no_manager: managed_policy NoPolicy "\<lambda>_. True"
  by unfold_locales

interpretation rand_manager: managed_policy "RandPolicy pf topology" "\<lambda>_. True"
  by unfold_locales

interpretation pp_manager: managed_policy "PuProgressivePolicy pf topology" "one_counter_each topology"
  by unfold_locales

interpretation mc_manager: managed_policy "MinCoresPolicy pf topology" "one_counter_each topology"
  by unfold_locales

interpretation sa_manager: managed_policy "SecurityAwarePolicy pf topology" "sa_inv topology"
  by unfold_locales

lemma new_manager:
  "I p \<Longrightarrow> pm_inv I (new_policy_manager p)" "pm_pids (new_policy_manager p) = {}"
  by (simp_all add: pm_inv_def new_policy_manager_def pm_pids_def)

end
