(* ===== verification/ControlFiles.thy ===== *)
theory ControlFiles
  imports Controllers
begin

text \<open>
  The way through the control files: what a setter of a controller writes, its getter reads
  back from the kernel. The kernel is a parameter, and it does not echo every text: it may refuse
  one, print a list of units in its own normal form, or round a number. So its part of the
  bargain is \<open>file_shows\<close>, a property of one file and one text, and \<open>shows_units\<close> for the lists of
  units; the lemmas say for which applications and files the program's part holds.
\<close>

section \<open>The file of an application\<close>

definition control_path :: "('k, 'm) platform_scheme \<Rightarrow> int \<Rightarrow> string \<Rightarrow> string" where
  "control_path pf pid fileName = make_path (getCgroupKonroAppDir pf pid) fileName"

text \<open>
  A text that the kernel accepts for a control file, and what the file shows then: after the
  write it is a regular file whose only line is \<open>shown\<close>, and looking at it changes nothing.
\<close>

definition file_shows :: "('k, 'm) platform_scheme \<Rightarrow> string \<Rightarrow> string \<Rightarrow> string \<Rightarrow> bool" where
  "file_shows pf path text shown \<longleftrightarrow>
     (\<forall>k k'. os_write pf path text k = (True, k') \<longrightarrow>
        os_stat pf path k' = (Some Regular, k') \<and> os_read pf path k' = (Some (shown @ [NEWLINE]), k'))"

lemma file_showsD:
  "file_shows pf path text shown \<Longrightarrow> os_write pf path text k = (True, k') \<Longrightarrow>
     os_stat pf path k' = (Some Regular, k') \<and> os_read pf path k' = (Some (shown @ [NEWLINE]), k')"
  unfolding file_shows_def by blast

text \<open>
  The list format of the kernel: ranges with commas between them. Of a list of ranges that are
  not empty, in any order, overlapping or not, whose units all exist, the kernel keeps the set,
  and shows its canonical list.
\<close>

definition cpulist :: "cpuset_vector \<Rightarrow> string" where
  "cpulist v = join (CHR '','') (map show_range v)"

definition unit_ranges :: "cpuset_vector \<Rightarrow> bool" where
  "unit_ranges v \<longleftrightarrow> v \<noteq> [] \<and> pu_range v \<and> (\<forall>p\<in>set v. fst p \<le> snd p)"

definition shows_units :: "('k, 'm) platform_scheme \<Rightarrow> string \<Rightarrow> int set \<Rightarrow> bool" where
  "shows_units pf path existing \<longleftrightarrow>
     (\<forall>v w. unit_ranges v \<and> pus_of v \<subseteq> existing \<and> canonical w \<and> pus_of w = pus_of v \<longrightarrow>
        file_shows pf path (cpulist v) (cpulist w))"

section \<open>A value set is the line read\<close>

lemma setValue_path:
  "\<not> doNotMoveApp pf app \<Longrightarrow> setValue pf c file text app
     = bnd (checkActivateController pf c file (getCgroupKonroAppDir pf (getPid app)))
         (\<lambda>_. writeValue pf file text (getCgroupKonroAppDir pf (getPid app)))"
  by (simp add: setValue_def getCgroupAppDir_def)

lemma writeValue_Inr:
  "writeValue pf file text dir k = (Inr u, k') \<longleftrightarrow> os_write pf (make_path dir file) text k = (True, k')"
  by (auto simp: writeValue_def Let_def act_defs throwCouldNotOpenFile_def split: prod.splits)

lemma first_line_written: "NEWLINE \<notin> set text \<Longrightarrow> first_line (text @ [NEWLINE]) = text"
  by (simp add: first_line_def takeWhile_append)

lemma set_get_line:
  assumes app: "\<not> doNotMoveApp pf app" and fl: "file_shows pf (control_path pf (getPid app) file) text shown"
    and nl: "NEWLINE \<notin> set shown"
  shows "bnd (setValue pf c file text app) (\<lambda>_. cg_getLine pf c' file app)
    = bnd (setValue pf c file text app) (\<lambda>_. ret shown)"
proof
  fix k
  let ?dir = "getCgroupKonroAppDir pf (getPid app)"
  show "bnd (setValue pf c file text app) (\<lambda>_. cg_getLine pf c' file app) k
      = bnd (setValue pf c file text app) (\<lambda>_. ret shown) k"
  proof (rule bnd_cong_Inr)
    fix u t
    assume "setValue pf c file text app k = (Inr u, t)"
    then obtain k1 where "writeValue pf file text ?dir k1 = (Inr u, t)"
      using setValue_path [OF app] by (auto elim: bnd_InrE)
    then have "os_write pf (make_path ?dir file) text k1 = (True, t)" by (simp add: writeValue_Inr)
    from file_showsD [OF _ this] fl
    have "os_stat pf (make_path ?dir file) t = (Some Regular, t)"
      and "os_read pf (make_path ?dir file) t = (Some (shown @ [NEWLINE]), t)"
      by (simp_all add: control_path_def)
    then show "cg_getLine pf c' file app t = ret shown t"
      using app first_line_written [OF nl]
      by (simp add: cg_getLine_def getCgroupAppDir_def checkActivateController_def file_exists_def
          util_getLine_def Let_def act_defs)
  qed
qed

text \<open>The same for a parsed line, for every format of a control file.\<close>

lemma set_get_parsed:
  assumes "\<not> doNotMoveApp pf app" and "file_shows pf (control_path pf (getPid app) file) text shown"
    and "NEWLINE \<notin> set shown" and "parse shown = Inr v"
  shows "bnd (setValue pf c file text app) (\<lambda>_. bnd (cg_getLine pf c' file app) (\<lambda>line. lift_result (parse line)))
    = bnd (setValue pf c file text app) (\<lambda>_. ret v)"
proof -
  have "bnd (setValue pf c file text app) (\<lambda>_. bnd (cg_getLine pf c' file app) (\<lambda>line. lift_result (parse line)))
      = bnd (bnd (setValue pf c file text app) (\<lambda>_. cg_getLine pf c' file app)) (\<lambda>line. lift_result (parse line))"
    by (simp add: bnd_assoc)
  also have "\<dots> = bnd (setValue pf c file text app) (\<lambda>_. lift_result (parse shown))"
    by (simp add: set_get_line [OF assms(1-3)] bnd_assoc)
  finally show ?thesis by (simp add: assms(4))
qed

text \<open>The units read back are the canonical vector of the set that was written.\<close>

lemma set_get_cpus:
  assumes "\<not> doNotMoveApp pf app" and "shows_units pf (control_path pf (getPid app) ''cpuset.cpus'') existing"
    and v: "unit_ranges v" "pus_of v \<subseteq> existing"
  shows "\<exists>w. toCpusetVector_set (toSet v) = Inr w \<and> canonical w \<and> toSet w = toSet v \<and> (canonical v \<longrightarrow> w = v) \<and>
    bnd (setCpus pf v app) (\<lambda>_. getCpus pf app) = bnd (setCpus pf v app) (\<lambda>_. ret w)"
proof -
  have r: "pu_range v" using v(1) by (simp add: unit_ranges_def)
  obtain w where w: "toCpusetVector_set (toSet v) = Inr w" "canonical w" "toSet w = toSet v" "pu_range w"
    using toCpusetVector_set_ok [OF is_pu_set_toSet [OF r]] by metis
  then have "pus_of w = pus_of v" by (metis toSet_props(2))
  then have "file_shows pf (control_path pf (getPid app) ''cpuset.cpus'') (cpulist v) (cpulist w)"
    using assms(2) v w(2) unfolding shows_units_def by blast
  then have fs: "file_shows pf (control_path pf (getPid app) ''cpuset.cpus'') (render_cpus v) (render_cpus w)"
    by (simp add: cpulist_def render_cpus_join)
  have "canonical v \<longrightarrow> w = v" using toCpusetVector_toSet [OF _ r] w(1) by auto
  moreover have "bnd (setCpus pf v app) (\<lambda>_. getCpus pf app) = bnd (setCpus pf v app) (\<lambda>_. ret w)"
    unfolding setCpus_def getCpus_def
    using shorts_canonical [OF w(2,4)] by (intro set_get_parsed [OF assms(1) fs]) (simp_all add: cpus.parse_render cpus.render_line)
  ultimately show ?thesis using w by blast
qed

lemma set_get_cpu_max:
  "\<not> doNotMoveApp pf app \<Longrightarrow> file_shows pf (control_path pf (getPid app) ''cpu.max'') (cpu_max_text v) (cpu_max_text v) \<Longrightarrow>
     cpu_percentage v \<Longrightarrow> bnd (cpu_setMax pf v app) (\<lambda>_. cpu_getMax pf app) = bnd (cpu_setMax pf v app) (\<lambda>_. ret v)"
  unfolding cpu_setMax_def cpu_getMax_def
  by (rule set_get_parsed) (auto simp: cpu_max.parse_render cpu_max.render_line)

lemma set_get_pids_max:
  "\<not> doNotMoveApp pf app \<Longrightarrow> file_shows pf (control_path pf (getPid app) ''pids.max'') (nv_show v) (nv_show v) \<Longrightarrow>
     bnd (pids_setMax pf v app) (\<lambda>_. pids_getMax pf app) = bnd (pids_setMax pf v app) (\<lambda>_. ret v)"
proof -
  assume "\<not> doNotMoveApp pf app" "file_shows pf (control_path pf (getPid app) ''pids.max'') (nv_show v) (nv_show v)"
  moreover have "pids_getMax pf app
      = bnd (cg_getLine pf ''pids'' ''pids.max'' app) (\<lambda>line. lift_result (Inr (nv_of_string line)))"
    by (simp add: pids_getMax_def)
  ultimately show ?thesis
    unfolding pids_setMax_def
    by (simp only:) (rule set_get_parsed, auto simp: nv.render_line nv.parse_render)
qed

end
