(* ===== verification/Containment.thy ===== *)
theory Containment
  imports Managers ControlFiles
begin

text \<open>
  What \<open>SecurityAwarePolicy\<close> and \<open>PolicyManager\<close> promise together of an application in
  quarantine: how it gets there and out again, that its mapping stays as it is whatever
  happens in between, and that nothing but an operator's clear can write the value that thaws
  it.
\<close>

section \<open>Into quarantine\<close>

lemma setFreeze_path:
  "\<not> doNotMoveApp pf app \<Longrightarrow> setFreeze pf b app
     = writeValue pf ''cgroup.freeze'' (if b then ''1'' else ''0'') (getCgroupKonroAppDir pf (getPid app))"
  by (simp add: setFreeze_def getCgroupAppDir_def)

definition freeze_path :: "('k, 'm) platform_scheme \<Rightarrow> app \<Rightarrow> string" where
  "freeze_path pf app = control_path pf (getPid app) ''cgroup.freeze''"

definition quarantined :: "app_mapping \<Rightarrow> bool" where
  "quarantined am \<longleftrightarrow> st_state (secState am) = QUARANTINE \<and> quarantine am"

lemma alert_quarantines:
  assumes "st_state (secState am) \<noteq> QUARANTINE" and "\<not> doNotMoveApp pf (am_app am)"
    and "target sai (sa_thresholds p) (tolOffset (securityLevel am)) = QUARANTINE"
    and "os_write pf (freeze_path pf (am_app am)) ''1'' k = (True, k')"
  shows "sa_securityAlert pf topology sai factors labels ((k, am), p)
    = (Inr (), ((k', am\<lparr>am_sai := sai, secState := \<lparr>st_state = QUARANTINE, belowCount = 0\<rparr>, quarantine := True\<rparr>), p))"
proof -
  have "step sai (sa_thresholds p) (tolOffset (securityLevel am)) (secState am)
      = \<lparr>st_state = QUARANTINE, belowCount = 0\<rparr>"
    using assms(1,3) by (cases "st_state (secState am)") (simp_all add: step_def sec_order)
  with assms show ?thesis
    by (simp add: sa_securityAlert_def apply_quarantine_def setFreeze_path writeValue_def freeze_path_def
        control_path_def Let_def act_defs)
qed

section \<open>In quarantine\<close>

lemma quarantined_alert:
  "quarantined am \<Longrightarrow> sa_securityAlert pf topology sai factors labels ((k, am), p)
     = (Inr (), ((k, am\<lparr>am_sai := sai\<rparr>), p))"
  by (simp add: quarantined_def sa_securityAlert_def act_defs step_quarantine)

lemma quarantined_feedback:
  "quarantined am \<Longrightarrow> sa_feedback pf fb ((k, am), p) = (Inr (), ((k, am), p))"
  by (simp add: quarantined_def sa_feedback_def act_defs)

text \<open>A process that the manager holds in quarantine.\<close>

definition holds_quarantined :: "int \<Rightarrow> 'p policy_manager \<Rightarrow> bool" where
  "holds_quarantined pid pm \<longleftrightarrow> (\<exists>am. ks_find am_getPid pid (pm_apps pm) = Some am \<and> quarantined am)"

text \<open>
  A call on the mapping of a process changes no other entry, and leaves a quarantined one
  quarantined if the call itself does.
\<close>

definition leaves_quarantined :: "('k, 'p, 'a) pol_act \<Rightarrow> bool" where
  "leaves_quarantined m \<longleftrightarrow> (\<forall>k am p. quarantined am \<longrightarrow> quarantined (snd (fst (snd (m ((k, am), p))))))"

lemma run_pol_quarantined:
  assumes "holds_quarantined pid pm" and "pol_ok I m" and "I (pm_policy pm)"
    and "am_getPid am = pid \<Longrightarrow> quarantined am \<and> leaves_quarantined m"
  shows "holds_quarantined pid (snd (snd (run_pol put_entry am m (k, pm))))"
proof -
  obtain r k' am' p' where m: "m ((k, am), pm_policy pm) = (r, ((k', am'), p'))" by (metis prod.collapse)
  have pid: "am_getPid am' = am_getPid am" using pol_okD [OF assms(2,3) m] by (simp add: am_getPid_def)
  have "quarantined am'" if "am_getPid am = pid"
    using assms(4) [OF that] m unfolding leaves_quarantined_def by (metis fst_conv snd_conv)
  with assms(1) pid show ?thesis
    by (auto simp: holds_quarantined_def run_pol_def m put_entry_def ks_find_update)
qed

lemma run_pol_nowhere:
  "holds_quarantined pid pm \<Longrightarrow> holds_quarantined pid (snd (snd (run_pol put_nowhere am m (k, pm))))"
  by (simp add: holds_quarantined_def run_pol_def put_nowhere_def split: prod.split)

lemma ends_lookup:
  "holds_quarantined pid pm \<Longrightarrow>
     (\<And>am. ks_find am_getPid pid' (pm_apps pm) = Some am \<Longrightarrow> holds_quarantined pid (snd (snd (m am (k, pm))))) \<Longrightarrow>
     holds_quarantined pid (snd (snd (bnd (find_app pid') (\<lambda>it. case it of None \<Rightarrow> ret () | Some am \<Rightarrow> m am) (k, pm))))"
  by (auto simp: find_app_def act_defs split: option.split)

lemma found_quarantined:
  "holds_quarantined pid pm \<Longrightarrow> ks_find am_getPid pid' (pm_apps pm) = Some am \<Longrightarrow> am_getPid am = pid \<Longrightarrow> quarantined am"
  using ks_find_Some [of am_getPid pid' "pm_apps pm" am] by (auto simp: holds_quarantined_def)

text \<open>The events that may end a quarantine.\<close>

fun ends_quarantine :: "int \<Rightarrow> event \<Rightarrow> bool" where
  "ends_quarantine pid (ClearEvent p) = (p = pid)"
| "ends_quarantine pid (RemoveEvent a) = (getPid a = pid)"
| "ends_quarantine pid _ = False"

abbreviation sa_pol :: "('k, 'm) platform_scheme \<Rightarrow> hw_obj \<Rightarrow> ('k, sa_state) policy" where
  "sa_pol \<equiv> SecurityAwarePolicy"

lemma sa_pol_simps:
  "pol_securityAlert (sa_pol pf topology) = sa_securityAlert pf topology"
  "pol_feedback (sa_pol pf topology) = sa_feedback pf"
  by (simp_all add: SecurityAwarePolicy_def)

lemma quarantined_sai [simp]:
  "quarantined (am\<lparr>am_sai := x\<rparr>) = quarantined am" "am_getPid (am\<lparr>am_sai := x\<rparr>) = am_getPid am"
  by (simp_all add: quarantined_def am_getPid_def)

lemma alert_leaves: "leaves_quarantined (sa_securityAlert pf topology sai factors labels)"
  by (auto simp: leaves_quarantined_def quarantined_alert)

lemma feedback_leaves: "leaves_quarantined (sa_feedback pf fb)"
  by (auto simp: leaves_quarantined_def quarantined_feedback)

lemma add_quarantined:
  assumes "pm_inv (sa_inv topology) pm" and q: "holds_quarantined pid pm"
  shows "holds_quarantined pid (snd (snd (processAddEvent (sa_pol pf topology) a (k, pm))))"
proof -
  define pm1 where "pm1 = pm\<lparr>pm_apps := ks_insert am_getPid (new_app_mapping a) (pm_apps pm)\<rparr>"
  have inv: "ks_inv am_getPid (pm_apps pm)" "sa_inv topology (pm_policy pm1)"
    using assms(1) by (simp_all add: pm_inv_def pm1_def)
  have q1: "holds_quarantined pid pm1"
    using q inv(1) ks_find_None [of am_getPid pid "pm_apps pm"]
    by (auto simp: holds_quarantined_def pm1_def ks_find_insert simp del: ks_find_None)
  let ?run = "\<lambda>put. run_pol put (new_app_mapping a) (pol_addApp (sa_pol pf topology) (pm_apps pm1)) (k, pm1)"
  have e: "processAddEvent (sa_pol pf topology) a (k, pm)
      = ?run (if ks_find am_getPid (getPid a) (pm_apps pm) = None then put_entry else put_nowhere)"
    by (simp add: processAddEvent_def find_app_def upd_apps_def act_defs pm1_def Let_def)
  show ?thesis
  proof (cases "ks_find am_getPid (getPid a) (pm_apps pm) = None")
    case True
    then have "getPid a \<noteq> pid" using q by (auto simp: holds_quarantined_def simp del: ks_find_None)
    with True show ?thesis
      unfolding e using run_pol_quarantined [OF q1 sa_policy.addApp_ok inv(2), of "new_app_mapping a" pf "pm_apps pm1" k] by simp
  next
    case False
    then show ?thesis unfolding e using run_pol_nowhere [OF q1] by (simp only: if_False)
  qed
qed

lemma remove_quarantined:
  assumes "pm_inv (sa_inv topology) pm" and q: "holds_quarantined pid pm" and "getPid a \<noteq> pid"
  shows "holds_quarantined pid (snd (snd (processRemoveEvent (sa_pol pf topology) a (k, pm))))"
  unfolding processRemoveEvent_def
proof (rule ends_lookup [OF q])
  fix am
  assume "ks_find am_getPid (getPid a) (pm_apps pm) = Some am"
  then have pid: "am_getPid am \<noteq> pid" using assms(3) by (auto dest: ks_find_Some)
  obtain r k1 pm1 where run: "run_pol put_entry am (pol_removeApp (sa_pol pf topology)) (k, pm) = (r, (k1, pm1))"
    by (metis prod.collapse)
  have "holds_quarantined pid pm1"
    using run_pol_quarantined [OF q sa_policy.removeApp_ok, of topology am pf k] assms(1) pid run
    by (simp add: pm_inv_def)
  then show "holds_quarantined pid (snd (snd (bnd (run_pol put_entry am (pol_removeApp (sa_pol pf topology)))
      (\<lambda>_. upd_apps (ks_erase am_getPid (getPid a))) (k, pm))))"
    using run assms(3) by (cases r) (auto simp: upd_apps_def act_defs holds_quarantined_def ks_find_erase)
qed

lemma handle_quarantined:
  assumes inv: "pm_inv (sa_inv topology) pm" and q: "holds_quarantined pid pm" and "\<not> ends_quarantine pid ev"
  shows "holds_quarantined pid (snd (snd (pm_handle (sa_pol pf topology) ev (k, pm))))"
proof -
  have i: "sa_inv topology (pm_policy pm)" using inv by (simp add: pm_inv_def)
  show ?thesis
  proof (cases ev)
    case (AddEvent a)
    then show ?thesis using add_quarantined [OF inv q] by simp
  next
    case (RemoveEvent a)
    then show ?thesis using remove_quarantined [OF inv q] assms(3) by simp
  next
    case (FeedbackEvent a fb)
    have "holds_quarantined pid (snd (snd (processFeedbackEvent (sa_pol pf topology) a fb (k, pm))))"
      unfolding processFeedbackEvent_def
      by (rule ends_lookup [OF q], rule run_pol_quarantined [OF q sa_policy.feedback_ok i])
        (auto simp: sa_pol_simps feedback_leaves dest: found_quarantined [OF q])
    with FeedbackEvent show ?thesis by simp
  next
    case (SecurityEvent a sai factors labels)
    have "holds_quarantined pid (snd (snd (processSecurityEvent (sa_pol pf topology) a sai factors labels (k, pm))))"
      unfolding processSecurityEvent_def
      by (rule ends_lookup [OF q], rule run_pol_quarantined [OF q sa_policy.securityAlert_ok i])
        (auto simp: sa_pol_simps alert_leaves dest: found_quarantined [OF q])
    with SecurityEvent show ?thesis by simp
  next
    case (ClearEvent p)
    then have "p \<noteq> pid" using assms(3) by simp
    then have "holds_quarantined pid (snd (snd (processClearEvent (sa_pol pf topology) p (k, pm))))"
      unfolding processClearEvent_def
      by (intro ends_lookup [OF q] run_pol_quarantined [OF q sa_policy.clearApp_ok i]) (auto dest: ks_find_Some)
    with ClearEvent show ?thesis by simp
  qed (use q in \<open>simp_all add: processTimerEvent_def processMonitorEvent_def act_defs holds_quarantined_def\<close>)
qed

lemma events_quarantined:
  "pm_inv (sa_inv topology) pm \<Longrightarrow> holds_quarantined pid pm \<Longrightarrow> \<forall>ev\<in>set evs. \<not> ends_quarantine pid ev \<Longrightarrow>
     holds_quarantined pid (snd (snd (pm_events (sa_pol pf topology) evs (k, pm))))"
proof (induction evs arbitrary: k pm)
  case Nil
  then show ?case by (simp add: pm_events_def act_defs)
next
  case (Cons ev evs)
  obtain r k1 pm1 where m: "pm_handle (sa_pol pf topology) ev (k, pm) = (r, (k1, pm1))" by (metis prod.collapse)
  have inv: "pm_inv (sa_inv topology) pm1"
    using pm_okD(1) [OF sa_manager.handle_ok Cons.prems(1) m] .
  have q: "holds_quarantined pid pm1"
    using handle_quarantined [OF Cons.prems(1,2), of ev pf k] Cons.prems(3) m by simp
  show ?case
  proof (cases r)
    case (Inl e)
    with m q show ?thesis by (simp add: pm_events_Cons bnd_def)
  next
    case (Inr u)
    with m Cons.IH [OF inv q, of k1] Cons.prems(3) show ?thesis
      by (simp add: pm_events_Cons bnd_def)
  qed
qed

section \<open>Frozen until cleared\<close>

text \<open>
  A property of the kernel that reads, and writes of anything but another value than \<open>1\<close> to
  a \<open>cgroup.freeze\<close> file, do not destroy: that a given cgroup is frozen is one.
\<close>

definition survives_all_but_thaw :: "('k, 'm) platform_scheme \<Rightarrow> ('k \<Rightarrow> bool) \<Rightarrow> bool" where
  "survives_all_but_thaw pf F \<longleftrightarrow>
     (\<forall>path txt k. F k \<longrightarrow>
        F (snd (os_read pf path k)) \<and> F (snd (os_stat pf path k)) \<and>
        ((\<forall>dir. path \<noteq> make_path dir ''cgroup.freeze'') \<or> txt = ''1'' \<longrightarrow> F (snd (os_write pf path txt k))))"

text \<open>The same without any write to such a file: what only a thaw or a freeze could destroy.\<close>

definition survives_other_files :: "('k, 'm) platform_scheme \<Rightarrow> ('k \<Rightarrow> bool) \<Rightarrow> bool" where
  "survives_other_files pf F \<longleftrightarrow>
     (\<forall>path txt k. F k \<longrightarrow>
        F (snd (os_read pf path k)) \<and> F (snd (os_stat pf path k)) \<and>
        ((\<forall>dir. path \<noteq> make_path dir ''cgroup.freeze'') \<longrightarrow> F (snd (os_write pf path txt k))))"

lemma not_freeze: "last f \<noteq> CHR ''e'' \<Longrightarrow> make_path d f \<noteq> make_path d' ''cgroup.freeze''"
proof
  assume f: "last f \<noteq> CHR ''e''" and "make_path d f = make_path d' ''cgroup.freeze''"
  from this(2) have "last (d @ CHR ''/'' # f) = last (d' @ CHR ''/'' # ''cgroup.freeze'')"
    by (simp only: make_path_def append_Cons append_Nil append_assoc)
  with f show False by (cases "f = []") (simp_all add: last_append)
qed

lemma keeps_sys: "(\<And>k. F k \<Longrightarrow> F (snd (f k))) \<Longrightarrow> keeps F (sys f)"
  by (auto simp: keeps_def sys_def split: prod.split) (metis snd_conv)

lemma keeps_option [keeps_intros]:
  "keeps I m \<Longrightarrow> (\<And>x. keeps I (f x)) \<Longrightarrow> keeps I (case v of None \<Rightarrow> m | Some x \<Rightarrow> f x)"
  by (cases v) simp_all

lemma keeps_prod [keeps_intros]: "(\<And>x y. keeps I (f x y)) \<Longrightarrow> keeps I (case p of (x, y) \<Rightarrow> f x y)"
  by (cases p) simp

named_theorems thaw_intros \<open>an action keeps what survives all but a thaw\<close>

lemma survives_others: "survives_all_but_thaw pf F \<Longrightarrow> survives_other_files pf F"
  unfolding survives_all_but_thaw_def survives_other_files_def by blast

lemma keeps_thaw_sys [thaw_intros]:
  assumes "survives_other_files pf F"
  shows "keeps F (sys (os_read pf path))" and "keeps F (sys (os_stat pf path))"
    and "last f \<noteq> CHR ''e'' \<Longrightarrow> keeps F (sys (os_write pf (make_path d f) txt))"
  using assms not_freeze [of f d] unfolding survives_other_files_def by (auto intro!: keeps_sys)

lemma keeps_thaw_one: "survives_all_but_thaw pf F \<Longrightarrow> keeps F (sys (os_write pf path ''1''))"
  unfolding survives_all_but_thaw_def by (auto intro!: keeps_sys)

lemma keeps_thaw_activate [thaw_intros]:
  "survives_other_files pf F \<Longrightarrow> keeps F (activate_loop pf c first cur ds)"
  by (induction pf c first cur ds rule: activate_loop.induct)
    (auto simp: throwCouldNotOpenFile_def Let_def intro!: keeps_intros thaw_intros)

lemma keeps_thaw_util [thaw_intros]:
  assumes "survives_other_files pf F"
  shows "keeps F (getCgroupAppDir pf app)" and "keeps F (checkActivateController pf c file dir)"
    and "last file \<noteq> CHR ''e'' \<Longrightarrow> keeps F (writeValue pf file txt dir)"
    and "keeps F (util_getLine pf file dir)"
  using assms
  by (auto simp: getCgroupAppDir_def findCgroupPath_def checkActivateController_def file_exists_def
      activateController_def writeValue_def util_getLine_def throwCouldNotOpenFile_def Let_def
      intro!: keeps_intros thaw_intros split: option.split)

lemma keeps_thaw_freeze:
  assumes "survives_all_but_thaw pf F"
  shows "keeps F (setFreeze pf True app)"
proof -
  have "keeps F (writeValue pf f ''1'' dir)" for f dir
    by (auto simp: writeValue_def throwCouldNotOpenFile_def Let_def intro!: keeps_intros keeps_thaw_one [OF assms])
  moreover have "keeps F (getCgroupAppDir pf app)" using survives_others [OF assms] by (rule keeps_thaw_util)
  ultimately show ?thesis by (auto simp: setFreeze_def intro!: keeps_intros)
qed

lemma keeps_thaw_cgroup [thaw_intros]:
  assumes "survives_other_files pf F"
  shows "last file \<noteq> CHR ''e'' \<Longrightarrow> keeps F (setValue pf c file txt app)"
    and "keeps F (cg_getLine pf c file app)" and "keeps F (getValueAsInt pf c file app)"
  using assms
  by (auto simp: setValue_def cg_getLine_def getValueAsInt_def intro!: keeps_intros thaw_intros)

lemma keeps_thaw_controllers [thaw_intros]:
  assumes "survives_other_files pf F"
  shows "keeps F (setCpus pf v app)" and "keeps F (getCpusEffective pf app)" and "keeps F (cpu_setMax pf n app)"
    and "keeps F (cpu_getMax pf app)" and "keeps F (pids_setMax pf n app)" and "keeps F (pids_getCurrent pf app)"
  using assms
  by (auto simp: setCpus_def getCpusEffective_def cpu_setMax_def cpu_getMax_def pids_setMax_def pids_getCurrent_def
      intro!: keeps_intros thaw_intros)

text \<open>On a mapping, where the property is one of the kernel's half of the state.\<close>

lemma keeps_ctl [keeps_intros]: "(\<And>a. keeps F (f a)) \<Longrightarrow> keeps (\<lambda>s. F (fst s)) (ctl f)"
  by (auto simp: keeps_def ctl_def on_fst_def split: prod.split) (metis snd_conv)

lemma keeps_am [keeps_intros]: "keeps (\<lambda>s. F (fst s)) (am_upd g)" "keeps (\<lambda>s. F (fst s)) (am_get h)"
  by (auto simp: keeps_def act_defs)

lemma keeps_thaw_mapping [thaw_intros]:
  assumes "survives_other_files pf F"
  shows "keeps (\<lambda>s. F (fst s)) (getPuVector pf)" and "keeps (\<lambda>s. F (fst s)) (setPuVector pf v)"
    and "keeps (\<lambda>s. F (fst s)) (getCpuMax pf)" and "keeps (\<lambda>s. F (fst s)) (setCpuMax pf n)"
    and "keeps (\<lambda>s. F (fst s)) (getCurrentPids pf)" and "keeps (\<lambda>s. F (fst s)) (setMaxPids pf n)"
  using assms
  by (auto simp: getPuVector_def setPuVector_def getCpuMax_def setCpuMax_def getCurrentPids_def setMaxPids_def
      intro!: keeps_intros thaw_intros)

lemma keeps_thaw_quota [thaw_intros]:
  assumes "survives_other_files pf F"
  shows "keeps (\<lambda>s. F (fst s)) (increaseCPUquota pf r)" and "keeps (\<lambda>s. F (fst s)) (decreaseCPUquota pf r)"
  using assms
  by (auto simp: increaseCPUquota_def decreaseCPUquota_def Let_def intro!: keeps_intros thaw_intros)

text \<open>Under the policy.\<close>

lemma keeps_pol [keeps_intros]:
  "keeps (\<lambda>s. F (fst s)) m \<Longrightarrow> keeps (\<lambda>s. F (fst (fst s))) (on_fst m)"
  "keeps (\<lambda>s. F (fst (fst s))) (pol_get f)" "keeps (\<lambda>s. F (fst (fst s))) (pol_upd g)"
  by (auto simp: keeps_def act_defs split: prod.split) (metis fst_conv snd_conv)

lemma keeps_thaw_observe [thaw_intros]:
  "survives_other_files pf F \<Longrightarrow> keeps (\<lambda>s. F (fst (fst s))) (apply_observe pf topology)"
  by (auto simp: apply_observe_def Let_def intro!: keeps_intros thaw_intros)

lemma keeps_thaw_applyState [thaw_intros]:
  assumes "survives_all_but_thaw pf F"
  shows "keeps (\<lambda>s. F (fst (fst s))) (applyState pf topology st)"
  using survives_others [OF assms] keeps_thaw_freeze [OF assms]
  by (cases st)
    (auto simp: apply_throttle_def apply_restrict_def apply_quarantine_def Let_def
      intro!: keeps_intros thaw_intros)

lemma keeps_thaw_policy [thaw_intros]:
  assumes "survives_all_but_thaw pf F"
  shows "keeps (\<lambda>s. F (fst (fst s))) (sa_addApp pf apps)"
    and "keeps (\<lambda>s. F (fst (fst s))) (sa_removeApp pf)"
    and "keeps (\<lambda>s. F (fst (fst s))) (sa_feedback pf fb)"
    and "keeps (\<lambda>s. F (fst (fst s))) (sa_securityAlert pf topology sai factors labels)"
  using assms survives_others [OF assms]
  by (auto simp: sa_addApp_def sa_removeApp_def sa_feedback_def sa_grow_def sa_securityAlert_def sa_assign_def
      sa_count_up_def Let_def simp del: applyState.simps intro!: keeps_intros thaw_intros)

lemma keeps_run_pol [keeps_intros]:
  "keeps (\<lambda>s. F (fst (fst s))) m \<Longrightarrow> keeps (\<lambda>s. F (fst s)) (run_pol put am m)"
  by (auto simp: keeps_def run_pol_def split: prod.split) (metis fst_conv snd_conv)

lemma keeps_pm [keeps_intros]:
  "keeps (\<lambda>s. F (fst s)) (find_app pid)" "keeps (\<lambda>s. F (fst s)) (upd_apps f)"
  "keeps (\<lambda>s. F (fst s)) (modify (\<lambda>(k, pm). (k, g pm)))" "keeps (\<lambda>s. F (fst s)) (gets h)"
  "keeps (\<lambda>s. F (fst s)) (modify id)"
  by (auto simp: keeps_def find_app_def upd_apps_def act_defs)

fun is_clear :: "event \<Rightarrow> bool" where
  "is_clear (ClearEvent pid) = True"
| "is_clear _ = False"

lemma keeps_thaw_handle:
  assumes "survives_all_but_thaw pf F" and "\<not> is_clear ev"
  shows "keeps (\<lambda>s. F (fst s)) (pm_handle (sa_pol pf topology) ev)"
  using assms
  by (cases ev)
    (auto simp: processAddEvent_def processRemoveEvent_def processTimerEvent_def processMonitorEvent_def
      processFeedbackEvent_def processSecurityEvent_def SecurityAwarePolicy_def Let_def
      intro!: keeps_intros thaw_intros)

lemma keeps_thaw_events:
  "survives_all_but_thaw pf F \<Longrightarrow> \<forall>ev\<in>set evs. \<not> is_clear ev \<Longrightarrow>
     keeps (\<lambda>s. F (fst s)) (pm_events (sa_pol pf topology) evs)"
proof (induction evs)
  case Nil
  then show ?case by (simp add: pm_events_def keeps_ret)
next
  case (Cons ev evs)
  then show ?case by (auto simp: pm_events_Cons intro!: keeps_bnd keeps_thaw_handle)
qed

section \<open>Out of quarantine\<close>

lemma clear_thaws:
  assumes "\<not> doNotMoveApp pf (am_app am)" and "os_write pf (freeze_path pf (am_app am)) ''0'' k = (True, k')"
  shows "sa_clearApp pf topology ((k, am), p)
    = apply_observe pf topology ((k', am\<lparr>secState := clear (secState am), quarantine := False, am_sai := Fin 0\<rparr>), p)"
  using assms
  by (cases am) (simp add: sa_clearApp_def setFreeze_path writeValue_def freeze_path_def control_path_def Let_def act_defs)

lemma clear_new: "clear (secState am) = new_tracker"
  by (cases "secState am") (simp add: clear_def new_tracker_def)

text \<open>What the clear resets stays reset while the restrictions are lifted.\<close>

lemma keeps_object:
  "keeps (\<lambda>s. Q (snd s)) (ctl g)" "(\<And>am. Q am \<Longrightarrow> Q (f am)) \<Longrightarrow> keeps (\<lambda>s. Q (snd s)) (am_upd f)"
  "keeps (\<lambda>s. Q (snd s)) m \<Longrightarrow> keeps (\<lambda>s. Q (snd (fst s))) (on_fst m)" "keeps (\<lambda>s. Q (snd (fst s))) (pol_get h)"
  "keeps (\<lambda>s. Q (snd s)) (am_get h')"
  by (auto simp: keeps_def act_defs split: prod.split) (metis fst_conv snd_conv)

definition reset_mapping :: "app_mapping \<Rightarrow> bool" where
  "reset_mapping am \<longleftrightarrow> secState am = new_tracker \<and> \<not> quarantine am \<and> am_sai am = Fin 0"

lemma observe_reset: "keeps (\<lambda>s. reset_mapping (snd (fst s))) (apply_observe pf topology)"
  unfolding apply_observe_def setCpuMax_def setMaxPids_def setPuVector_def
  by (intro keeps_bnd keeps_if keeps_ret keeps_object) (simp_all add: reset_mapping_def)

lemma clear_resets:
  assumes "\<not> doNotMoveApp pf (am_app am)" and "os_write pf (freeze_path pf (am_app am)) ''0'' k = (True, k')"
  shows "reset_mapping (snd (fst (snd (sa_clearApp pf topology ((k, am), p)))))"
  unfolding clear_thaws [OF assms]
  by (rule keepsD [OF observe_reset]) (simp add: reset_mapping_def clear_new)

text \<open>And the thaw stays: nothing writes to a \<open>cgroup.freeze\<close> file after it.\<close>

lemma clear_stays_thawed:
  assumes "\<not> doNotMoveApp pf (am_app am)" and "os_write pf (freeze_path pf (am_app am)) ''0'' k = (True, k')"
    and "survives_other_files pf F" and "F k'"
  shows "F (fst (fst (snd (sa_clearApp pf topology ((k, am), p)))))"
  unfolding clear_thaws [OF assms(1,2)]
  by (rule keepsD [OF keeps_thaw_observe [OF assms(3)]]) (simp add: assms(4))

end
