(* ===== verification/SecurityMonitor.thy ===== *)
theory SecurityMonitor
  imports Controllers Sai Events
begin

text \<open>
  \<open>rm/securitymonitor/securitymonitor.{h,cpp}\<close>: the component that samples the processes of
  every managed application, compares what it sees with a moving baseline of that application,
  and publishes an anomaly index. Its state is the set of applications, a baseline for each
  process id, and the events it has published. What it reads of \<open>/proc\<close> and of the control
  files comes from the kernel, which may give another answer at every call.
\<close>

section \<open>Reading /proc\<close>

record 'k mon_platform = "'k platform" +
  os_readlink :: "string \<Rightarrow> 'k \<Rightarrow> string option \<times> 'k"

text \<open>The text after the last of a character; \<open>rfind\<close> and \<open>substr\<close>.\<close>

definition after_last :: "char \<Rightarrow> string \<Rightarrow> string option" where
  "after_last c s = (if c \<in> set s then Some (rev (takeWhile (\<lambda>x. x \<noteq> c) (rev s))) else None)"

text \<open>The next \<open>n\<close> words of a line and the rest of it.\<close>

fun read_words :: "nat \<Rightarrow> string \<Rightarrow> (string list \<times> string) option" where
  "read_words 0 s = Some ([], s)"
| "read_words (Suc n) s =
     (case read_word s of
        None \<Rightarrow> None
      | Some (w, rest) \<Rightarrow> (case read_words n rest of None \<Rightarrow> None | Some (ws, r) \<Rightarrow> Some (w # ws, r)))"

definition parse_starttime :: "string \<Rightarrow> 64 word" where
  "parse_starttime line =
     (case after_last (CHR '')'') line of
        None \<Rightarrow> 0
      | Some s \<Rightarrow>
          (case read_words 19 s of
             None \<Rightarrow> 0
           | Some (_, rest) \<Rightarrow> (case read_u64 rest of None \<Rightarrow> 0 | Some (st, _) \<Rightarrow> st)))"

definition getProcessStarttime :: "('k, 'm) platform_scheme \<Rightarrow> int \<Rightarrow> ('k, 64 word) act" where
  "getProcessStarttime pf pid =
     bnd (sys (os_read pf (proc_path pid ''stat''))) (\<lambda>r.
       ret (case r of None \<Rightarrow> 0 | Some txt \<Rightarrow> parse_starttime (first_line txt)))"

definition verifyStarttime :: "('k, 'm) platform_scheme \<Rightarrow> int \<Rightarrow> 64 word \<Rightarrow> ('k, bool) act" where
  "verifyStarttime pf pid expected =
     (if expected = 0 then ret True
      else bnd (getProcessStarttime pf pid) (\<lambda>st. ret (st = expected)))"

text \<open>A process with the start time it had when the cgroup was read.\<close>

type_synonym pid_sample = "int \<times> 64 word"

fun sample_lines :: "('k, 'm) platform_scheme \<Rightarrow> string list \<Rightarrow> ('k, pid_sample list) act" where
  "sample_lines pf [] = ret []"
| "sample_lines pf (line # ls) =
     (let pid = to_int32 (fst (strtol line)) in
      if line \<noteq> [] \<and> pid > 0
      then bnd (getProcessStarttime pf pid) (\<lambda>st.
           bnd (sample_lines pf ls) (\<lambda>ps. ret ((pid, st) # ps)))
      else sample_lines pf ls)"

definition getCgroupPids :: "('k, 'm) platform_scheme \<Rightarrow> app \<Rightarrow> ('k, pid_sample list) act" where
  "getCgroupPids pf app =
     bnd (cg_getContent pf ''pids'' ''cgroup.procs'' app) (\<lambda>ls. sample_lines pf ls)"

text \<open>
  The socket inode that a link of a \<open>/proc/<pid>/fd\<close> directory names; the link is read into a
  buffer of 128 bytes.
\<close>

definition socket_inode :: "string option \<Rightarrow> 64 word option" where
  "socket_inode link =
     (case link of
        None \<Rightarrow> None
      | Some txt \<Rightarrow>
          (let t = take 127 txt; inode = fst (strtoull (drop 8 t)) in
           if take 8 t = ''socket:['' \<and> inode > 0 then Some inode else None))"

fun fd_links :: "('k, 'm) mon_platform_scheme \<Rightarrow> string \<Rightarrow> string list \<Rightarrow> ('k, 64 word list) act" where
  "fd_links pf dir [] = ret []"
| "fd_links pf dir (d # ds) =
     bnd (sys (os_readlink pf (make_path dir d))) (\<lambda>link.
     bnd (fd_links pf dir ds) (\<lambda>inodes.
     ret (case socket_inode link of None \<Rightarrow> inodes | Some i \<Rightarrow> i # inodes)))"

text \<open>
  \<open>socketInodeToPid\<close>: the caller only uses the inodes, so the process each belongs to is left
  out of the result.
\<close>

fun socketInodes :: "('k, 'm) mon_platform_scheme \<Rightarrow> pid_sample list \<Rightarrow> ('k, 64 word list) act" where
  "socketInodes pf [] = ret []"
| "socketInodes pf ((pid, st) # ps) =
     bnd (verifyStarttime pf pid st) (\<lambda>same.
     bnd (if \<not> same then ret []
          else bnd (sys (os_list pf (proc_path pid ''fd''))) (\<lambda>r.
            case r of None \<Rightarrow> ret [] | Some ds \<Rightarrow> fd_links pf (proc_path pid ''fd'') ds)) (\<lambda>is.
     bnd (socketInodes pf ps) (\<lambda>js. ret (is @ js))))"

section \<open>The connection tables\<close>

text \<open>
  One line of \<open>/proc/net/tcp\<close>: remote address, state and inode, when it has the ten columns.
\<close>

definition tcp_line :: "string \<Rightarrow> (string \<times> string \<times> 64 word) option" where
  "tcp_line line =
     (case read_words 10 line of
        None \<Rightarrow> None
      | Some (ws, _) \<Rightarrow> Some (takeWhile (\<lambda>c. c \<noteq> CHR '':'') (ws ! 2), ws ! 3, fst (strtoull (ws ! 9))))"

record conn_count =
  cc_dests :: "string list"
  cc_syn :: int
  cc_total :: int

definition count_line :: "64 word list \<Rightarrow> string \<Rightarrow> conn_count \<Rightarrow> conn_count" where
  "count_line inodes line c =
     (case tcp_line line of
        None \<Rightarrow> c
      | Some (remIp, st, inode) \<Rightarrow>
          if inode \<notin> set inodes then c
          else c\<lparr>cc_total := cc_total c + 1, cc_syn := (if st = ''02'' then cc_syn c + 1 else cc_syn c),
                 cc_dests := (if (\<exists>x\<in>set remIp. x \<noteq> CHR ''0'') then List.insert remIp (cc_dests c) else cc_dests c)\<rparr>)"

definition no_conns :: conn_count where
  "no_conns = \<lparr> cc_dests = [], cc_syn = 0, cc_total = 0 \<rparr>"

text \<open>The lines after the header of a table; a file that cannot be opened has none.\<close>

definition table_lines :: "nat \<Rightarrow> string option \<Rightarrow> string list" where
  "table_lines headers r = (case r of None \<Rightarrow> [] | Some txt \<Rightarrow> drop headers (all_lines txt))"

text \<open>
  \<open>/proc/<pid>/net/\<close> of a process that is still the one sampled, \<open>/proc/net/\<close> without a
  process, and \<open>None\<close> for a process id that has been taken over.
\<close>

definition net_dir :: "('k, 'm) platform_scheme \<Rightarrow> int \<Rightarrow> 64 word \<Rightarrow> ('k, string option) act" where
  "net_dir pf netnsPid st =
     (if netnsPid > 0
      then bnd (verifyStarttime pf netnsPid st) (\<lambda>same. ret (if same then Some (proc_path netnsPid ''net/'') else None))
      else ret (Some ''/proc/net/''))"

definition countConnections :: "('k, 'm) platform_scheme \<Rightarrow> 64 word list \<Rightarrow> int \<Rightarrow> 64 word \<Rightarrow> ('k, conn_count) act" where
  "countConnections pf inodes netnsPid st =
     bnd (net_dir pf netnsPid st) (\<lambda>dir.
       case dir of
         None \<Rightarrow> ret no_conns
       | Some base \<Rightarrow>
           bnd (sys (os_read pf (base @ ''tcp''))) (\<lambda>r4.
           bnd (sys (os_read pf (base @ ''tcp6''))) (\<lambda>r6.
           ret (fold (count_line inodes) (table_lines 1 r4 @ table_lines 1 r6) no_conns))))"

text \<open>A line with one of the inodes in its column \<open>idx\<close>, and one with it at the end.\<close>

definition inode_at :: "64 word list \<Rightarrow> nat \<Rightarrow> string \<Rightarrow> bool" where
  "inode_at inodes idx line =
     (case read_words (Suc idx) line of
        None \<Rightarrow> False
      | Some (ws, _) \<Rightarrow> (let inode = fst (strtoull (ws ! idx)) in inode > 0 \<and> inode \<in> set inodes))"

lemma read_word_shorter: "read_word s = Some (w, rest) \<Longrightarrow> length rest < length s"
proof -
  assume "read_word s = Some (w, rest)"
  then have w: "w \<noteq> []" "w @ rest = dropWhile isspace s"
    by (auto simp: read_word_def Text.span_def Let_def split: if_splits)
  have "length (dropWhile isspace s) \<le> length s" by (rule length_dropWhile_le)
  moreover have "length w + length rest = length (dropWhile isspace s)" using w(2) by (metis length_append)
  ultimately show ?thesis using w(1) by (cases w) auto
qed

function last_word :: "string \<Rightarrow> string \<Rightarrow> string" where
  "last_word lst s = (case read_word s of None \<Rightarrow> lst | Some (w, rest) \<Rightarrow> last_word w rest)"
  by pat_completeness auto
termination by (relation "measure (length \<circ> snd)") (auto dest: read_word_shorter)

declare last_word.simps [simp del]

definition inode_last :: "64 word list \<Rightarrow> string \<Rightarrow> bool" where
  "inode_last inodes line =
     (let inode = fst (strtoull (last_word [] line)) in inode > 0 \<and> inode \<in> set inodes)"

definition table_has :: "('k, 'm) platform_scheme \<Rightarrow> (string \<Rightarrow> bool) \<Rightarrow> string \<Rightarrow> ('k, bool) act" where
  "table_has pf P path = bnd (sys (os_read pf path)) (\<lambda>r. ret (\<exists>l\<in>set (table_lines 1 r). P l))"

definition hasRawSockets :: "('k, 'm) platform_scheme \<Rightarrow> 64 word list \<Rightarrow> int \<Rightarrow> 64 word \<Rightarrow> ('k, bool) act" where
  "hasRawSockets pf inodes netnsPid st =
     (if inodes = [] then ret False
      else bnd (net_dir pf netnsPid st) (\<lambda>dir.
        case dir of
          None \<Rightarrow> ret False
        | Some base \<Rightarrow>
            bnd (table_has pf (inode_at inodes 9) (base @ ''raw'')) (\<lambda>b.
            if b then ret True
            else bnd (table_has pf (inode_at inodes 9) (base @ ''raw6'')) (\<lambda>b6.
              if b6 then ret True else table_has pf (inode_last inodes) (base @ ''packet'')))))"

section \<open>Samples of a process and a cgroup\<close>

definition getProcessExe :: "('k, 'm) mon_platform_scheme \<Rightarrow> int \<Rightarrow> 64 word \<Rightarrow> ('k, string) act" where
  "getProcessExe pf pid st =
     bnd (verifyStarttime pf pid st) (\<lambda>same.
     if \<not> same then ret []
     else bnd (sys (os_readlink pf (proc_path pid ''exe''))) (\<lambda>r.
       ret (case r of None \<Rightarrow> [] | Some txt \<Rightarrow> take 4095 txt)))"

definition getCpuUsec :: "('k, 'm) platform_scheme \<Rightarrow> app \<Rightarrow> ('k, 64 word) act" where
  "getCpuUsec pf app =
     try_catch catchable
       (bnd (cpu_getStat pf app) (\<lambda>stat. ret (case map_of stat ''usage_usec'' of None \<Rightarrow> 0 | Some v \<Rightarrow> v)))
       (\<lambda>_. ret 0)"

text \<open>The transmitted bytes of a row of \<open>/proc/net/dev\<close>: the ninth number after the name.\<close>

fun read_nth_u64 :: "nat \<Rightarrow> string \<Rightarrow> 64 word option" where
  "read_nth_u64 n s =
     (case read_u64 s of
        None \<Rightarrow> None
      | Some (v, rest) \<Rightarrow> (case n of 0 \<Rightarrow> Some v | Suc m \<Rightarrow> read_nth_u64 m rest))"

definition trim_blanks :: "string \<Rightarrow> string" where
  "trim_blanks s = rev (dropWhile (\<lambda>c. c \<in> set blanks) (rev (dropWhile (\<lambda>c. c \<in> set blanks) s)))"

definition tx_of_line :: "string \<Rightarrow> 64 word" where
  "tx_of_line line =
     (if CHR '':'' \<notin> set line then 0
      else (let iface = trim_blanks (takeWhile (\<lambda>c. c \<noteq> CHR '':'') line);
                fields = tl (dropWhile (\<lambda>c. c \<noteq> CHR '':'') line)
            in if iface = [] \<or> iface = ''lo'' then 0
               else (case read_nth_u64 8 fields of None \<Rightarrow> 0 | Some v \<Rightarrow> v)))"

definition getTxBytes :: "('k, 'm) platform_scheme \<Rightarrow> int \<Rightarrow> 64 word \<Rightarrow> ('k, 64 word) act" where
  "getTxBytes pf netnsPid st =
     bnd (net_dir pf netnsPid st) (\<lambda>dir.
       case dir of
         None \<Rightarrow> ret 0
       | Some base \<Rightarrow>
           bnd (sys (os_read pf (base @ ''dev''))) (\<lambda>r.
           ret (sum_list (map tx_of_line (table_lines 2 r)))))"

definition getMemCurrent :: "('k, 'm) platform_scheme \<Rightarrow> app \<Rightarrow> ('k, 64 word) act" where
  "getMemCurrent pf app =
     try_catch catchable
       (bnd (cg_getLine pf ''memory'' ''memory.current'' app) (\<lambda>value. ret (fst (strtoull value))))
       (\<lambda>_. ret 0)"

section \<open>State\<close>

record app_baseline =
  b_fanout :: ewma
  b_halfOpen :: ewma
  b_forkRate :: ewma
  b_cpuBurst :: ewma
  b_egress :: ewma
  b_memGrowth :: ewma
  knownExecs :: "string list"
  rawSocketFired :: bool
  lastCpuUsec :: "64 word"
  cpuInit :: bool
  lastTxBytes :: "64 word"
  egressInit :: bool
  lastMemCurrent :: "64 word"
  memInit :: bool

definition new_baseline :: app_baseline where
  "new_baseline =
     \<lparr> b_fanout = new_ewma, b_halfOpen = new_ewma, b_forkRate = new_ewma, b_cpuBurst = new_ewma,
       b_egress = new_ewma, b_memGrowth = new_ewma, knownExecs = [], rawSocketFired = False,
       lastCpuUsec = 0, cpuInit = False, lastTxBytes = 0, egressInit = False, lastMemCurrent = 0, memInit = False \<rparr>"

record sai_config =
  cfg_period :: int
  cfg_weights :: sai_weights
  cfg_alpha :: flt

text \<open>
  The set of applications is ordered by pointer, and every \<open>AddEvent\<close> brings an object of its
  own, so the set never finds one of the same process id equal to another: here it is the list
  of the objects, in the order of their arrival. The baselines are a map from process ids.
\<close>

record security_monitor =
  sm_config :: sai_config
  sm_apps :: "app list"
  sm_baselines :: "(int \<times> app_baseline) list"
  sm_published :: "event list"

definition new_security_monitor :: "int \<Rightarrow> security_monitor" where
  "new_security_monitor period =
     \<lparr> sm_config = \<lparr> cfg_period = period, cfg_weights = default_weights, cfg_alpha = f32 3 10 \<rparr>,
       sm_apps = [], sm_baselines = [], sm_published = [] \<rparr>"

definition setSaiConfig :: "sai_weights \<Rightarrow> flt \<Rightarrow> security_monitor \<Rightarrow> security_monitor" where
  "setSaiConfig weights alpha sm =
     sm\<lparr>sm_config := (sm_config sm)\<lparr>cfg_weights := weights, cfg_alpha := alpha\<rparr>\<rparr>"

text \<open>\<open>baselines_[pid]\<close>, which adds an empty baseline when there is none.\<close>

definition baseline_of :: "int \<Rightarrow> security_monitor \<Rightarrow> app_baseline" where
  "baseline_of pid sm = (case map_of (sm_baselines sm) pid of None \<Rightarrow> new_baseline | Some b \<Rightarrow> b)"

definition put_baseline :: "int \<Rightarrow> app_baseline \<Rightarrow> security_monitor \<Rightarrow> security_monitor" where
  "put_baseline pid b sm = sm\<lparr>sm_baselines := (pid, b) # filter (\<lambda>p. fst p \<noteq> pid) (sm_baselines sm)\<rparr>"

definition sm_processAddEvent :: "app \<Rightarrow> security_monitor \<Rightarrow> security_monitor" where
  "sm_processAddEvent app sm =
     (let sm' = sm\<lparr>sm_apps := sm_apps sm @ [app]\<rparr> in
      put_baseline (getPid app) (baseline_of (getPid app) sm') sm')"

definition sm_processRemoveEvent :: "app \<Rightarrow> security_monitor \<Rightarrow> security_monitor" where
  "sm_processRemoveEvent app sm =
     (case find (\<lambda>a. getPid a = getPid app) (sm_apps sm) of
        None \<Rightarrow> sm
      | Some a \<Rightarrow> sm\<lparr>sm_apps := remove1 a (sm_apps sm),
                    sm_baselines := filter (\<lambda>p. fst p \<noteq> getPid app) (sm_baselines sm)\<rparr>)"

section \<open>The scan of an application\<close>

text \<open>What one scan reads from the kernel, in the order in which it is read.\<close>

record sample =
  sp_pids :: "pid_sample list"
  sp_conns :: conn_count
  sp_tx :: "64 word"
  sp_exes :: "string list"
  sp_raw :: bool
  sp_cpu :: "64 word"
  sp_mem :: "64 word"

fun read_exes :: "('k, 'm) mon_platform_scheme \<Rightarrow> pid_sample list \<Rightarrow> ('k, string list) act" where
  "read_exes pf [] = ret []"
| "read_exes pf ((pid, st) # ps) =
     bnd (getProcessExe pf pid st) (\<lambda>exe. bnd (read_exes pf ps) (\<lambda>es. ret (exe # es)))"

definition take_sample :: "('k, 'm) mon_platform_scheme \<Rightarrow> app \<Rightarrow> ('k, sample) act" where
  "take_sample pf app =
     bnd (getCgroupPids pf app) (\<lambda>pids.
     bnd (socketInodes pf pids) (\<lambda>inodes.
     (let netnsPid = (if pids = [] then 0 else fst (hd pids)); st = (if pids = [] then 0 else snd (hd pids)) in
      bnd (countConnections pf inodes netnsPid st) (\<lambda>conns.
      bnd (getTxBytes pf netnsPid st) (\<lambda>tx.
      bnd (read_exes pf pids) (\<lambda>exes.
      bnd (hasRawSockets pf inodes netnsPid st) (\<lambda>raw.
      bnd (getCpuUsec pf app) (\<lambda>cpu.
      bnd (getMemCurrent pf app) (\<lambda>mem.
      ret \<lparr> sp_pids = pids, sp_conns = conns, sp_tx = tx, sp_exes = exes, sp_raw = raw,
            sp_cpu = cpu, sp_mem = mem \<rparr>)))))))))"

text \<open>The growth of a counter per second; a counter that went back counts as no growth.\<close>

definition growth_rate :: "64 word \<Rightarrow> 64 word \<Rightarrow> int \<Rightarrow> flt" where
  "growth_rate now prev period =
     (if now \<ge> prev then fdiv (float_of_u64 (now - prev)) (float_of_int period) else Fin 0)"

text \<open>
  The executables: those not seen before are remembered, and reported once the application is
  no longer warming up. The result is the set, the report and its labels.
\<close>

fun check_execs :: "bool \<Rightarrow> string list \<Rightarrow> string list \<times> bool \<times> string \<Rightarrow> string list \<times> bool \<times> string" where
  "check_execs warm [] acc = acc"
| "check_execs warm (exe # es) (known, fired, labels) =
     check_execs warm es
       (if exe = [] \<or> exe \<in> set known then (known, fired, labels)
        else (known @ [exe], fired \<or> \<not> warm,
              if warm then labels else labels @ ''exec:'' @ exe @ '' ''))"

text \<open>A factor that is measured as a growth rate: only once there is a last value.\<close>

definition rate_factor :: "(flt \<Rightarrow> flt) \<Rightarrow> sai_config \<Rightarrow> bool \<Rightarrow> ewma \<Rightarrow> 64 word \<Rightarrow> 64 word \<Rightarrow> flt \<times> ewma" where
  "rate_factor expf cfg init e now prev =
     (if init \<and> cfg_period cfg > 0
      then (let rate = growth_rate now prev (cfg_period cfg)
            in (deviation expf e rate, ewma_update rate (cfg_alpha cfg) e))
      else (Fin 0, e))"

definition label_if :: "flt \<Rightarrow> string \<Rightarrow> string" where
  "label_if x l = (if fgt x (Fin 0) then l else [])"

text \<open>The factors of a sample against a baseline, the labels, and the baseline after it.\<close>

definition assess :: "(flt \<Rightarrow> flt) \<Rightarrow> sai_config \<Rightarrow> sample \<Rightarrow> app_baseline \<Rightarrow> security_factors \<times> string \<times> app_baseline" where
  "assess expf cfg sp b =
     (let alpha = cfg_alpha cfg;
          dests = float_of_int (int (length (cc_dests (sp_conns sp))));
          ratio = (if cc_total (sp_conns sp) > 0
                   then fdiv (float_of_int (cc_syn (sp_conns sp))) (float_of_int (cc_total (sp_conns sp))) else Fin 0);
          procs = float_of_int (int (length (sp_pids sp)));
          (f_egress, e_egress) = rate_factor expf cfg (egressInit b) (b_egress b) (sp_tx sp) (lastTxBytes b);
          e_fork = ewma_update procs alpha (b_forkRate b);
          warm = warming e_fork;
          (known, unseen, execs) = check_execs warm (sp_exes sp) (knownExecs b, False, []);
          raw = sp_raw sp \<and> \<not> warm \<and> \<not> rawSocketFired b;
          (f_cpu, e_cpu) = rate_factor expf cfg (cpuInit b) (b_cpuBurst b) (sp_cpu sp) (lastCpuUsec b);
          (f_mem, e_mem) = rate_factor expf cfg (memInit b) (b_memGrowth b) (sp_mem sp) (lastMemCurrent b);
          f = \<lparr> fanout = deviation expf (b_fanout b) dests, halfOpen = deviation expf (b_halfOpen b) ratio,
                forkRate = deviation expf (b_forkRate b) procs, newExec = (if unseen then f32 1 1 else Fin 0),
                cpuBurst = f_cpu, egress = f_egress, memGrowth = f_mem,
                rawSocket = (if raw then f32 1 1 else Fin 0) \<rparr>
      in (f,
          execs @ label_if (fanout f) ''fanout '' @ label_if (halfOpen f) ''scan '' @ label_if (cpuBurst f) ''cpu '' @
            label_if (egress f) ''egress '' @ label_if (memGrowth f) ''mem '' @ label_if (rawSocket f) ''rawsock '',
          b\<lparr>b_fanout := ewma_update dests alpha (b_fanout b), b_halfOpen := ewma_update ratio alpha (b_halfOpen b),
            b_egress := e_egress, lastTxBytes := sp_tx sp, egressInit := True, b_forkRate := e_fork,
            knownExecs := known, rawSocketFired := rawSocketFired b \<or> raw,
            b_cpuBurst := e_cpu, lastCpuUsec := sp_cpu sp, cpuInit := True,
            b_memGrowth := e_mem, lastMemCurrent := sp_mem sp, memInit := True\<rparr>))"

type_synonym ('k, 'a) sm_act = "('k \<times> security_monitor, 'a) act"

definition sm_upd :: "(security_monitor \<Rightarrow> security_monitor) \<Rightarrow> ('k, unit) sm_act" where
  [act_defs]: "sm_upd f = modify (\<lambda>(k, sm). (k, f sm))"

text \<open>
  \<open>scanApp\<close>: every scan that gets its sample publishes one event, whatever the index. Only
  the reading of \<open>cgroup.procs\<close> can throw, after the baseline has been made.
\<close>

definition report :: "(flt \<Rightarrow> flt) \<Rightarrow> app \<Rightarrow> sample \<Rightarrow> security_monitor \<Rightarrow> security_monitor" where
  "report expf app sp sm =
     (case assess expf (sm_config sm) sp (baseline_of (getPid app) sm) of
        (f, labels, b) \<Rightarrow>
          (let sai = computeSai f (cfg_weights (sm_config sm)) in
           (put_baseline (getPid app) b sm)
             \<lparr>sm_published := sm_published sm @ [SecurityEvent app sai f labels]\<rparr>))"

definition scanApp :: "(flt \<Rightarrow> flt) \<Rightarrow> ('k, 'm) mon_platform_scheme \<Rightarrow> app \<Rightarrow> ('k, unit) sm_act" where
  "scanApp expf pf app =
     bnd (sm_upd (\<lambda>sm. put_baseline (getPid app) (baseline_of (getPid app) sm) sm)) (\<lambda>_.
     bnd (on_fst (take_sample pf app)) (\<lambda>sp.
     sm_upd (report expf app sp)))"

text \<open>One period of \<open>run\<close>: an exception ends the scan of its application only.\<close>

definition scan_all :: "(flt \<Rightarrow> flt) \<Rightarrow> ('k, 'm) mon_platform_scheme \<Rightarrow> ('k, unit) sm_act" where
  "scan_all expf pf =
     bnd (gets (sm_apps \<circ> snd)) (\<lambda>apps.
     for_each apps (\<lambda>app. try_catch catchable (scanApp expf pf app) (\<lambda>_. ret ())))"

end
