(* ===== verification/MonitorFacts.thy ===== *)
theory MonitorFacts
  imports SecurityMonitor
begin

text \<open>
  What \<open>SecurityMonitor\<close> promises: its index lies in the unit interval, it reports nothing
  while an application warms up, a raw socket once in the life of an application and an
  executable once; it reads nothing of a process id that was taken over; and no baseline
  outlives its application.
\<close>

section \<open>Published indices\<close>

fun sane_event :: "event \<Rightarrow> bool" where
  "sane_event (SecurityEvent a sai f labels) = unit_flt sai"
| "sane_event _ = True"

definition sane :: "security_monitor \<Rightarrow> bool" where
  "sane sm \<longleftrightarrow> (\<forall>ev\<in>set (sm_published sm). sane_event ev)"

lemma sane_put [simp]: "sane (put_baseline pid b sm) = sane sm"
  by (simp add: sane_def put_baseline_def)

lemma sane_report: "sane sm \<Longrightarrow> sane (report expf app sp sm)"
  by (auto simp: report_def sane_def put_baseline_def computeSai_unit Let_def split: prod.split)

lemma keeps_sm_upd: "(\<And>sm. I sm \<Longrightarrow> I (f sm)) \<Longrightarrow> keeps (\<lambda>s. I (snd s)) (sm_upd f)"
  by (auto simp: keeps_def act_defs)

lemma keeps_sm_fst: "keeps (\<lambda>s. I (snd s)) (on_fst m)"
  by (auto simp: keeps_def on_fst_def split: prod.splits)

lemma sane_scan: "keeps (\<lambda>s. sane (snd s)) (scan_all expf pf)"
  unfolding scan_all_def scanApp_def
  by (intro keeps_intros keeps_sm_upd keeps_sm_fst sane_report) simp_all

section \<open>Warming up\<close>

text \<open>A baseline after \<open>n\<close> samples.\<close>

definition young :: "int \<Rightarrow> app_baseline \<Rightarrow> bool" where
  "young n b \<longleftrightarrow> count (b_fanout b) = n \<and> count (b_halfOpen b) = n \<and> count (b_forkRate b) = n \<and>
     count (b_cpuBurst b) \<le> n \<and> count (b_egress b) \<le> n \<and> count (b_memGrowth b) \<le> n"

definition zero_factors :: security_factors where
  "zero_factors =
     \<lparr> fanout = Fin 0, halfOpen = Fin 0, forkRate = Fin 0, newExec = Fin 0, cpuBurst = Fin 0,
       egress = Fin 0, memGrowth = Fin 0, rawSocket = Fin 0 \<rparr>"

lemma young_new: "young 0 new_baseline"
  by (simp add: young_def new_baseline_def new_ewma_def)

lemma count_update [simp]: "count (ewma_update x alpha e) = count e + 1"
  by (simp add: ewma_update_def Let_def)

lemma warming_deviation: "count e < 5 \<Longrightarrow> deviation expf e x = Fin 0"
  by (simp add: deviation_def warming_def WARMUP_def)

lemma rate_factor_young:
  "count e \<le> n \<Longrightarrow> n < 5 \<Longrightarrow> fst (rate_factor expf cfg init e now prev) = Fin 0"
  "count e \<le> n \<Longrightarrow> count (snd (rate_factor expf cfg init e now prev)) \<le> n + 1"
  by (auto simp: rate_factor_def Let_def warming_deviation)

lemma check_execs_warm:
  "check_execs True es (known, fired, labels) = (known', fired', labels') \<Longrightarrow> fired' = fired \<and> labels' = labels"
  by (induction es arbitrary: known) (auto split: if_splits)

lemma label_if_zero [simp]: "label_if (Fin 0) l = []"
  by (simp add: label_if_def fgt_def)

lemma assess_young:
  assumes "young n b"
  shows "young (n + 1) (snd (snd (assess expf cfg sp b)))"
    and "n < 4 \<Longrightarrow> fst (assess expf cfg sp b) = zero_factors \<and> fst (snd (assess expf cfg sp b)) = []"
proof -
  have c: "count (b_fanout b) = n" "count (b_halfOpen b) = n" "count (b_forkRate b) = n"
    "count (b_cpuBurst b) \<le> n" "count (b_egress b) \<le> n" "count (b_memGrowth b) \<le> n"
    using assms by (simp_all add: young_def)
  show "young (n + 1) (snd (snd (assess expf cfg sp b)))"
    using c by (simp add: assess_def young_def Let_def split_beta rate_factor_young(2))
  show "n < 4 \<Longrightarrow> fst (assess expf cfg sp b) = zero_factors \<and> fst (snd (assess expf cfg sp b)) = []"
  proof -
    assume n: "n < 4"
    have w: "warming (ewma_update x alpha (b_forkRate b))" for x alpha
      using n c by (simp add: warming_def WARMUP_def)
    have z: "rate_factor expf cfg init e now prev = (f, e') \<Longrightarrow> count e \<le> n \<Longrightarrow> f = Fin 0" for init e now prev f e'
      using rate_factor_young(1) [of e n expf cfg init now prev] n by simp
    show ?thesis
      using n c w
      by (auto simp: assess_def zero_factors_def Let_def warming_deviation dest: z check_execs_warm split: prod.splits)
  qed
qed

lemma computeSai_zero: "computeSai zero_factors w = Fin 0"
proof -
  have m: "fmul x (Fin 0) \<in> {Fin 0, NaN}" for x
    by (cases x) (auto simp: inf_of_def round_to_def)
  have a: "x \<in> {Fin 0, NaN} \<Longrightarrow> y \<in> {Fin 0, NaN} \<Longrightarrow> fadd x y \<in> {Fin 0, NaN}" for x y
    by (auto simp: round_to_def)
  have "weighted_sum zero_factors w \<in> {Fin 0, NaN}"
    unfolding weighted_sum_def zero_factors_def by (simp del: insert_iff) (intro a m)
  then show ?thesis by (auto simp: computeSai_def clamp01_def fmax_def fmin_def Let_def)
qed

section \<open>A sequence of samples\<close>

text \<open>The factors of one application, sample after sample.\<close>

fun assess_all :: "(flt \<Rightarrow> flt) \<Rightarrow> sai_config \<Rightarrow> sample list \<Rightarrow> app_baseline \<Rightarrow> security_factors list" where
  "assess_all expf cfg [] b = []"
| "assess_all expf cfg (sp # sps) b =
     (case assess expf cfg sp b of (f, labels, b') \<Rightarrow> f # assess_all expf cfg sps b')"

lemma assess_all_young:
  "young n b \<Longrightarrow> n + int i < 4 \<Longrightarrow> i < length sps \<Longrightarrow> assess_all expf cfg sps b ! i = zero_factors"
proof (induction sps arbitrary: n b i)
  case (Cons sp sps)
  note y = assess_young [OF Cons.prems(1), of expf cfg sp]
  show ?case
  proof (cases i)
    case 0
    then show ?thesis using y(2) Cons.prems(2) by (auto split: prod.split)
  next
    case (Suc j)
    have "assess_all expf cfg sps (snd (snd (assess expf cfg sp b))) ! j = zero_factors"
      using Cons.prems Suc by (intro Cons.IH [OF y(1)]) auto
    then show ?thesis using Suc by (simp add: split_beta)
  qed
qed simp

lemma assess_raw:
  "rawSocket (fst (assess expf cfg sp b)) \<noteq> Fin 0 \<Longrightarrow> \<not> rawSocketFired b \<and> rawSocketFired (snd (snd (assess expf cfg sp b)))"
  "rawSocketFired b \<Longrightarrow> rawSocketFired (snd (snd (assess expf cfg sp b)))"
  by (auto simp: assess_def Let_def split_beta split: if_splits)

lemma raw_at_most_once:
  "length (filter (\<lambda>f. rawSocket f \<noteq> Fin 0) (assess_all expf cfg sps b)) \<le> (if rawSocketFired b then 0 else 1)"
proof (induction sps arbitrary: b)
  case (Cons sp sps)
  note IH = Cons.IH [of "snd (snd (assess expf cfg sp b))"]
  show ?case
    using IH assess_raw [where expf = expf and cfg = cfg and sp = sp and b = b]
    by (cases "rawSocketFired b") (auto simp: split_beta split: if_splits)
qed simp

text \<open>The executables seen, and whether one of them was new.\<close>

lemma check_execs_spec:
  "check_execs warm es (known, fired, labels) = (known', fired', labels') \<Longrightarrow>
     set known' = set known \<union> (set es - {[]}) \<and>
     (fired' \<longleftrightarrow> fired \<or> (\<not> warm \<and> \<not> set es - {[]} \<subseteq> set known))"
proof (induction es arbitrary: known fired labels)
  case (Cons exe es)
  show ?case
  proof (cases "exe = [] \<or> exe \<in> set known")
    case True
    with Cons.prems have "check_execs warm es (known, fired, labels) = (known', fired', labels')" by simp
    from Cons.IH [OF this] True show ?thesis by auto
  next
    case False
    with Cons.prems have "check_execs warm es (known @ [exe], fired \<or> \<not> warm,
        if warm then labels else labels @ ''exec:'' @ exe @ '' '') = (known', fired', labels')" by simp
    from Cons.IH [OF this] False show ?thesis by auto
  qed
qed auto

lemma assess_exec:
  "newExec (fst (assess expf cfg sp b)) \<noteq> Fin 0 \<longleftrightarrow>
     \<not> warming (ewma_update (float_of_int (int (length (sp_pids sp)))) (cfg_alpha cfg) (b_forkRate b)) \<and>
     \<not> set (sp_exes sp) - {[]} \<subseteq> set (knownExecs b)"
  "set (knownExecs (snd (snd (assess expf cfg sp b)))) = set (knownExecs b) \<union> (set (sp_exes sp) - {[]})"
proof -
  let ?w = "warming (ewma_update (float_of_int (int (length (sp_pids sp)))) (cfg_alpha cfg) (b_forkRate b))"
  obtain known fired labels where c: "check_execs ?w (sp_exes sp) (knownExecs b, False, []) = (known, fired, labels)"
    by (metis prod_cases3)
  note s = check_execs_spec [OF c]
  have "newExec (fst (assess expf cfg sp b)) = (if fired then f32 1 1 else Fin 0)"
    "knownExecs (snd (snd (assess expf cfg sp b))) = known"
    using c by (simp_all add: assess_def Let_def split_beta)
  with s show "newExec (fst (assess expf cfg sp b)) \<noteq> Fin 0 \<longleftrightarrow> \<not> ?w \<and> \<not> set (sp_exes sp) - {[]} \<subseteq> set (knownExecs b)"
    "set (knownExecs (snd (snd (assess expf cfg sp b)))) = set (knownExecs b) \<union> (set (sp_exes sp) - {[]})"
    by simp_all
qed

section \<open>Process ids that were taken over\<close>

lemma verify_recycled:
  "st \<noteq> 0 \<Longrightarrow> getProcessStarttime pf pid k = (Inr st', k') \<Longrightarrow> st' \<noteq> st \<Longrightarrow>
     verifyStarttime pf pid st k = (Inr False, k')"
  by (simp add: verifyStarttime_def act_defs)

lemma recycled_reads:
  assumes "verifyStarttime pf pid st k = (Inr False, k')" and "0 < pid"
  shows "countConnections pf inodes pid st k = (Inr no_conns, k')"
    and "getTxBytes pf pid st k = (Inr 0, k')"
    and "fst (hasRawSockets pf inodes pid st k) = Inr False"
proof -
  have "net_dir pf pid st k = (Inr None, k')" using assms by (simp add: net_dir_def act_defs)
  then show "countConnections pf inodes pid st k = (Inr no_conns, k')" "getTxBytes pf pid st k = (Inr 0, k')"
    "fst (hasRawSockets pf inodes pid st k) = Inr False"
    by (simp_all add: countConnections_def getTxBytes_def hasRawSockets_def act_defs)
qed

lemma recycled_exe: "verifyStarttime pf pid st k = (Inr False, k') \<Longrightarrow> getProcessExe pf pid st k = (Inr [], k')"
  by (simp add: getProcessExe_def act_defs)

lemma recycled_inodes:
  "verifyStarttime pf pid st k = (Inr False, k') \<Longrightarrow> socketInodes pf ((pid, st) # ps) k = socketInodes pf ps k'"
  by (simp add: act_defs split: prod.split sum.split)

lemma inodes_append:
  "socketInodes pf (ps @ qs) = bnd (socketInodes pf ps) (\<lambda>is. bnd (socketInodes pf qs) (\<lambda>js. ret (is @ js)))"
proof (induction ps)
  case (Cons p ps)
  then show ?case by (cases p) (simp add: bnd_assoc)
qed (simp add: act_defs fun_eq_iff split: prod.split sum.split)

lemma recycled_inodes_within:
  assumes "verifyStarttime pf pid st k = (Inr False, k')" and "socketInodes pf before k0 = (Inr is, k)"
  shows "socketInodes pf (before @ (pid, st) # ps) k0 = bnd (socketInodes pf ps) (\<lambda>js. ret (is @ js)) k'"
proof -
  have "socketInodes pf (before @ (pid, st) # ps) k0 = bnd (socketInodes pf ((pid, st) # ps)) (\<lambda>js. ret (is @ js)) k"
    unfolding inodes_append by (rule bnd_Inr) (rule assms(2))
  then show ?thesis by (simp only: bnd_def recycled_inodes [OF assms(1)])
qed

section \<open>Baselines and applications\<close>

definition baselines_ok :: "security_monitor \<Rightarrow> bool" where
  "baselines_ok sm \<longleftrightarrow> distinct (map fst (sm_baselines sm)) \<and> fst ` set (sm_baselines sm) \<subseteq> getPid ` set (sm_apps sm)"

lemma baselines_put:
  "baselines_ok sm \<Longrightarrow> pid \<in> getPid ` set (sm_apps sm) \<Longrightarrow> baselines_ok (put_baseline pid b sm)"
  by (auto simp: baselines_ok_def put_baseline_def distinct_map_filter)

lemma baselines_add: "baselines_ok sm \<Longrightarrow> baselines_ok (sm_processAddEvent app sm)"
  unfolding sm_processAddEvent_def Let_def
  by (rule baselines_put) (auto simp: baselines_ok_def)

lemma baselines_remove: "baselines_ok sm \<Longrightarrow> baselines_ok (sm_processRemoveEvent app sm)"
proof (cases "find (\<lambda>a. getPid a = getPid app) (sm_apps sm)")
  case (Some a)
  then have a: "getPid a = getPid app" by (auto simp: find_Some_iff)
  assume ok: "baselines_ok sm"
  have "p \<in> getPid ` set (remove1 a (sm_apps sm))" if "p \<in> getPid ` set (sm_apps sm)" "p \<noteq> getPid app" for p
    using that a by (auto simp: image_iff) (metis in_set_remove1)
  with ok Some show ?thesis
    by (auto simp: baselines_ok_def sm_processRemoveEvent_def distinct_map_filter)
qed (simp add: sm_processRemoveEvent_def)

lemma baselines_report:
  "baselines_ok sm \<Longrightarrow> getPid app \<in> getPid ` set (sm_apps sm) \<Longrightarrow>
     baselines_ok (report expf app sp sm) \<and> sm_apps (report expf app sp sm) = sm_apps sm"
  using baselines_put [of sm "getPid app"]
  by (auto simp: report_def Let_def baselines_ok_def put_baseline_def split: prod.split)

lemma keeps_for_each_in: "(\<And>x. x \<in> set xs \<Longrightarrow> keeps I (f x)) \<Longrightarrow> keeps I (for_each xs f)"
  by (induction xs) (auto intro: keeps_intros)

lemma baselines_scan_app:
  "app \<in> set apps \<Longrightarrow> keeps (\<lambda>s. baselines_ok (snd s) \<and> sm_apps (snd s) = apps)
     (try_catch catchable (scanApp expf pf app) (\<lambda>_. ret ()))"
  unfolding scanApp_def
  by (intro keeps_intros keeps_sm_upd keeps_sm_fst)
    (auto simp: put_baseline_def dest: baselines_report intro: baselines_put [unfolded put_baseline_def])

lemma baselines_scan: "keeps (\<lambda>s. baselines_ok (snd s)) (scan_all expf pf)"
proof (rule keepsI)
  fix s :: "'a \<times> security_monitor"
  assume "baselines_ok (snd s)"
  moreover have "keeps (\<lambda>s. baselines_ok (snd s) \<and> sm_apps (snd s) = sm_apps (snd s0))
      (for_each (sm_apps (snd s0)) (\<lambda>app. try_catch catchable (scanApp expf pf app) (\<lambda>_. ret ())))" for s0 :: "'a \<times> security_monitor"
    by (rule keeps_for_each_in) (rule baselines_scan_app)
  ultimately show "baselines_ok (snd (snd (scan_all expf pf s)))"
    using keepsD by (fastforce simp: scan_all_def bnd_def gets_def)
qed

section \<open>Runs of the monitor\<close>

text \<open>
  The calls the monitor gets, one after the other: each takes \<open>appsMutex_\<close> from beginning to
  end.
\<close>

datatype monitor_call = MonitorAdd app | MonitorRemove app | MonitorScan

fun monitor_do :: "(flt \<Rightarrow> flt) \<Rightarrow> ('k, 'm) mon_platform_scheme \<Rightarrow> monitor_call \<Rightarrow> ('k, unit) sm_act" where
  "monitor_do expf pf (MonitorAdd app) = sm_upd (sm_processAddEvent app)"
| "monitor_do expf pf (MonitorRemove app) = sm_upd (sm_processRemoveEvent app)"
| "monitor_do expf pf MonitorScan = scan_all expf pf"

definition monitor_run :: "(flt \<Rightarrow> flt) \<Rightarrow> ('k, 'm) mon_platform_scheme \<Rightarrow> monitor_call list \<Rightarrow> ('k, unit) sm_act" where
  "monitor_run expf pf calls = for_each calls (monitor_do expf pf)"

lemma sane_add_remove: "sane sm \<Longrightarrow> sane (sm_processAddEvent app sm)" "sane sm \<Longrightarrow> sane (sm_processRemoveEvent app sm)"
  by (auto simp: sane_def sm_processAddEvent_def sm_processRemoveEvent_def put_baseline_def Let_def split: option.split)

lemma monitor_run_sane: "keeps (\<lambda>s. sane (snd s)) (monitor_run expf pf calls)"
proof -
  have "keeps (\<lambda>s. sane (snd s)) (monitor_do expf pf c)" for c
    by (cases c) (auto intro: keeps_sm_upd sane_add_remove sane_scan)
  then show ?thesis unfolding monitor_run_def by (rule keeps_for_each)
qed

lemma monitor_run_baselines: "keeps (\<lambda>s. baselines_ok (snd s)) (monitor_run expf pf calls)"
proof -
  have "keeps (\<lambda>s. baselines_ok (snd s)) (monitor_do expf pf c)" for c
    by (cases c) (auto intro: keeps_sm_upd baselines_add baselines_remove baselines_scan)
  then show ?thesis unfolding monitor_run_def by (rule keeps_for_each)
qed

lemma new_monitor_ok: "sane (new_security_monitor period)" "baselines_ok (new_security_monitor period)"
  by (simp_all add: sane_def baselines_ok_def new_security_monitor_def)

section \<open>How many objects of a process id are watched\<close>

text \<open>
  Every \<open>AddEvent\<close> of a process id adds one object, every \<open>RemoveEvent\<close> takes one away while
  there is one, and a scan changes nothing.
\<close>

definition watched :: "int \<Rightarrow> security_monitor \<Rightarrow> nat" where
  "watched p sm = length (filter (\<lambda>a. getPid a = p) (sm_apps sm))"

fun tally :: "int \<Rightarrow> nat \<Rightarrow> monitor_call \<Rightarrow> nat" where
  "tally p n (MonitorAdd a) = (if getPid a = p then n + 1 else n)"
| "tally p n (MonitorRemove a) = (if getPid a = p then n - 1 else n)"
| "tally p n MonitorScan = n"

lemma watched_add: "watched p (sm_processAddEvent a sm) = tally p (watched p sm) (MonitorAdd a)"
  by (simp add: watched_def sm_processAddEvent_def put_baseline_def Let_def)

lemma filter_remove1_length:
  "a \<in> set xs \<Longrightarrow> length (filter P (remove1 a xs)) = (if P a then length (filter P xs) - 1 else length (filter P xs))"
  by (auto simp: filter_remove1 length_remove1 remove1_idem)

lemma watched_remove: "watched p (sm_processRemoveEvent a sm) = tally p (watched p sm) (MonitorRemove a)"
proof (cases "find (\<lambda>b. getPid b = getPid a) (sm_apps sm)")
  case None
  then have "watched (getPid a) sm = 0" by (auto simp: find_None_iff watched_def filter_empty_conv)
  with None show ?thesis by (auto simp: sm_processRemoveEvent_def)
next
  case (Some b)
  then have "getPid b = getPid a" "b \<in> set (sm_apps sm)" by (auto simp: find_Some_iff)
  with Some show ?thesis
    by (auto simp: sm_processRemoveEvent_def watched_def filter_remove1_length)
qed

lemma watched_scan: "keeps (\<lambda>s. watched p (snd s) = n) (scan_all expf pf)"
  unfolding scan_all_def scanApp_def watched_def
  by (intro keeps_intros keeps_sm_upd keeps_sm_fst)
    (auto simp: put_baseline_def report_def Let_def split: prod.split)

lemma watched_do: "watched p (snd (snd (monitor_do expf pf c s))) = tally p (watched p (snd s)) c"
  using keepsD [OF watched_scan [of p "watched p (snd s)" expf pf], of s]
  by (cases c) (auto simp: watched_add watched_remove sm_upd_def modify_def split: prod.split)

lemma watched_run:
  "monitor_run expf pf calls s = (Inr u, s') \<Longrightarrow> watched p (snd s') = foldl (tally p) (watched p (snd s)) calls"
proof (induction calls arbitrary: s)
  case (Cons c calls)
  then obtain x t where "monitor_do expf pf c s = (Inr x, t)" "monitor_run expf pf calls t = (Inr u, s')"
    by (auto simp: monitor_run_def elim: bnd_InrE)
  with Cons.IH [of t] watched_do [of p expf pf c s] show ?case by simp
qed (simp add: monitor_run_def act_defs)

end
