(* ===== verification/Json.thy ===== *)
theory Json
  imports Prelude
begin

text \<open>
  What the program uses of the JSON library (third-party): a value, its construction from
  numbers and strings, membership and access by key, and the conversions to a number and to a
  string. Parsing, printing and the floating-point type are parameters; the conversions are
  those of the library, which narrow a number without looking whether it fits.
\<close>

datatype 'd json =
    JNull
  | JBool bool
  | JUnsigned "64 word"
  | JInteger int
  | JFloat 'd
  | JString string
  | JArray "'d json list"
  | JObject "(string \<times> 'd json) list"

text \<open>\<open>json_parse\<close> is \<open>None\<close> where the library throws.\<close>

record 'd json_lib =
  json_parse :: "string \<Rightarrow> 'd json option"
  json_dump :: "'d json \<Rightarrow> string"
  double_to_int :: "'d \<Rightarrow> int result"
  double_to_u64 :: "'d \<Rightarrow> 64 word result"

fun members :: "'d json \<Rightarrow> (string \<times> 'd json) list" where
  "members (JObject kvs) = kvs"
| "members _ = []"

definition has_key :: "'d json \<Rightarrow> string \<Rightarrow> bool" where
  "has_key j key \<longleftrightarrow> map_of (members j) key \<noteq> None"

text \<open>Access by a key that is there; the program asks before it reads.\<close>

definition json_at :: "'d json \<Rightarrow> string \<Rightarrow> 'd json" where
  "json_at j key = (case map_of (members j) key of None \<Rightarrow> JNull | Some v \<Rightarrow> v)"

fun get_int :: "'d json_lib \<Rightarrow> 'd json \<Rightarrow> int result" where
  "get_int lib (JUnsigned w) = Inr (u64_to_int w)"
| "get_int lib (JInteger i) = Inr (to_int32 i)"
| "get_int lib (JFloat d) = double_to_int lib d"
| "get_int lib (JBool b) = Inr (if b then 1 else 0)"
| "get_int lib _ = Inl (JsonException ''type must be number'')"

fun get_u64 :: "'d json_lib \<Rightarrow> 'd json \<Rightarrow> 64 word result" where
  "get_u64 lib (JUnsigned w) = Inr w"
| "get_u64 lib (JInteger i) = Inr (to_u64 i)"
| "get_u64 lib (JFloat d) = double_to_u64 lib d"
| "get_u64 lib _ = Inl (JsonException ''type must be number'')"

fun get_string :: "'d json \<Rightarrow> string result" where
  "get_string (JString s) = Inr s"
| "get_string _ = Inl (JsonException ''type must be string'')"

definition parse_json :: "'d json_lib \<Rightarrow> string \<Rightarrow> 'd json result" where
  "parse_json lib text =
     (case json_parse lib text of None \<Rightarrow> Inl (JsonException ''parse error'') | Some j \<Rightarrow> Inr j)"

text \<open>
  What parsing makes of a printed value: the library documents that it gives an equal value
  back, where a number that is not negative comes back unsigned, and equal to the one printed.
\<close>

fun reread :: "'d json \<Rightarrow> 'd json" where
  "reread (JInteger i) = (if 0 \<le> i then JUnsigned (to_u64 i) else JInteger i)"
| "reread (JObject kvs) = JObject (map (\<lambda>(k, v). (k, reread v)) kvs)"
| "reread (JArray vs) = JArray (map reread vs)"
| "reread j = j"

definition prints_back :: "'d json_lib \<Rightarrow> 'd json \<Rightarrow> bool" where
  "prints_back lib j \<longleftrightarrow> json_parse lib (json_dump lib j) = Some (reread j)"

lemma members_reread: "map_of (members (reread (JObject kvs))) key = map_option reread (map_of kvs key)"
  by (induction kvs) auto

lemma get_int_reread: "is_int32 i \<Longrightarrow> get_int lib (reread (JInteger i)) = Inr i"
  by (simp add: u64_to_int_to_u64)

lemma get_u64_reread: "get_u64 lib (reread (JUnsigned w)) = Inr w"
  by simp

end
