(* ===== verification/KonroHttp.thy ===== *)
theory KonroHttp
  imports Json Events Os
begin

text \<open>
  \<open>rm/src/konrohttp.cpp\<close>: the HTTP interface. A request carries a JSON message; its handler
  reads the message and publishes one event for the other components, or none. The HTTP server
  is a third-party library that calls the handlers: here they are functions of the body. The
  state is the kernel, which the mapping of process ids looks at, and the published events.
\<close>

type_synonym ('k, 'a) http_act = "('k \<times> event list, 'a) act"

definition http_publish :: "event \<Rightarrow> ('k, unit) http_act" where
  "http_publish ev = on_snd (modify (\<lambda>evs. evs @ [ev]))"

section \<open>Messages\<close>

definition sendFeedbackEvent :: "'d json_lib \<Rightarrow> string \<Rightarrow> ('k, unit) http_act" where
  "sendFeedbackEvent lib data =
     bnd (lift_result (parse_json lib data)) (\<lambda>j.
     if \<not> has_key j ''pid'' \<or> \<not> has_key j ''feedback'' then ret ()
     else
       bnd (lift_result (get_int lib (json_at j ''pid''))) (\<lambda>pid.
       bnd (lift_result (get_int lib (json_at j ''feedback''))) (\<lambda>feedback.
       bnd (if has_key j ''namespace'' then lift_result (get_u64 lib (json_at j ''namespace'')) else ret 0) (\<lambda>ns.
       http_publish (FeedbackRequestEvent pid (unat ns) feedback)))))"

text \<open>The type of an application and its process id in Konro's namespace; \<open>None\<close> is a message refused.\<close>

definition add_kind :: "('k, 'm) os_scheme \<Rightarrow> 'd json_lib \<Rightarrow> 'd json \<Rightarrow> int \<Rightarrow> ('k, (app_type \<times> int \<times> nat) option) http_act" where
  "add_kind os lib j nsPid =
     (if has_key j ''type'' then
        bnd (lift_result (get_string (json_at j ''type''))) (\<lambda>ty.
        ret (if getTypeByName ty = UNKNOWN then None else Some (getTypeByName ty, nsPid, 0)))
      else if has_key j ''namespace'' then
        bnd (lift_result (get_u64 lib (json_at j ''namespace''))) (\<lambda>ns.
        bnd (on_fst (mapPid os nsPid (unat ns))) (\<lambda>pid.
        bnd (if pid \<noteq> nsPid
             then bnd (on_fst (isKubPod os pid)) (\<lambda>kub. ret (if kub then KUBERNETES else CONTAINER))
             else ret INTEGRATED) (\<lambda>appType.
        ret (Some (appType, pid, unat ns)))))
      else ret None)"

definition sendAddEvent :: "('k, 'm) os_scheme \<Rightarrow> 'd json_lib \<Rightarrow> string \<Rightarrow> ('k, unit) http_act" where
  "sendAddEvent os lib data =
     bnd (lift_result (parse_json lib data)) (\<lambda>j.
     if \<not> has_key j ''pid'' then ret ()
     else
       bnd (lift_result (get_int lib (json_at j ''pid''))) (\<lambda>nsPid.
       bnd (if has_key j ''name'' then lift_result (get_string (json_at j ''name'')) else ret []) (\<lambda>name.
       bnd (add_kind os lib j nsPid) (\<lambda>kind.
       case kind of
         None \<Rightarrow> ret ()
       | Some (appType, pid, ns) \<Rightarrow>
           bnd (if has_key j ''securityLevel''
                then bnd (lift_result (get_string (json_at j ''securityLevel''))) (\<lambda>l. ret (getSecurityLevelByName l))
                else ret UNCLASSIFIED) (\<lambda>securityLevel.
           http_publish (AddRequestEvent (makeApp pid appType name nsPid ns securityLevel)))))))"

definition sendClearEvent :: "'d json_lib \<Rightarrow> string \<Rightarrow> ('k, unit) http_act" where
  "sendClearEvent lib data =
     bnd (lift_result (parse_json lib data)) (\<lambda>j.
     if \<not> has_key j ''pid'' then ret ()
     else bnd (lift_result (get_int lib (json_at j ''pid''))) (\<lambda>pid. http_publish (ClearEvent pid)))"

section \<open>Handlers\<close>

text \<open>
  A handler sets its answer before it reads the message, and an exception out of it is caught
  by the server. The answer is that of the handler; \<open>None\<close> where it threw.
\<close>

definition CRLF :: string where
  "CRLF = [CHR 0x0D, CHR 0x0A]"

definition answer :: "string \<Rightarrow> ('k, unit) http_act \<Rightarrow> ('k, string option) http_act" where
  "answer text m = try_catch catchable (bnd m (\<lambda>_. ret (Some text))) (\<lambda>_. ret None)"

definition handleGet :: "('k, string option) http_act" where
  "handleGet = ret (Some (''200 - OK'' @ CRLF))"

definition handleAddPost :: "('k, 'm) os_scheme \<Rightarrow> 'd json_lib \<Rightarrow> string \<Rightarrow> ('k, string option) http_act" where
  "handleAddPost os lib body =
     answer (''You have sent an ADD POST '' @ [CHR 0x27] @ body @ [CHR 0x27] @ CRLF) (sendAddEvent os lib body)"

definition handleFeedbackPost :: "'d json_lib \<Rightarrow> string \<Rightarrow> ('k, string option) http_act" where
  "handleFeedbackPost lib body =
     answer (''You have sent a FEEDBACK POST '' @ [CHR 0x27] @ body @ [CHR 0x27] @ CRLF) (sendFeedbackEvent lib body)"

definition handleClearPost :: "'d json_lib \<Rightarrow> string \<Rightarrow> ('k, string option) http_act" where
  "handleClearPost lib body =
     answer (''You have sent a CLEAR POST '' @ [CHR 0x27] @ body @ [CHR 0x27] @ CRLF) (sendClearEvent lib body)"

text \<open>The routes that \<open>run\<close> installs; the library answers the others itself.\<close>

datatype http_method = GET | POST

definition http_request ::
  "('k, 'm) os_scheme \<Rightarrow> 'd json_lib \<Rightarrow> http_method \<Rightarrow> string \<Rightarrow> string \<Rightarrow> ('k, string option) http_act" where
  "http_request os lib m path body =
     (if m = GET \<and> path = ''/status'' then handleGet
      else if m = POST \<and> path = ''/add'' then handleAddPost os lib body
      else if m = POST \<and> path = ''/feedback'' then handleFeedbackPost lib body
      else if m = POST \<and> path = ''/clear'' then handleClearPost lib body
      else ret None)"

section \<open>What a request publishes\<close>

text \<open>At most one event, of the kind of its route, and the events before stay.\<close>

definition adds_at_most_one :: "(event \<Rightarrow> bool) \<Rightarrow> ('k, 'a) http_act \<Rightarrow> bool" where
  "adds_at_most_one P m \<longleftrightarrow> (\<forall>k evs. snd (snd (m (k, evs))) = evs \<or> (\<exists>ev. P ev \<and> snd (snd (m (k, evs))) = evs @ [ev]))"

definition adds_none :: "('k, 'a) http_act \<Rightarrow> bool" where
  "adds_none m \<longleftrightarrow> (\<forall>k evs. snd (snd (m (k, evs))) = evs)"

named_theorems http_intros \<open>how many events an action publishes\<close>

lemma adds_none_ret [http_intros]: "adds_none (ret x)" "adds_none (throw e)" "adds_none (lift_result r)" "adds_none (on_fst m)"
  by (auto simp: adds_none_def act_defs split: prod.split)

lemma adds_none_bnd [http_intros]: "adds_none m \<Longrightarrow> (\<And>x. adds_none (f x)) \<Longrightarrow> adds_none (bnd m f)"
  unfolding adds_none_def bnd_def by (auto split: prod.splits sum.splits) (metis snd_conv)+

lemma adds_none_if [http_intros]: "adds_none m \<Longrightarrow> adds_none n \<Longrightarrow> adds_none (if b then m else n)"
  by simp

lemma adds_one_publish [http_intros]: "P ev \<Longrightarrow> adds_at_most_one P (http_publish ev)"
  by (simp add: adds_at_most_one_def http_publish_def act_defs)

lemma adds_one_none: "adds_none m \<Longrightarrow> adds_at_most_one P m"
  by (simp add: adds_none_def adds_at_most_one_def)

lemma adds_one_bnd [http_intros]:
  "adds_none m \<Longrightarrow> (\<And>x. adds_at_most_one P (f x)) \<Longrightarrow> adds_at_most_one P (bnd m f)"
  unfolding adds_none_def adds_at_most_one_def bnd_def by (auto split: prod.splits sum.splits) (metis snd_conv)+

lemma adds_one_if [http_intros]: "adds_at_most_one P m \<Longrightarrow> adds_at_most_one P n \<Longrightarrow> adds_at_most_one P (if b then m else n)"
  by simp

lemma adds_one_ret [http_intros]: "adds_at_most_one P (ret x)"
  by (intro adds_one_none http_intros)

lemma adds_one_answer [http_intros]: "adds_at_most_one P m \<Longrightarrow> adds_at_most_one P (answer text m)"
  unfolding adds_at_most_one_def answer_def try_catch_def bnd_def ret_def
  by (auto split: prod.splits sum.splits) (metis snd_conv)+

text \<open>The kind of event a route is for.\<close>

fun is_request :: "string \<Rightarrow> event \<Rightarrow> bool" where
  "is_request path (AddRequestEvent _) = (path = ''/add'')"
| "is_request path (FeedbackRequestEvent _ _ _) = (path = ''/feedback'')"
| "is_request path (ClearEvent _) = (path = ''/clear'')"
| "is_request path _ = False"

lemma adds_one_case [http_intros]:
  "adds_at_most_one P m \<Longrightarrow> (\<And>x. adds_at_most_one P (f x)) \<Longrightarrow> adds_at_most_one P (case r of None \<Rightarrow> m | Some x \<Rightarrow> f x)"
  "(\<And>x y. adds_at_most_one P (g x y)) \<Longrightarrow> adds_at_most_one P (case p of (x, y) \<Rightarrow> g x y)"
  by (simp_all split: option.split prod.split)

lemma adds_kind [http_intros]: "adds_none (add_kind os lib j nsPid)"
  unfolding add_kind_def by (intro http_intros)

lemma adds_messages:
  "adds_at_most_one (is_request ''/add'') (sendAddEvent os lib data)"
  "adds_at_most_one (is_request ''/feedback'') (sendFeedbackEvent lib data)"
  "adds_at_most_one (is_request ''/clear'') (sendClearEvent lib data)"
  unfolding sendAddEvent_def sendFeedbackEvent_def sendClearEvent_def by (intro http_intros; simp)+

lemma request_publishes: "adds_at_most_one (is_request path) (http_request os lib m path body)"
  unfolding http_request_def handleGet_def handleAddPost_def handleFeedbackPost_def handleClearPost_def
  by (simp add: adds_one_answer adds_messages adds_one_ret)

text \<open>
  A process id is narrowed to 32 bits on the way: a clear of another number than a process id
  is published as the clear of the process whose id it is congruent to.
\<close>

lemma clear_pid_narrowed:
  assumes "json_parse lib body = Some j" and "map_of (members j) ''pid'' = Some (JUnsigned w)"
  shows "sendClearEvent lib body (k, evs) = (Inr (), (k, evs @ [ClearEvent (u64_to_int w)]))"
  using assms by (simp add: sendClearEvent_def parse_json_def has_key_def json_at_def http_publish_def act_defs)

lemma narrowed_pid: "u64_to_int 4294967338 = 42"
  by (simp add: u64_to_int_def to_int32_def)

end
