(* ===== verification/EndToEnd.thy ===== *)
theory EndToEnd
  imports Containment MonitorFacts KonroHttp
begin

text \<open>
  The two ways through the whole program that containment is about: from a sample of the
  security monitor to the frozen cgroup, and from an operator's request to the thawed one. The
  components on the way are those of the other theories; here are the steps between them.
\<close>

section \<open>A policy call on an entry\<close>

lemma run_pol_entry:
  assumes "pol_ok I m" and "I (pm_policy pm)" and "ks_find am_getPid pid (pm_apps pm) = Some am0"
    and "am_getPid am = pid" and "P (snd (fst (snd (m ((k, am), pm_policy pm)))))"
  shows "\<exists>am'. ks_find am_getPid pid (pm_apps (snd (snd (run_pol put_entry am m (k, pm))))) = Some am' \<and> P am'"
proof -
  obtain r k' am' p' where m: "m ((k, am), pm_policy pm) = (r, ((k', am'), p'))" by (metis prod.collapse)
  have "am_getPid am' = pid" using pol_okD [OF assms(1,2) m] assms(4) by (simp add: am_getPid_def)
  moreover have "pid \<in> am_getPid ` set (pm_apps pm)" using ks_find_Some [OF assms(3)] by auto
  ultimately show ?thesis using assms(5) m by (simp add: run_pol_def put_entry_def ks_find_update)
qed

section \<open>From a sample to the freezer\<close>

lemma report_event:
  "assess expf (sm_config sm) sp (baseline_of (getPid app) sm) = (f, labels, b) \<Longrightarrow>
     last (sm_published (report expf app sp sm)) = SecurityEvent app (computeSai f (cfg_weights (sm_config sm))) f labels"
  by (simp add: report_def Let_def)

lemma manager_freezes:
  assumes inv: "pm_inv (sa_inv topology) pm" and am: "ks_find am_getPid (getPid app) (pm_apps pm) = Some am"
    and "st_state (secState am) \<noteq> QUARANTINE" "\<not> doNotMoveApp pf (am_app am)"
    and "target sai (sa_thresholds (pm_policy pm)) (tolOffset (securityLevel am)) = QUARANTINE"
    and "os_write pf (freeze_path pf (am_app am)) ''1'' k = (True, k')"
  shows "\<exists>pm'. pm_processEvent (SecurityAwarePolicy pf topology) (SecurityEvent app sai f labels) (k, pm) = (Inr True, (k', pm'))
    \<and> holds_quarantined (getPid app) pm'"
proof -
  let ?am = "am\<lparr>am_sai := sai\<rparr>"
  let ?m = "sa_securityAlert pf topology sai f labels"
  have a: "?m ((k, ?am), pm_policy pm)
      = (Inr (), ((k', ?am\<lparr>am_sai := sai, secState := \<lparr>st_state = QUARANTINE, belowCount = 0\<rparr>, quarantine := True\<rparr>), pm_policy pm))"
    using assms(3-6) by (intro alert_quarantines) simp_all
  have "am_getPid ?am = getPid app" using ks_find_Some [OF am] by simp
  moreover have "pol_ok (sa_inv topology) ?m"
    using sa_policy.securityAlert_ok [of topology pf sai f labels] by (simp add: sa_pol_simps)
  moreover have "quarantined (snd (fst (snd (?m ((k, ?am), pm_policy pm)))))" by (simp add: a quarantined_def)
  ultimately have q: "holds_quarantined (getPid app) (snd (snd (run_pol put_entry ?am ?m (k, pm))))"
    using inv am run_pol_entry [of "sa_inv topology" ?m pm "getPid app" am ?am quarantined k]
    unfolding holds_quarantined_def pm_inv_def by blast
  have e: "pm_processEvent (SecurityAwarePolicy pf topology) (SecurityEvent app sai f labels) (k, pm)
      = (case run_pol put_entry ?am ?m (k, pm) of (r, s) \<Rightarrow> (case r of Inl x \<Rightarrow> (Inl x, s) | Inr u \<Rightarrow> (Inr True, s)))"
    using am by (auto simp: pm_processEvent_def processSecurityEvent_def find_app_def sa_pol_simps act_defs split: prod.split sum.split)
  from q show ?thesis unfolding e by (simp add: run_pol_def a)
qed

section \<open>From the request to the thaw\<close>

lemma clear_request:
  assumes "json_parse lib body = Some j" and "map_of (members j) ''pid'' = Some (JUnsigned w)"
  shows "\<exists>reply. http_request os lib POST ''/clear'' body (k, evs) = (Inr (Some reply), (k, evs @ [ClearEvent (u64_to_int w)]))"
  using clear_pid_narrowed [OF assms, of k evs]
  by (simp add: http_request_def handleClearPost_def answer_def act_defs)

lemma manager_thaws:
  assumes "ks_find am_getPid pid (pm_apps pm) = Some am"
    and "\<not> doNotMoveApp pf (am_app am)" and "os_write pf (freeze_path pf (am_app am)) ''0'' k = (True, k')"
    and "survives_other_files pf F" and "F k'"
  shows "F (fst (snd (pm_processEvent (SecurityAwarePolicy pf topology) (ClearEvent pid) (k, pm))))"
proof -
  let ?m = "sa_clearApp pf topology"
  have "pol_clearApp (SecurityAwarePolicy pf topology) = ?m" by (simp add: SecurityAwarePolicy_def)
  then have "snd (pm_processEvent (SecurityAwarePolicy pf topology) (ClearEvent pid) (k, pm)) = snd (run_pol put_entry am ?m (k, pm))"
    using assms(1) by (auto simp: pm_processEvent_def processClearEvent_def find_app_def act_defs split: prod.split sum.split)
  moreover have "F (fst (snd (run_pol put_entry am ?m (k, pm))))"
    using clear_stays_thawed [OF assms(2-5), of topology "pm_policy pm"] by (auto simp: run_pol_def split: prod.split)
  ultimately show ?thesis by simp
qed

lemma manager_resets:
  assumes inv: "pm_inv (sa_inv topology) pm" and am: "ks_find am_getPid pid (pm_apps pm) = Some am"
    and "\<not> doNotMoveApp pf (am_app am)" and "os_write pf (freeze_path pf (am_app am)) ''0'' k = (True, k')"
  shows "\<exists>am'. ks_find am_getPid pid
      (pm_apps (snd (snd (pm_processEvent (SecurityAwarePolicy pf topology) (ClearEvent pid) (k, pm))))) = Some am' \<and>
    reset_mapping am'"
proof -
  let ?m = "sa_clearApp pf topology"
  have "pol_clearApp (SecurityAwarePolicy pf topology) = ?m" by (simp add: SecurityAwarePolicy_def)
  then have e: "snd (pm_processEvent (SecurityAwarePolicy pf topology) (ClearEvent pid) (k, pm)) = snd (run_pol put_entry am ?m (k, pm))"
    and ok: "pol_ok (sa_inv topology) ?m"
    using am sa_policy.clearApp_ok [of topology pf]
    by (auto simp: pm_processEvent_def processClearEvent_def find_app_def act_defs split: prod.split sum.split)
  show ?thesis unfolding e
    using inv ks_find_Some [OF am] clear_resets [OF assms(3,4)]
    by (intro run_pol_entry [OF ok _ am]) (auto simp: pm_inv_def)
qed

end
