(* ===== verification/IniFile.thy ===== *)
theory IniFile
  imports Ini Os
begin

text \<open>
  The second half of \<open>lib/mini/ini.h\<close>: the parser of a line, \<open>INIReader\<close>, \<open>INIGenerator\<close> and the
  two operations of \<open>INIFile\<close> on them. Reading any text at all gives a structure with its
  invariants, without an access out of range; reading a generated text gives the structure back.
\<close>

section \<open>The parser of a line\<close>

datatype PDataType = PDATA_NONE | PDATA_COMMENT | PDATA_SECTION | PDATA_KEYVALUE | PDATA_UNKNOWN

text \<open>The part of a string before its last \<open>c\<close>.\<close>

definition before_last :: "char \<Rightarrow> string \<Rightarrow> string" where
  "before_last c s = rev (tl (dropWhile (\<lambda>x. x \<noteq> c) (rev s)))"

definition escaped :: string where
  "escaped = [CHR 0x5C, CHR ''='']"

definition parseLine :: "string \<Rightarrow> PDataType \<times> string \<times> string" where
  "parseLine line0 =
     (let line1 = trim line0 in
      if line1 = [] then (PDATA_NONE, [], [])
      else if hd line1 = CHR '';'' then (PDATA_COMMENT, [], [])
      else
        (let bracket = (hd line1 = CHR ''['');
             line = (if bracket then takeWhile (\<lambda>c. c \<noteq> CHR '';'') line1 else line1)
         in if bracket \<and> CHR '']'' \<in> set line then (PDATA_SECTION, trim (tl (before_last (CHR '']'') line)), [])
            else
              (let lineNorm = replace_all escaped ''  '' line in
               if CHR ''='' \<in> set lineNorm then
                 (let equalsAt = length (takeWhile (\<lambda>c. c \<noteq> CHR ''='') lineNorm) in
                  (PDATA_KEYVALUE, replace_all escaped ''='' (trim (take equalsAt line)), trim (drop (equalsAt + 1) line)))
               else (PDATA_UNKNOWN, [], []))))"

section \<open>The reader\<close>

text \<open>\<open>readFile\<close>: the text is cut at every newline; zero bytes and carriage returns are dropped.\<close>

fun file_lines :: "string \<Rightarrow> string \<Rightarrow> string list" where
  "file_lines buffer [] = [buffer]"
| "file_lines buffer (c # cs) =
     (if c = NEWLINE then buffer # file_lines [] cs
      else if c \<noteq> NUL \<and> c \<noteq> CHR 0x0D then file_lines (buffer @ [c]) cs
      else file_lines buffer cs)"

definition readFile :: "string \<Rightarrow> string list" where
  "readFile contents = (if contents = [] then [] else file_lines [] contents)"

type_synonym ini_structure = "string ini_map ini_map"

record ini_reader =
  rd_data :: ini_structure
  rd_section :: string
  rd_inSection :: bool

definition read_line :: "string \<Rightarrow> ini_reader \<Rightarrow> ini_reader result" where
  "read_line line rd =
     (case parseLine line of (parseResult, key, val) \<Rightarrow>
        if parseResult = PDATA_SECTION then
          (case ini_at empty_map key Inr (rd_data rd) of
             Inl e \<Rightarrow> Inl e
           | Inr d \<Rightarrow> Inr \<lparr> rd_data = d, rd_section = key, rd_inSection = True \<rparr>)
        else if rd_inSection rd \<and> parseResult = PDATA_KEYVALUE then
          (case ini_at empty_map (rd_section rd) (ini_at [] key (\<lambda>_. Inr val)) (rd_data rd) of
             Inl e \<Rightarrow> Inl e
           | Inr d \<Rightarrow> Inr (rd\<lparr>rd_data := d\<rparr>))
        else Inr rd)"

fun read_lines :: "string list \<Rightarrow> ini_reader \<Rightarrow> ini_reader result" where
  "read_lines [] rd = Inr rd"
| "read_lines (line # fileLines) rd = (case read_line line rd of Inl e \<Rightarrow> Inl e | Inr rd' \<Rightarrow> read_lines fileLines rd')"

definition INIReader_read :: "string \<Rightarrow> ini_structure \<Rightarrow> ini_structure result" where
  "INIReader_read contents data =
     (case read_lines (readFile contents) \<lparr> rd_data = data, rd_section = [], rd_inSection = False \<rparr> of
        Inl e \<Rightarrow> Inl e
      | Inr rd \<Rightarrow> Inr (rd_data rd))"

text \<open>\<open>INIFile::read\<close>: what was in the structure is cleared; \<open>None\<close> is the result \<open>false\<close>.\<close>

definition INIFile_read :: "('k, 'm) os_scheme \<Rightarrow> string \<Rightarrow> ini_structure \<Rightarrow> ('k, ini_structure option) act" where
  "INIFile_read os filename data =
     (let data = (if ini_size data \<noteq> 0 then ini_clear data else data) in
      if filename = [] then ret None
      else bnd (sys (os_read os filename)) (\<lambda>r.
           case r of
             None \<Rightarrow> ret None
           | Some contents \<Rightarrow> bnd (lift_result (INIReader_read contents data)) (\<lambda>d. ret (Some d))))"

section \<open>The generator\<close>

definition generate_key :: "bool \<Rightarrow> string \<times> string \<Rightarrow> string" where
  "generate_key prettyPrint kv =
     replace_all ''='' escaped (fst kv) @ (if prettyPrint then '' = '' else ''='') @ trim (snd kv)"

definition generate_section :: "bool \<Rightarrow> string \<times> string ini_map \<Rightarrow> string" where
  "generate_section prettyPrint it =
     ''['' @ fst it @ '']'' @
     (if ini_size (snd it) = 0 then []
      else NEWLINE # join NEWLINE (map (generate_key prettyPrint) (ini_data (snd it))))"

fun generate_sections :: "bool \<Rightarrow> (string \<times> string ini_map) list \<Rightarrow> string" where
  "generate_sections prettyPrint [] = []"
| "generate_sections prettyPrint [it] = generate_section prettyPrint it"
| "generate_sections prettyPrint (it # it2 # rest) =
     generate_section prettyPrint it @ [NEWLINE] @ (if prettyPrint then [NEWLINE] else []) @
     generate_sections prettyPrint (it2 # rest)"

definition INIGenerator_text :: "bool \<Rightarrow> ini_structure \<Rightarrow> string" where
  "INIGenerator_text prettyPrint data = generate_sections prettyPrint (ini_data data)"

definition INIFile_generate :: "('k, 'm) os_scheme \<Rightarrow> string \<Rightarrow> ini_structure \<Rightarrow> bool \<Rightarrow> ('k, bool) act" where
  "INIFile_generate os filename data pretty =
     (if filename = [] then ret False else sys (os_write os filename (INIGenerator_text pretty data)))"

section \<open>A structure as nested association lists\<close>

definition ini_abs :: "ini_structure \<Rightarrow> (string \<times> (string \<times> string) list) list" where
  "ini_abs s = map (\<lambda>(k, sub). (k, ini_data sub)) (ini_data s)"

definition struct_inv :: "ini_structure \<Rightarrow> bool" where
  "struct_inv s \<longleftrightarrow> ini_inv s \<and> (\<forall>sub\<in>snd ` set (ini_data s). ini_inv sub)"

definition spec_section :: "string \<Rightarrow> (string \<times> (string \<times> string) list) list \<Rightarrow> (string \<times> string) list" where
  "spec_section sec a = (case map_of a (norm_key sec) of None \<Rightarrow> [] | Some c \<Rightarrow> c)"

text \<open>A line in the abstract: the entries, the section and whether there was one.\<close>

fun spec_line :: "string \<Rightarrow> (string \<times> (string \<times> string) list) list \<times> string \<times> bool \<Rightarrow>
    (string \<times> (string \<times> string) list) list \<times> string \<times> bool" where
  "spec_line line (a, sec, ins) =
     (case parseLine line of (ty, key, val) \<Rightarrow>
        if ty = PDATA_SECTION then (AList.update (norm_key key) (spec_section key a) a, key, True)
        else if ins \<and> ty = PDATA_KEYVALUE then
          (AList.update (norm_key sec) (AList.update (norm_key key) val (spec_section sec a)) a, sec, ins)
        else (a, sec, ins))"

definition spec_read :: "string \<Rightarrow> (string \<times> (string \<times> string) list) list" where
  "spec_read contents = fst (fold spec_line (readFile contents) ([], [], False))"

definition rd_abs :: "ini_reader \<Rightarrow> (string \<times> (string \<times> string) list) list \<times> string \<times> bool" where
  "rd_abs rd = (ini_abs (rd_data rd), rd_section rd, rd_inSection rd)"

lemma struct_inv_empty [simp]: "struct_inv empty_map" "ini_abs empty_map = []"
  by (simp_all add: struct_inv_def ini_abs_def empty_map_def) (simp add: empty_map_def [symmetric])

lemma map_of_abs: "map_of (map (\<lambda>(k, x). (k, f x)) xs) k = map_option f (map_of xs k)"
  by (induction xs) auto

lemma update_abs: "map (\<lambda>(k, x). (k, f x)) (AList.update k y xs) = AList.update k (f y) (map (\<lambda>(k, x). (k, f x)) xs)"
  by (induction xs) auto

lemma in_update: "p \<in> snd ` set (AList.update k y xs) \<Longrightarrow> p = y \<or> p \<in> snd ` set xs"
  by (induction xs) (auto split: if_splits)

lemma section_sub:
  assumes "struct_inv s"
  shows "ini_inv (case map_of (ini_data s) k of None \<Rightarrow> empty_map | Some x \<Rightarrow> x)"
proof (cases "map_of (ini_data s) k")
  case (Some x)
  then have "x \<in> snd ` set (ini_data s)" by (metis image_eqI map_of_SomeD snd_conv)
  with Some assms show ?thesis unfolding struct_inv_def by simp (metis (no_types, lifting) image_iff)
qed simp

lemma section_data: "ini_data (case map_of (ini_data s) (norm_key k) of None \<Rightarrow> empty_map | Some x \<Rightarrow> x) = spec_section k (ini_abs s)"
  by (simp add: spec_section_def ini_abs_def map_of_abs empty_map_def split: option.split)

lemma struct_at:
  assumes s: "struct_inv s" and f: "f (case map_of (ini_data s) (norm_key k) of None \<Rightarrow> empty_map | Some x \<Rightarrow> x) = Inr y"
    and y: "ini_inv y"
  shows "\<exists>s'. ini_at empty_map k f s = Inr s' \<and> struct_inv s' \<and> ini_abs s' = AList.update (norm_key k) (ini_data y) (ini_abs s)"
proof -
  have "ini_inv s" using s by (simp add: struct_inv_def)
  from ini_at_refines [where f = f and key = k, OF this f] obtain s' where s': "ini_at empty_map k f s = Inr s'" "ini_inv s'"
    "ini_data s' = AList.update (norm_key k) y (ini_data s)" by blast
  have "ini_inv sub" if "sub \<in> snd ` set (ini_data s')" for sub
    using in_update [OF that [unfolded s'(3)]] s y by (auto simp: struct_inv_def)
  with s'(2) have "struct_inv s'" by (simp add: struct_inv_def)
  with s' show ?thesis by (simp add: ini_abs_def update_abs)
qed

lemma read_line_refines:
  assumes inv: "struct_inv (rd_data rd)"
  shows "\<exists>rd'. read_line line rd = Inr rd' \<and> struct_inv (rd_data rd') \<and> rd_abs rd' = spec_line line (rd_abs rd)"
proof -
  obtain ty key val where p: "parseLine line = (ty, key, val)" by (metis prod.collapse)
  let ?sub = "\<lambda>k. case map_of (ini_data (rd_data rd)) (norm_key k) of None \<Rightarrow> empty_map | Some x \<Rightarrow> x"
  consider (sec) "ty = PDATA_SECTION" | (kv) "ty \<noteq> PDATA_SECTION" "rd_inSection rd \<and> ty = PDATA_KEYVALUE"
    | (no) "ty \<noteq> PDATA_SECTION" "\<not> (rd_inSection rd \<and> ty = PDATA_KEYVALUE)" by blast
  then show ?thesis
  proof cases
    case sec
    from struct_at [OF inv, of Inr key "?sub key"] section_sub [OF inv]
    obtain s' where s': "ini_at empty_map key Inr (rd_data rd) = Inr s'" "struct_inv s'"
      "ini_abs s' = AList.update (norm_key key) (spec_section key (ini_abs (rd_data rd))) (ini_abs (rd_data rd))"
      by (auto simp: section_data)
    then show ?thesis using sec by (simp add: read_line_def p rd_abs_def)
  next
    case kv
    from ini_at_refines [where f = "\<lambda>_. Inr val" and key = key and dflt = "[]" and y = val,
        OF section_sub [OF inv, of "norm_key (rd_section rd)"]]
    obtain y where y: "ini_at [] key (\<lambda>_. Inr val) (?sub (rd_section rd)) = Inr y" "ini_inv y"
      "ini_data y = AList.update (norm_key key) val (spec_section (rd_section rd) (ini_abs (rd_data rd)))"
      by (auto simp: section_data)
    from struct_at [where f = "ini_at [] key (\<lambda>_. Inr val)" and k = "rd_section rd", OF inv y(1,2)] y(3) kv show ?thesis by (auto simp: read_line_def p rd_abs_def)
  next
    case no
    with inv show ?thesis by (auto simp: read_line_def p rd_abs_def)
  qed
qed

lemma read_lines_refines:
  "struct_inv (rd_data rd) \<Longrightarrow>
     \<exists>rd'. read_lines ls rd = Inr rd' \<and> struct_inv (rd_data rd') \<and> rd_abs rd' = fold spec_line ls (rd_abs rd)"
proof (induction ls arbitrary: rd)
  case (Cons l ls)
  from read_line_refines [OF Cons.prems, of l] obtain rd1 where r: "read_line l rd = Inr rd1" "struct_inv (rd_data rd1)"
    "rd_abs rd1 = spec_line l (rd_abs rd)" by blast
  from Cons.IH [OF r(2)] r show ?case by simp
qed simp

lemma reader_refines:
  "\<exists>s. INIReader_read contents empty_map = Inr s \<and> struct_inv s \<and> ini_abs s = spec_read contents"
proof -
  from read_lines_refines [of "\<lparr> rd_data = empty_map, rd_section = [], rd_inSection = False \<rparr>" "readFile contents"]
  show ?thesis by (auto simp: INIReader_read_def spec_read_def rd_abs_def) (metis fst_conv)
qed

text \<open>A structure with its invariants is determined by its entries.\<close>

lemma struct_eqI:
  assumes "struct_inv s" and "struct_inv t" and "ini_abs s = ini_abs t"
  shows "s = t"
proof (rule ini_map_eqI)
  show "ini_data s = ini_data t"
  proof (rule nth_equalityI)
    show len: "length (ini_data s) = length (ini_data t)" using assms(3) by (metis ini_abs_def length_map)
    fix i assume i: "i < length (ini_data s)"
    have "ini_abs s ! i = ini_abs t ! i" using assms(3) by simp
    then have "fst (ini_data s ! i) = fst (ini_data t ! i)" "ini_data (snd (ini_data s ! i)) = ini_data (snd (ini_data t ! i))"
      using i len by (simp_all add: ini_abs_def split_beta)
    moreover have "ini_inv (snd (ini_data s ! i))" "ini_inv (snd (ini_data t ! i))"
      using assms(1,2) i len by (simp_all add: struct_inv_def)
    ultimately show "ini_data s ! i = ini_data t ! i" by (simp add: ini_map_eqI prod_eq_iff)
  qed
qed (use assms in \<open>simp_all add: struct_inv_def\<close>)

section \<open>What is generated is read back\<close>

text \<open>
  The names and values that come through: those in normal form, without line ends and zero
  bytes; a section without semicolon, a key that is not empty, does not start a comment or a
  section and does not end in a backslash, which would escape the equals sign.
\<close>

definition clean :: "string \<Rightarrow> bool" where
  "clean w \<longleftrightarrow> NEWLINE \<notin> set w \<and> NUL \<notin> set w \<and> CHR 0x0D \<notin> set w"

definition section_ok :: "string \<Rightarrow> bool" where
  "section_ok sec \<longleftrightarrow> clean sec \<and> norm_key sec = sec \<and> CHR '';'' \<notin> set sec"

definition key_ok :: "string \<Rightarrow> bool" where
  "key_ok k \<longleftrightarrow> clean k \<and> norm_key k = k \<and> k \<noteq> [] \<and> hd k \<noteq> CHR '';'' \<and> hd k \<noteq> CHR ''['' \<and> last k \<noteq> CHR 0x5C"

definition value_ok :: "string \<Rightarrow> bool" where
  "value_ok v \<longleftrightarrow> clean v \<and> trim v = v"

definition writable :: "ini_structure \<Rightarrow> bool" where
  "writable s \<longleftrightarrow>
     list_all (\<lambda>(sec, coll). section_ok sec \<and> list_all (\<lambda>(k, v). key_ok k \<and> value_ok v) coll) (ini_abs s)"

lemma trim_id: "w = [] \<or> \<not> white (hd w) \<and> \<not> white (last w) \<Longrightarrow> trim w = w"
  by (cases "w = []") (auto simp: trim_def dropWhile_hd hd_rev)

lemma dropWhile_same:
  assumes "length xs \<le> length (dropWhile P xs)"
  shows "dropWhile P xs = xs"
proof -
  have d: "takeWhile P xs @ dropWhile P xs = xs" by simp
  then have "length (takeWhile P xs) + length (dropWhile P xs) = length xs" by (metis length_append)
  with assms have "length (takeWhile P xs) = 0" by linarith
  then have "takeWhile P xs = []" by (simp only: length_0_conv)
  with d show ?thesis by (metis append_Nil)
qed

lemma trim_parts:
  assumes "length w \<le> length (trim w)"
  shows "dropWhile white (rev w) = rev w" "dropWhile white w = w"
proof -
  have "length (trim w) \<le> length (rev (dropWhile white (rev w)))" unfolding trim_def by (rule length_dropWhile_le)
  with assms show 1: "dropWhile white (rev w) = rev w" by (intro dropWhile_same) simp
  with assms show "dropWhile white w = w" by (intro dropWhile_same) (simp add: trim_def)
qed

lemma trim_same: "length w \<le> length (trim w) \<Longrightarrow> trim w = w"
  using trim_parts [of w] by (simp add: trim_def)

lemma trim_ends:
  assumes "trim w = w" and "w \<noteq> []"
  shows "\<not> white (hd w)" "\<not> white (last w)"
  using trim_parts [of w] assms by (metis hd_dropWhile order_refl) (metis assms hd_dropWhile hd_rev order_refl rev_is_Nil_conv trim_parts(1))

lemma norm_key_trim: "norm_key k = k \<Longrightarrow> trim k = k"
  by (rule trim_same) (metis norm_key_def toLower_def length_map order_refl)

lemma trim_pad_right: "trim w = w \<Longrightarrow> trim (w @ '' '') = w"
  by (simp add: trim_def white_def whitespaceDelimiters_def)

lemma trim_pad: "trim w = w \<Longrightarrow> trim ('' '' @ w) = w"
proof (cases "w = []")
  case False
  assume w: "trim w = w"
  have "dropWhile white (rev w) = rev w" using trim_ends [OF w False] False by (simp add: dropWhile_hd hd_rev)
  then have "dropWhile white (rev w @ '' '') = rev w @ '' ''" using False
    by (metis append_is_Nil_conv dropWhile_eq_self_iff hd_append2 rev_is_Nil_conv)
  then show ?thesis using trim_ends [OF w False] False
    by (simp add: trim_def dropWhile_hd white_def whitespaceDelimiters_def)
qed (simp add: trim_def white_def whitespaceDelimiters_def)

text \<open>Escaping: what the two calls of \<open>replace\<close> in the parser make of an escaped key.\<close>

lemma replace_Nil [simp]: "replace_all a b [] = []"
  by (simp add: replace_all.simps)

lemma replace_other: "a \<noteq> [] \<Longrightarrow> c \<noteq> hd a \<Longrightarrow> replace_all a b (c # s) = c # replace_all a b s"
  by (cases a) (auto simp: replace_all.simps [of _ _ "c # s"])

lemma replace_one: "replace_all ''='' b (CHR ''='' # s) = b @ replace_all ''='' b s"
  by (simp add: replace_all.simps [of _ _ "CHR ''='' # s"])

lemma replace_escaped: "replace_all escaped b (CHR 0x5C # CHR ''='' # s) = b @ replace_all escaped b s"
  by (simp add: replace_all.simps [of _ _ "CHR 0x5C # CHR ''='' # s"] escaped_def)

lemma replace_backslash: "s = [] \<or> hd s \<noteq> CHR ''='' \<Longrightarrow> replace_all escaped b (CHR 0x5C # s) = CHR 0x5C # replace_all escaped b s"
  by (subst replace_all.simps) (cases s; auto simp: escaped_def)

lemma escaped_simps [simp]: "escaped \<noteq> []" "hd escaped = CHR 0x5C" "replace_all ''='' escaped (CHR ''='' # s) = CHR 0x5C # CHR ''='' # replace_all ''='' escaped s"
  "c \<noteq> CHR ''='' \<Longrightarrow> replace_all ''='' escaped (c # s) = c # replace_all ''='' escaped s"
  by (simp_all add: escaped_def replace_one replace_other)

text \<open>An escaped key does not begin with an equals sign, so a backslash before it stays one.\<close>

lemma escape_hd: "replace_all ''='' escaped k = [] \<or> hd (replace_all ''='' escaped k) \<noteq> CHR ''=''"
  by (cases k; cases "hd k = CHR ''=''") simp_all

lemma unescape: "replace_all escaped ''='' (replace_all ''='' escaped k) = k"
proof (induction k)
  case (Cons c k)
  consider "c = CHR ''=''" | "c = CHR 0x5C" | "c \<noteq> CHR ''=''" "c \<noteq> CHR 0x5C" by blast
  then show ?case
    by cases (use Cons replace_backslash [OF escape_hd] in \<open>simp_all add: replace_escaped replace_other\<close>)
qed simp

lemma blank_key:
  assumes "k \<noteq> [] \<Longrightarrow> last k \<noteq> CHR 0x5C"
  shows "\<exists>w. replace_all escaped ''  '' (replace_all ''='' escaped k @ z) = w @ replace_all escaped ''  '' z \<and>
    length w = length (replace_all ''='' escaped k) \<and> CHR ''='' \<notin> set w"
  using assms
proof (induction k)
  case (Cons c k)
  from Cons.prems have "k \<noteq> [] \<Longrightarrow> last k \<noteq> CHR 0x5C" by simp
  from Cons.IH [OF this] obtain w where w: "replace_all escaped ''  '' (replace_all ''='' escaped k @ z) = w @ replace_all escaped ''  '' z"
    "length w = length (replace_all ''='' escaped k)" "CHR ''='' \<notin> set w" by auto
  consider (eq) "c = CHR ''=''" | (bs) "c = CHR 0x5C" | (other) "c \<noteq> CHR ''=''" "c \<noteq> CHR 0x5C" by blast
  then show ?case
  proof cases
    case eq
    with w show ?thesis by (intro exI [of _ "''  '' @ w"]) (simp add: replace_escaped)
  next
    case bs
    with Cons.prems have "k \<noteq> []" by auto
    then have "replace_all ''='' escaped k \<noteq> []" by (cases k; cases "hd k = CHR ''=''") simp_all
    then have "hd (replace_all ''='' escaped k @ z) \<noteq> CHR ''=''" using escape_hd [of k] by simp
    with bs w show ?thesis by (intro exI [of _ "c # w"]) (simp add: replace_backslash)
  next
    case other
    with w show ?thesis by (intro exI [of _ "c # w"]) (simp add: replace_other)
  qed
qed simp

text \<open>The lines of a section, and what the parser makes of them.\<close>

definition blank :: "bool \<Rightarrow> string" where
  "blank pretty = (if pretty then '' '' else [])"

lemma generate_key_split: "generate_key pretty kv = replace_all ''='' escaped (fst kv) @ blank pretty @ CHR ''='' # blank pretty @ trim (snd kv)"
  by (simp add: generate_key_def blank_def)

lemma escape_ends:
  assumes "key_ok k"
  shows "replace_all ''='' escaped k \<noteq> []" "hd (replace_all ''='' escaped k) \<notin> {CHR '';'', CHR ''[''}"
    "\<not> white (hd (replace_all ''='' escaped k))" "\<not> white (last (replace_all ''='' escaped k))"
    "trim (replace_all ''='' escaped k) = replace_all ''='' escaped k"
proof -
  have k: "k \<noteq> []" "trim k = k" using assms norm_key_trim by (auto simp: key_ok_def)
  obtain c k' where ck: "k = c # k'" using k(1) by (cases k) auto
  have last_esc: "w \<noteq> [] \<Longrightarrow> last (replace_all ''='' escaped w) = last w \<and> replace_all ''='' escaped w \<noteq> []" for w
  proof (induction w)
    case (Cons d w)
    then show ?case by (cases "w = []"; cases "d = CHR ''=''") auto
  qed simp
  have "\<not> white (CHR 0x5C)" by (simp add: white_def whitespaceDelimiters_def NEWLINE_def)
  with assms ck trim_ends [OF k(2,1)] show ne: "replace_all ''='' escaped k \<noteq> []"
    and "hd (replace_all ''='' escaped k) \<notin> {CHR '';'', CHR ''[''}"
    and h: "\<not> white (hd (replace_all ''='' escaped k))"
    by (cases "c = CHR ''=''"; simp add: key_ok_def)+
  show l: "\<not> white (last (replace_all ''='' escaped k))" using last_esc [OF k(1)] trim_ends [OF k(2,1)] by simp
  from h l show "trim (replace_all ''='' escaped k) = replace_all ''='' escaped k" by (intro trim_id) simp
qed

lemma parse_key:
  assumes k: "key_ok k" and v: "value_ok v"
  shows "parseLine (generate_key pretty (k, v)) = (PDATA_KEYVALUE, k, v)"
proof -
  let ?e = "replace_all ''='' escaped k"
  note e = escape_ends [OF k]
  have v': "trim v = v" using v by (simp add: value_ok_def)
  define rest where "rest = (if v = [] then [] else blank pretty @ v)"
  define line where "line = ?e @ blank pretty @ CHR ''='' # rest"
  have eq: "\<not> white (CHR ''='')" by (simp add: white_def whitespaceDelimiters_def NEWLINE_def)
  have "\<not> white (hd line)" using e by (simp add: line_def)
  moreover have "\<not> white (last line)" using trim_ends [OF v'] eq by (auto simp: line_def rest_def last_append)
  ultimately have line: "trim line = line" by (intro trim_id) simp
  have t: "trim (generate_key pretty (k, v)) = line"
  proof (cases "v = [] \<and> pretty")
    case True
    then have "generate_key pretty (k, v) = line @ '' ''" by (simp add: generate_key_split line_def rest_def blank_def v' [simplified True])
    with trim_pad_right [OF line] show ?thesis by simp
  next
    case False
    then have "generate_key pretty (k, v) = line" by (auto simp: generate_key_split line_def rest_def blank_def v')
    with line show ?thesis by simp
  qed
  have "k \<noteq> [] \<Longrightarrow> last k \<noteq> CHR 0x5C" using k by (simp add: key_ok_def)
  from blank_key [OF this, of "blank pretty @ CHR ''='' # rest"] obtain w where
    w: "replace_all escaped ''  '' line = w @ replace_all escaped ''  '' (blank pretty @ CHR ''='' # rest)"
      "length w = length ?e" "CHR ''='' \<notin> set w" unfolding line_def by blast
  have n: "replace_all escaped ''  '' line = (w @ blank pretty) @ CHR ''='' # replace_all escaped ''  '' rest"
    unfolding w(1) by (simp add: blank_def replace_other)
  have tw: "takeWhile (\<lambda>c. c \<noteq> CHR ''='') (replace_all escaped ''  '' line) = w @ blank pretty"
    unfolding n using w(3) by (subst takeWhile_append2) (auto simp: blank_def)
  have take: "take (length w + length (blank pretty)) line = ?e @ blank pretty"
    and drop: "drop (Suc (length w + length (blank pretty))) line = rest"
    by (simp_all add: line_def w(2))
  have "trim (?e @ blank pretty) = ?e" using trim_pad_right [OF e(5)] e(5) by (simp add: blank_def)
  moreover have "trim rest = v" using trim_pad [OF v'] v' by (simp add: rest_def blank_def trim_def)
  moreover have "line \<noteq> []" "hd line \<notin> {CHR '';'', CHR ''[''}" using e by (simp_all add: line_def)
  moreover have "CHR ''='' \<in> set (replace_all escaped ''  '' line)" unfolding n by simp
  ultimately show ?thesis
    by (simp add: parseLine_def t Let_def tw take drop unescape)
qed

lemma parse_section:
  assumes "section_ok sec"
  shows "parseLine (''['' @ sec @ '']'') = (PDATA_SECTION, sec, [])"
proof -
  have t: "trim sec = sec" using assms norm_key_trim by (simp add: section_ok_def)
  have "trim (''['' @ sec @ '']'') = ''['' @ sec @ '']''"
    by (intro trim_id) (simp add: white_def whitespaceDelimiters_def NEWLINE_def)
  moreover have "takeWhile (\<lambda>c. c \<noteq> CHR '';'') (''['' @ sec @ '']'') = ''['' @ sec @ '']''"
    using assms by (auto simp: takeWhile_eq_all_conv section_ok_def)
  ultimately show ?thesis by (simp add: parseLine_def Let_def before_last_def t)
qed

text \<open>The lines of the generated text.\<close>

definition section_lines :: "bool \<Rightarrow> string \<times> (string \<times> string) list \<Rightarrow> string list" where
  "section_lines pretty it = (''['' @ fst it @ '']'') # map (generate_key pretty) (snd it)"

fun gen_lines :: "bool \<Rightarrow> (string \<times> (string \<times> string) list) list \<Rightarrow> string list" where
  "gen_lines pretty [] = []"
| "gen_lines pretty [it] = section_lines pretty it"
| "gen_lines pretty (it # it2 # rest) = section_lines pretty it @ (if pretty then [[]] else []) @ gen_lines pretty (it2 # rest)"

lemma join_append: "xs \<noteq> [] \<Longrightarrow> ys \<noteq> [] \<Longrightarrow> join c (xs @ ys) = join c xs @ c # join c ys"
proof (induction xs)
  case (Cons x xs)
  then show ?case by (cases xs; cases ys) simp_all
qed simp

lemma gen_lines_not_Nil: "xs \<noteq> [] \<Longrightarrow> gen_lines pretty xs \<noteq> []"
  by (cases "(pretty, xs)" rule: gen_lines.cases) (simp_all add: section_lines_def)

lemma section_text: "generate_section pretty it = join NEWLINE (section_lines pretty (fst it, ini_data (snd it)))"
  by (cases "ini_data (snd it)") (simp_all add: generate_section_def section_lines_def ini_size_def)

lemma sections_text: "generate_sections pretty d = join NEWLINE (gen_lines pretty (map (\<lambda>(k, sub). (k, ini_data sub)) d))"
proof (induction pretty d rule: generate_sections.induct)
  case (3 pretty it it2 rest)
  let ?rest = "gen_lines pretty (map (\<lambda>(k, sub). (k, ini_data sub)) (it2 # rest))"
  have ne: "?rest \<noteq> []" "section_lines pretty (fst it, ini_data (snd it)) \<noteq> []"
    using gen_lines_not_Nil [of "map (\<lambda>(k, sub). (k, ini_data sub)) (it2 # rest)" pretty] by (auto simp: section_lines_def)
  obtain l ls where r: "?rest = l # ls" using ne by (cases ?rest) auto
  have "join NEWLINE ([] # ?rest) = NEWLINE # join NEWLINE ?rest" unfolding r by simp
  with 3 ne show ?case
    by (cases it; cases it2; cases pretty) (simp_all add: section_text join_append)
qed (simp_all add: section_text split_beta)

lemma file_lines_clean:
  "clean w \<Longrightarrow> file_lines b w = [b @ w]" "clean w \<Longrightarrow> file_lines b (w @ NEWLINE # z) = (b @ w) # file_lines [] z"
  by (induction w arbitrary: b) (auto simp: clean_def)

lemma lines_join: "ls \<noteq> [] \<Longrightarrow> list_all clean ls \<Longrightarrow> file_lines [] (join NEWLINE ls) = ls"
proof (induction ls)
  case (Cons l ls)
  then show ?case by (cases ls) (simp_all add: file_lines_clean)
qed simp

lemma clean_append [simp]: "clean (u @ w) \<longleftrightarrow> clean u \<and> clean w" "clean []"
    "clean (c # w) \<longleftrightarrow> c \<noteq> NEWLINE \<and> c \<noteq> NUL \<and> c \<noteq> CHR 0x0D \<and> clean w"
  by (auto simp: clean_def)

lemma clean_escape: "clean k \<Longrightarrow> clean (replace_all ''='' escaped k)"
proof (induction k)
  case (Cons c k)
  then show ?case by (cases "c = CHR ''=''") (simp_all add: NEWLINE_def NUL_def)
qed simp

lemma clean_key: "key_ok k \<Longrightarrow> value_ok v \<Longrightarrow> clean (generate_key pretty (k, v))"
  by (simp add: generate_key_split blank_def clean_escape key_ok_def value_ok_def NEWLINE_def NUL_def)

lemma clean_section:
  "section_ok sec \<Longrightarrow> list_all (\<lambda>(k, v). key_ok k \<and> value_ok v) coll \<Longrightarrow> list_all clean (section_lines pretty (sec, coll))"
  by (induction coll) (auto simp: section_lines_def section_ok_def NEWLINE_def NUL_def clean_key)

lemma join_not_Nil: "ls \<noteq> [] \<Longrightarrow> hd ls \<noteq> [] \<Longrightarrow> join c ls \<noteq> []"
  by (cases "(c, ls)" rule: join.cases) simp_all

lemma gen_lines_hd: "xs \<noteq> [] \<Longrightarrow> hd (gen_lines pretty xs) \<noteq> []"
  by (cases "(pretty, xs)" rule: gen_lines.cases) (simp_all add: section_lines_def)

lemma spec_keys:
  "list_all (\<lambda>(k, v). key_ok k \<and> value_ok v) coll \<Longrightarrow> distinct (map fst (pre @ coll)) \<Longrightarrow> sec \<notin> fst ` set a \<Longrightarrow>
     norm_key sec = sec \<Longrightarrow>
     fold spec_line (map (generate_key pretty) coll) (a @ [(sec, pre)], sec, True) = (a @ [(sec, pre @ coll)], sec, True)"
proof (induction coll arbitrary: pre)
  case (Cons kv coll)
  obtain k v where kv: "kv = (k, v)" by (cases kv)
  have n: "map_of a sec = None" using Cons.prems(3) by (simp add: map_of_eq_None_iff)
  have u: "AList.update sec y (a @ [(sec, pre)]) = a @ [(sec, y)]" for y
    using Cons.prems(3) by (induction a) auto
  have new: "k \<notin> fst ` set pre" using Cons.prems(2) kv by auto
  have k: "key_ok k" "value_ok v" "norm_key k = k" using Cons.prems(1) kv by (simp_all add: key_ok_def)
  have "spec_line (generate_key pretty kv) (a @ [(sec, pre)], sec, True) = (a @ [(sec, pre @ [kv])], sec, True)"
    using k Cons.prems(4) n by (simp add: kv parse_key spec_section_def u update_new [OF new] map_add_def)
  with Cons.IH [of "pre @ [kv]"] Cons.prems show ?case by simp
qed simp

lemma spec_sections:
  "list_all (\<lambda>(sec, coll). section_ok sec \<and> list_all (\<lambda>(k, v). key_ok k \<and> value_ok v) coll) xs \<Longrightarrow>
     distinct (map fst (a @ xs)) \<Longrightarrow> (\<forall>coll\<in>snd ` set xs. distinct (map fst coll)) \<Longrightarrow>
     fst (fold spec_line (gen_lines pretty xs) (a, st)) = a @ xs"
proof (induction xs arbitrary: a st)
  case (Cons it xs)
  obtain sec coll where it: "it = (sec, coll)" by (cases it)
  have sec: "section_ok sec" "norm_key sec = sec" using Cons.prems(1) it by (simp_all add: section_ok_def)
  have new: "sec \<notin> fst ` set a" using Cons.prems(2) it by auto
  then have "map_of a sec = None" by (simp add: map_of_eq_None_iff)
  then have "spec_line (''['' @ sec @ '']'') (a, st) = (a @ [(sec, [])], sec, True)"
    using sec new parse_section [OF sec(1)] by (cases st) (simp add: spec_section_def update_new)
  moreover have "fold spec_line (map (generate_key pretty) coll) (a @ [(sec, [])], sec, True) = (a @ [(sec, coll)], sec, True)"
    using spec_keys [of coll "[]" sec a pretty] Cons.prems it new sec by simp
  ultimately have f: "fold spec_line (section_lines pretty it) (a, st) = (a @ [it], sec, True)"
    by (simp add: section_lines_def it)
  have e: "parseLine [] = (PDATA_NONE, [], [])" by (simp add: parseLine_def trim_def)
  show ?case
  proof (cases xs)
    case Nil
    with f show ?thesis by simp
  next
    case (Cons it2 rest)
    have "fst (fold spec_line (gen_lines pretty xs) (a @ [it], sec, True)) = (a @ [it]) @ xs"
      using Cons.prems by (intro Cons.IH) simp_all
    with f e Cons show ?thesis by (cases pretty) simp_all
  qed
qed simp

lemma generated_read:
  assumes inv: "struct_inv s" and w: "writable s"
  shows "INIReader_read (INIGenerator_text pretty s) empty_map = Inr s"
proof -
  have d: "distinct (map fst (ini_abs s))" "\<forall>coll\<in>snd ` set (ini_abs s). distinct (map fst coll)"
    using inv by (auto simp: ini_abs_def struct_inv_def ini_inv_def comp_def split_beta)
  have "spec_read (INIGenerator_text pretty s) = ini_abs s"
  proof (cases "ini_data s = []")
    case True
    then show ?thesis by (simp add: INIGenerator_text_def spec_read_def readFile_def ini_abs_def)
  next
    case False
    then have ne: "ini_abs s \<noteq> []" by (simp add: ini_abs_def)
    have t: "INIGenerator_text pretty s = join NEWLINE (gen_lines pretty (ini_abs s))"
      by (simp add: INIGenerator_text_def sections_text ini_abs_def)
    have c: "list_all clean (gen_lines pretty xs)"
      if "list_all (\<lambda>(sec, coll). section_ok sec \<and> list_all (\<lambda>(k, v). key_ok k \<and> value_ok v) coll) xs" for xs
      using that by (induction pretty xs rule: gen_lines.induct) (auto simp: clean_section split_beta)
    have "join NEWLINE (gen_lines pretty (ini_abs s)) \<noteq> []"
      by (rule join_not_Nil [OF gen_lines_not_Nil [OF ne] gen_lines_hd [OF ne]])
    with t ne have "readFile (INIGenerator_text pretty s) = gen_lines pretty (ini_abs s)"
      using c [of "ini_abs s"] w gen_lines_not_Nil [OF ne] by (simp add: readFile_def lines_join writable_def)
    with spec_sections [of "ini_abs s" "[]" pretty] d w show ?thesis by (simp add: spec_read_def writable_def)
  qed
  with reader_refines [of "INIGenerator_text pretty s"] struct_eqI [OF _ inv] show ?thesis by metis
qed

end
