(* ===== verification/KonroConfig.thy ===== *)
theory KonroConfig
  imports IniFile PolicyManager
begin

text \<open>
  \<open>common/src/config.cpp\<close> with \<open>common/include/config.h\<close>, and the part of
  \<open>rm/src/konromanager.cpp\<close> that fills the members \<open>cfg...\<close> from it: the map of a configuration
  file, the conversions of the C++ library the template \<open>read\<close> chooses, and the defaults. The
  file is read by the vendored mINI library (\<open>Ini\<close>, \<open>IniFile\<close>). What is shown: whatever the file
  holds, loading it does not throw; a key that is missing or malformed gives the default of its member and nothing else, so that
  a file without keys configures exactly the defaults the other components are built with.
\<close>

section \<open>The map of the file\<close>

text \<open>The loops over the sections and their keys; \<open>None\<close> is a file that cannot be read.\<close>

type_synonym konro_map = "string \<times> string \<rightharpoonup> string"

definition Config :: "ini_structure option \<Rightarrow> konro_map result" where
  "Config read_success =
     (case read_success of
        None \<Rightarrow> Inl (LogicError ''FATAL ERROR: Impossible to open config file.'')
      | Some ini \<Rightarrow>
          Inr (foldl (\<lambda>m (section, collection).
            foldl (\<lambda>m (key, v). m((section, key) \<mapsto> v)) m (ini_data collection)) Map.empty (ini_data ini)))"

section \<open>Conversions\<close>

text \<open>\<open>std::stoi\<close>: both failures are logic errors.\<close>

definition stoi :: "string \<Rightarrow> int result" where
  "stoi s =
     (case scan_number s of
        None \<Rightarrow> Inl (LogicError ''stoi'')
      | Some (neg, n, rest) \<Rightarrow>
          (let v = (if neg then - int n else int n) in if is_int32 v then Inr v else Inl OutOfRange))"

definition starts_with :: "string \<Rightarrow> string \<Rightarrow> bool" where
  "starts_with p s \<longleftrightarrow> take (length p) (map lower s) = p"

definition hex_digit :: "char \<Rightarrow> bool" where
  "hex_digit c \<longleftrightarrow> isdigit c \<or> (97 \<le> code (lower c) \<and> code (lower c) \<le> 102)"

definition hex_value :: "char \<Rightarrow> int" where
  "hex_value c = (if isdigit c then int (code c) - 48 else int (code (lower c)) - 87)"

text \<open>The digits of a significand, before and after the point, and what follows.\<close>

definition significand :: "(char \<Rightarrow> bool) \<Rightarrow> string \<Rightarrow> (string \<times> string \<times> string) option" where
  "significand dig s =
     (let (whole, r) = Text.span dig s;
          (dec, rest) = (if peek r = CHR ''.'' then Text.span dig (tl r) else ([], r))
      in if whole = [] \<and> dec = [] then None else Some (whole, dec, rest))"

text \<open>The exponent after the letter \<open>e\<close>; without digits there is none.\<close>

definition exponent :: "char \<Rightarrow> string \<Rightarrow> int" where
  "exponent e s =
     (if lower (peek s) \<noteq> e then 0
      else (let r = tl s; neg = (peek r = CHR ''-'');
                ds = fst (Text.span isdigit (if neg \<or> peek r = CHR ''+'' then tl r else r))
            in if neg then - int (digits_value ds) else int (digits_value ds)))"

definition scaled :: "int \<Rightarrow> int \<Rightarrow> int \<Rightarrow> int \<times> int" where
  "scaled m b e = (if 0 \<le> e then (m * b ^ nat e, 1) else (m, b ^ nat (- e)))"

text \<open>
  The number that a text begins with, as an exact fraction: hexadecimal after \<open>0x\<close>, decimal
  otherwise.
\<close>

definition scan_fraction :: "string \<Rightarrow> (int \<times> int) option" where
  "scan_fraction s =
     (case (if starts_with ''0x'' s then significand hex_digit (drop 2 s) else None) of
        Some (whole, dec, rest) \<Rightarrow>
          Some (scaled (foldl (\<lambda>v c. 16 * v + hex_value c) 0 (whole @ dec)) 2
                  (exponent (CHR ''p'') rest - 4 * int (length dec)))
      | None \<Rightarrow>
          (case significand isdigit s of
             None \<Rightarrow> None
           | Some (whole, dec, rest) \<Rightarrow>
               Some (scaled (int (digits_value (whole @ dec))) 10
                       (exponent (CHR ''e'') rest - int (length dec)))))"

text \<open>
  \<open>std::stof\<close>: the nearest \<open>float\<close>. \<open>ERANGE\<close>, which becomes \<open>out_of_range\<close>, is an overflow, or
  a value below the smallest normal number that cannot be represented; as on x86-64 "below"
  is meant after rounding to 24 bits, so the last half unit under \<open>2 ^ -126\<close> does not count.
\<close>

definition stof_fraction :: "bool \<Rightarrow> int \<times> int \<Rightarrow> flt result" where
  "stof_fraction neg nd =
     (case nd of (n, d) \<Rightarrow>
        (case f32 n d of
           Fin k \<Rightarrow>
             if n * 2 ^ 151 < (2 ^ 25 - 1) * d \<and> k * d \<noteq> n * 2 ^ 149 then Inl OutOfRange
             else Inr (Fin (if neg then - k else k))
         | _ \<Rightarrow> Inl OutOfRange))"

definition stof :: "string \<Rightarrow> flt result" where
  "stof s =
     (let s1 = dropWhile isspace s;
          neg = (peek s1 = CHR ''-'');
          s2 = (if neg \<or> peek s1 = CHR ''+'' then tl s1 else s1)
      in if starts_with ''inf'' s2 then Inr (if neg then NInf else PInf)
         else if starts_with ''nan'' s2 then Inr NaN
         else (case scan_fraction s2 of
                 None \<Rightarrow> Inl (LogicError ''stof'')
               | Some nd \<Rightarrow> stof_fraction neg nd))"

section \<open>Reading a key\<close>

definition read_string :: "konro_map \<Rightarrow> string \<Rightarrow> string \<Rightarrow> string result" where
  "read_string m section key = (case m (section, key) of None \<Rightarrow> Inl OutOfRange | Some v \<Rightarrow> Inr v)"

text \<open>
  \<open>read<T>\<close>: whatever logic error comes up, an object of the base class is thrown again.
\<close>

definition read_as :: "(string \<Rightarrow> 'a result) \<Rightarrow> konro_map \<Rightarrow> string \<Rightarrow> string \<Rightarrow> 'a result" where
  "read_as string_to m section key =
     (case read_string m section key of
        Inl e \<Rightarrow> Inl (LogicError ''read'')
      | Inr s \<Rightarrow> (case string_to s of Inl e \<Rightarrow> Inl (LogicError ''read'') | Inr v \<Rightarrow> Inr v))"

definition configRead :: "'a result \<Rightarrow> 'a \<Rightarrow> 'a" where
  "configRead r defaultValue = (case r of Inl e \<Rightarrow> defaultValue | Inr v \<Rightarrow> v)"

section \<open>The members of KonroManager\<close>

record konro_config =
  cfgPolicyName :: string
  cfgTimerSeconds :: int
  cfgMonitorPeriod :: int
  cfgCpuModuleNames :: string
  cfgBatteryModuleNames :: string
  httpListenHost :: string
  httpListenPort :: int
  cfgChangeContainerCgroup :: bool
  cfgChangeKubernetesCgroup :: bool
  cfgSecurityPeriod :: int
  cfgWFanout :: flt
  cfgWHalfOpen :: flt
  cfgWForkRate :: flt
  cfgWNewExec :: flt
  cfgWCpuBurst :: flt
  cfgWEgress :: flt
  cfgWMem :: flt
  cfgWRawSocket :: flt
  cfgEwmaAlpha :: flt
  cfgPublishThreshold :: flt
  cfgT1 :: flt
  cfgT2 :: flt
  cfgT3 :: flt
  cfgDwell :: int

definition read_configuration :: "konro_map \<Rightarrow> konro_config" where
  "read_configuration m =
     \<lparr> cfgPolicyName = configRead (read_string m ''policy'' ''policy'') ''NoPolicy'',
       cfgTimerSeconds = configRead (read_as stoi m ''policytimer'' ''timerseconds'') 30,
       cfgMonitorPeriod = configRead (read_as stoi m ''platformmonitor'' ''monitorperiod'') 20,
       cfgCpuModuleNames = configRead (read_string m ''platformmonitor'' ''kernelcpumodulenames'') ''coretemp,k10temp,k8temp,cputemp'',
       cfgBatteryModuleNames = configRead (read_string m ''platformmonitor'' ''kernelbatterymodulenames'') ''BAT'',
       httpListenHost = configRead (read_string m ''http'' ''listenhost'') ''localhost'',
       httpListenPort = configRead (read_as stoi m ''http'' ''listenport'') 8080,
       cfgChangeContainerCgroup = (configRead (read_as stoi m ''container'' ''changecontainercgroup'') 1 \<noteq> 0),
       cfgChangeKubernetesCgroup = (configRead (read_as stoi m ''kubernetes'' ''changekubernetescgroup'') 1 \<noteq> 0),
       cfgSecurityPeriod = configRead (read_as stoi m ''securitymonitor'' ''securityperiod'') 10,
       cfgWFanout = configRead (read_as stof m ''securitymonitor'' ''weight_fanout'') (f32 30 100),
       cfgWHalfOpen = configRead (read_as stof m ''securitymonitor'' ''weight_halfopen'') (f32 25 100),
       cfgWForkRate = configRead (read_as stof m ''securitymonitor'' ''weight_forkrate'') (f32 15 100),
       cfgWNewExec = configRead (read_as stof m ''securitymonitor'' ''weight_newexec'') (f32 20 100),
       cfgWCpuBurst = configRead (read_as stof m ''securitymonitor'' ''weight_cpuburst'') (f32 10 100),
       cfgWEgress = configRead (read_as stof m ''securitymonitor'' ''weight_egress'') (f32 15 100),
       cfgWMem = configRead (read_as stof m ''securitymonitor'' ''weight_mem'') (f32 10 100),
       cfgWRawSocket = configRead (read_as stof m ''securitymonitor'' ''weight_rawsocket'') (f32 20 100),
       cfgEwmaAlpha = configRead (read_as stof m ''securitymonitor'' ''ewma_alpha'') (f32 30 100),
       cfgPublishThreshold = configRead (read_as stof m ''securitymonitor'' ''publish_threshold'') (f32 40 100),
       cfgT1 = configRead (read_as stof m ''securitypolicy'' ''threshold_t1'') (f32 40 100),
       cfgT2 = configRead (read_as stof m ''securitypolicy'' ''threshold_t2'') (f32 60 100),
       cfgT3 = configRead (read_as stof m ''securitypolicy'' ''threshold_t3'') (f32 80 100),
       cfgDwell = configRead (read_as stoi m ''securitypolicy'' ''dwell_periods'') 3 \<rparr>"

definition defaultConfigFilePath :: "string option \<Rightarrow> string" where
  "defaultConfigFilePath home =
     (case home of
        None \<Rightarrow> ''konro.ini''
      | Some h \<Rightarrow> if h = [] then ''konro.ini'' else make_path h ''konro.ini'')"

text \<open>
  \<open>loadConfiguration\<close>: \<open>None\<close> when there is no regular file of the name, in which case the
  members that are numbers are never initialised. \<open>home\<close> is the environment variable.
\<close>

definition loadConfiguration ::
  "('k, 'm) os_scheme \<Rightarrow> string option \<Rightarrow> string \<Rightarrow> ('k, konro_config option) act" where
  "loadConfiguration os home configFile =
     (let path = (if configFile = [] then defaultConfigFilePath home else configFile) in
      bnd (file_exists os path) (\<lambda>b.
      if \<not> b then ret None
      else bnd (INIFile_read os path empty_map) (\<lambda>r.
           bnd (lift_result (Config r)) (\<lambda>m. ret (Some (read_configuration m))))))"

text \<open>What \<open>run\<close> builds of the members for the policy and for the security monitor.\<close>

definition config_thresholds :: "konro_config \<Rightarrow> thresholds" where
  "config_thresholds c =
     default_thresholds\<lparr>t1 := cfgT1 c, t2 := cfgT2 c, t3 := cfgT3 c, dwellN := cfgDwell c\<rparr>"

definition config_weights :: "konro_config \<Rightarrow> sai_weights" where
  "config_weights c =
     \<lparr> fanout = cfgWFanout c, halfOpen = cfgWHalfOpen c, forkRate = cfgWForkRate c, newExec = cfgWNewExec c,
       cpuBurst = cfgWCpuBurst c, egress = cfgWEgress c, memGrowth = cfgWMem c, rawSocket = cfgWRawSocket c \<rparr>"

section \<open>Facts\<close>

text \<open>
  The map of a text: section and key are looked up in what the reader has made of it, which
  names a section once and a key once in it.
\<close>

definition text_map :: "string \<Rightarrow> konro_map" where
  "text_map contents = (\<lambda>(section, key). Option.bind (map_of (spec_read contents) section) (\<lambda>c. map_of c key))"

lemma foldl_keys:
  "distinct (map fst kvs) \<Longrightarrow>
     foldl (\<lambda>m (key, v). m((section, key) \<mapsto> v)) m kvs =
     (\<lambda>(s, k). if s = section \<and> k \<in> fst ` set kvs then map_of kvs k else m (s, k))"
proof (induction kvs arbitrary: m)
  case (Cons kv kvs)
  obtain k v where kv: "kv = (k, v)" by (cases kv)
  from Cons show ?case by (auto simp: kv fun_eq_iff)
qed auto

lemma foldl_sections:
  "distinct (map fst secs) \<Longrightarrow> \<forall>(s, c)\<in>set secs. distinct (map fst c) \<and> (\<forall>k. m (s, k) = None) \<Longrightarrow>
     foldl (\<lambda>m (section, collection). foldl (\<lambda>m (key, v). m((section, key) \<mapsto> v)) m collection) m secs =
     (\<lambda>(s, k). if s \<in> fst ` set secs then Option.bind (map_of secs s) (\<lambda>c. map_of c k) else m (s, k))"
proof (induction secs arbitrary: m)
  case (Cons sc secs)
  obtain s c where sc: "sc = (s, c)" by (cases sc)
  let ?m = "\<lambda>(s', k). if s' = s \<and> k \<in> fst ` set c then map_of c k else m (s', k)"
  have c: "distinct (map fst c)" "m (s, k) = None" for k using Cons.prems(2) sc by auto
  have s: "s \<notin> fst ` set secs" using Cons.prems(1) sc by auto
  have none: "k \<notin> fst ` set c \<Longrightarrow> map_of c k = None" for k by (simp add: map_of_eq_None_iff)
  let ?f = "\<lambda>m (section, collection). foldl (\<lambda>m (key, v). m((section, key) \<mapsto> v)) m collection"
  have "foldl ?f m (sc # secs) = foldl ?f ?m secs" by (simp only: sc foldl_Cons prod.case foldl_keys [OF c(1)])
  also have "\<dots> =
     (\<lambda>(s, k). if s \<in> fst ` set secs then Option.bind (map_of secs s) (\<lambda>c. map_of c k) else ?m (s, k))"
    using Cons.prems s sc by (intro Cons.IH) (auto simp: image_iff)
  also have "\<dots> = (\<lambda>(s, k). if s \<in> fst ` set (sc # secs) then Option.bind (map_of (sc # secs) s) (\<lambda>c. map_of c k) else m (s, k))"
    using c(2) s none by (auto simp: sc fun_eq_iff)
  finally show ?case .
qed simp

lemma Config_structure:
  assumes "struct_inv s"
  shows "Config (Some s) = Inr (\<lambda>(section, key). Option.bind (map_of (ini_abs s) section) (\<lambda>c. map_of c key))"
proof -
  have a: "foldl (\<lambda>m (section, collection). foldl (\<lambda>m (key, v). m((section, key) \<mapsto> v)) m (ini_data collection)) m d
      = foldl (\<lambda>m (section, collection). foldl (\<lambda>m (key, v). m((section, key) \<mapsto> v)) m collection) m
          (map (\<lambda>(k, sub). (k, ini_data sub)) d)" for m :: konro_map and d
    by (induction d arbitrary: m) auto
  have "distinct (map fst (ini_abs s))" "\<forall>(sec, c)\<in>set (ini_abs s). distinct (map fst c)"
    using assms by (auto simp: ini_abs_def struct_inv_def ini_inv_def comp_def split_beta)
  then have "foldl (\<lambda>m (section, collection). foldl (\<lambda>m (key, v). m((section, key) \<mapsto> v)) m collection) Map.empty (ini_abs s)
     = (\<lambda>(section, key). Option.bind (map_of (ini_abs s) section) (\<lambda>c. map_of c key))"
    by (subst foldl_sections) (auto simp: fun_eq_iff dest!: map_of_eq_None_iff [THEN iffD2])
  then show ?thesis unfolding Config_def option.case a by (simp add: ini_abs_def)
qed

text \<open>Whatever the file holds, loading it neither throws nor reads out of range.\<close>

lemma config_path [simp]: "defaultConfigFilePath home \<noteq> []"
  by (auto simp: defaultConfigFilePath_def make_path_def split: option.split)

lemma load_text:
  assumes "os_stat os path k = (Some Regular, k')" and "os_read os path k' = (Some contents, k'')"
    and "path = (if configFile = [] then defaultConfigFilePath home else configFile)"
  shows "loadConfiguration os home configFile k = (Inr (Some (read_configuration (text_map contents))), k'')"
proof -
  have path: "path \<noteq> []" using assms(3) by simp
  obtain s where s: "INIReader_read contents empty_map = Inr s" "struct_inv s" "ini_abs s = spec_read contents"
    using reader_refines by blast
  have "ini_size (empty_map :: ini_structure) = 0" by (simp add: ini_size_def empty_map_def)
  with assms path s show ?thesis
    by (simp add: loadConfiguration_def file_exists_def INIFile_read_def act_defs Let_def Config_structure text_map_def)
qed

text \<open>A malformed or missing value is as good as none; nothing is thrown.\<close>

lemma configRead_missing [simp]:
  "m (section, key) = None \<Longrightarrow> configRead (read_string m section key) d = d"
  "m (section, key) = None \<Longrightarrow> configRead (read_as conv m section key) d' = d'"
  by (simp_all add: configRead_def read_as_def read_string_def)

lemma configRead_malformed:
  "m (section, key) = Some s \<Longrightarrow> conv s = Inl e \<Longrightarrow> configRead (read_as conv m section key) d = d"
  by (simp add: configRead_def read_as_def read_string_def)

lemma configRead_present:
  "m (section, key) = Some s \<Longrightarrow> conv s = Inr v \<Longrightarrow> configRead (read_as conv m section key) d = v"
  by (simp add: configRead_def read_as_def read_string_def)

lemma no_keys_defaults:
  "config_thresholds (read_configuration Map.empty) = default_thresholds"
  "config_weights (read_configuration Map.empty) = default_weights"
  by (simp_all add: config_thresholds_def config_weights_def read_configuration_def default_weights_def,
      simp add: default_thresholds_def, code_simp)

lemma stoi_int32: "stoi s = Inr v \<Longrightarrow> is_int32 v"
  by (auto simp: stoi_def Let_def split: option.splits if_splits)

lemma stoi_show: "is_int32 v \<Longrightarrow> stoi (show_int v) = Inr v"
proof -
  assume v: "is_int32 v"
  have m: "isspace (CHR ''-'') = False" by (simp add: isspace_def code_def)
  show ?thesis
  proof (cases "v < 0")
    case False
    then show ?thesis using v scan_number_show_nat [of "[]" "nat v"] by (simp add: stoi_def show_int_def)
  next
    case True
    have "Text.span isdigit (show_nat n) = (show_nat n, [])" for n
      using span_append [of "show_nat n" isdigit "[]"] show_nat_digits by simp
    then have "scan_number (CHR ''-'' # show_nat n) = Some (True, n, [])" for n
      by (simp add: scan_number_def m Let_def)
    with True v show ?thesis by (simp add: stoi_def show_int_def)
  qed
qed

text \<open>\<open>0\<close> and \<open>1\<close> switch a flag; a word such as \<open>false\<close> leaves it at its default, which is on.\<close>

lemma flag_word: "stoi ''false'' = Inl (LogicError ''stoi'')" "stoi ''0'' = Inr 0" "stoi ''1'' = Inr 1"
  by code_simp+

end
