(* ===== verification/WorkloadManager.thy ===== *)
theory WorkloadManager
  imports CgroupControl Events StdSet
begin

text \<open>
  \<open>rm/workloadmanager/workloadmanager.{h,cpp}\<close>: the component that follows the processes of
  the managed applications. Its state is the set of applications, ordered by process id, and
  the events it has published, in order. It reaches the control groups through
  \<open>IPlatformControl\<close>, here a record of two functions; the locale \<open>platform_control\<close> states what
  the manager relies on, and \<open>CGroupControl\<close> interprets it. The kernel's \<open>proc_event\<close>
  structure is read through four accessors, since its layout is not part of the sources.
\<close>

section \<open>Interfaces\<close>

record 'k platform_ops =
  pc_addApplication :: "app \<Rightarrow> ('k, bool \<times> app) act"
  pc_removeApplication :: "app \<Rightarrow> ('k, bool) act"

definition cgroup_ops :: "('k, 'm) platform_scheme \<Rightarrow> 'k platform_ops" where
  "cgroup_ops pf = \<lparr> pc_addApplication = addApplication pf, pc_removeApplication = removeApplication pf \<rparr>"

record proc_abi =
  fork_parent_pid :: "8 word list \<Rightarrow> int"
  fork_child_pid :: "8 word list \<Rightarrow> int"
  exec_process_pid :: "8 word list \<Rightarrow> int"
  exit_process_pid :: "8 word list \<Rightarrow> int"

section \<open>State\<close>

record workload_manager =
  wm_changeContainerCgroup :: bool
  wm_changeKubernetesCgroup :: bool
  wm_apps :: "app list"
  wm_published :: "event list"

type_synonym ('k, 'a) wm_act = "('k \<times> workload_manager, 'a) act"

definition new_workload_manager :: "bool \<Rightarrow> bool \<Rightarrow> workload_manager" where
  "new_workload_manager cc ck =
     \<lparr> wm_changeContainerCgroup = cc, wm_changeKubernetesCgroup = ck, wm_apps = [], wm_published = [] \<rparr>"

definition wm_get :: "(workload_manager \<Rightarrow> 'a) \<Rightarrow> ('k, 'a) wm_act" where
  [act_defs]: "wm_get f = gets (f \<circ> snd)"

definition wm_upd :: "(workload_manager \<Rightarrow> workload_manager) \<Rightarrow> ('k, unit) wm_act" where
  [act_defs]: "wm_upd f = modify (\<lambda>(k, w). (k, f w))"

definition publish :: "event \<Rightarrow> ('k, unit) wm_act" where
  "publish ev = wm_upd (\<lambda>w. w\<lparr>wm_published := wm_published w @ [ev]\<rparr>)"

definition findAppByPid :: "int \<Rightarrow> workload_manager \<Rightarrow> app option" where
  "findAppByPid pid w = ks_find getPid pid (wm_apps w)"

definition findAppByNsPid :: "int \<Rightarrow> nat \<Rightarrow> workload_manager \<Rightarrow> app option" where
  "findAppByNsPid nspid ns w = find (\<lambda>a. getNsPid a = nspid \<and> getAppNamespace a = ns) (wm_apps w)"

definition isInKonro :: "int \<Rightarrow> workload_manager \<Rightarrow> bool" where
  "isInKonro pid w \<longleftrightarrow> findAppByPid pid w \<noteq> None"

section \<open>Operations\<close>

text \<open>The name of a process: the first line of its command line, its zero bytes made blanks.\<close>

definition getProcessNameByPid :: "('k, 'm) os_scheme \<Rightarrow> int \<Rightarrow> ('k, string) act" where
  "getProcessNameByPid os pid =
     bnd (sys (os_read os (proc_path pid ''cmdline''))) (\<lambda>r.
       ret (case r of
              None \<Rightarrow> []
            | Some text \<Rightarrow> map (\<lambda>c. if c = NUL then CHR '' '' else c) (first_line text)))"

definition wm_add :: "'k platform_ops \<Rightarrow> app \<Rightarrow> ('k, unit) wm_act" where
  "wm_add pc app =
     bnd (on_fst (pc_addApplication pc app)) (\<lambda>(ok, app').
     if \<not> ok then ret ()
     else
       bnd (wm_upd (\<lambda>w. w\<lparr>wm_apps := ks_insert getPid app' (wm_apps w)\<rparr>)) (\<lambda>_.
       publish (AddEvent app')))"

definition wm_remove :: "'k platform_ops \<Rightarrow> int \<Rightarrow> ('k, unit) wm_act" where
  "wm_remove pc pid =
     bnd (wm_get (findAppByPid pid)) (\<lambda>it.
       case it of
         None \<Rightarrow> ret ()
       | Some app \<Rightarrow>
           bnd (publish (RemoveEvent app)) (\<lambda>_.
           bnd (on_fst (pc_removeApplication pc app)) (\<lambda>_.
           wm_upd (\<lambda>w. w\<lparr>wm_apps := ks_erase getPid pid (wm_apps w)\<rparr>))))"

definition processForkEvent ::
  "('k, 'm) os_scheme \<Rightarrow> 'k platform_ops \<Rightarrow> proc_abi \<Rightarrow> 8 word list \<Rightarrow> ('k, unit) wm_act" where
  "processForkEvent os pc abi data =
     bnd (wm_get (findAppByPid (fork_parent_pid abi data))) (\<lambda>iter.
       case iter of
         None \<Rightarrow> ret ()
       | Some prnt \<Rightarrow>
           (let parentType = getAppType prnt in
            bnd (wm_get (\<lambda>w. parentType = CONTAINER \<and> \<not> wm_changeContainerCgroup w
                           \<or> parentType = KUBERNETES \<and> \<not> wm_changeKubernetesCgroup w)) (\<lambda>skip.
            if skip then ret ()
            else
              (let app = makeApp (fork_child_pid abi data) parentType [] 0 0 UNCLASSIFIED in
               bnd (on_fst (getProcessNameByPid os (getPid app))) (\<lambda>name.
               wm_add pc (setName name app))))))"

definition processExecEvent :: "('k, 'm) os_scheme \<Rightarrow> proc_abi \<Rightarrow> 8 word list \<Rightarrow> ('k, unit) wm_act" where
  "processExecEvent os abi data =
     (let pid = exec_process_pid abi data in
      bnd (wm_get (findAppByPid pid)) (\<lambda>it.
        case it of
          None \<Rightarrow> ret ()
        | Some app \<Rightarrow>
            bnd (on_fst (getProcessNameByPid os pid)) (\<lambda>name.
            wm_upd (\<lambda>w. w\<lparr>wm_apps := ks_update getPid pid (setName name app) (wm_apps w)\<rparr>))))"

definition processExitEvent :: "'k platform_ops \<Rightarrow> proc_abi \<Rightarrow> 8 word list \<Rightarrow> ('k, unit) wm_act" where
  "processExitEvent pc abi data =
     (let pid = exit_process_pid abi data in
      bnd (wm_get (isInKonro pid)) (\<lambda>b. if b then wm_remove pc pid else ret ()))"

definition processAddRequestEvent :: "'k platform_ops \<Rightarrow> app \<Rightarrow> ('k, unit) wm_act" where
  "processAddRequestEvent pc app =
     bnd (wm_get (isInKonro (getPid app))) (\<lambda>b. if \<not> b then wm_add pc app else ret ())"

definition processFeedbackRequestEvent :: "int \<Rightarrow> nat \<Rightarrow> int \<Rightarrow> ('k, unit) wm_act" where
  "processFeedbackRequestEvent pid ns feedback =
     bnd (wm_get (if ns = 0 then findAppByPid pid else findAppByNsPid pid ns)) (\<lambda>it.
       case it of None \<Rightarrow> ret () | Some app \<Rightarrow> publish (FeedbackEvent app feedback))"

fun wm_handle :: "('k, 'm) os_scheme \<Rightarrow> 'k platform_ops \<Rightarrow> proc_abi \<Rightarrow> event \<Rightarrow> ('k, unit) wm_act" where
  "wm_handle os pc abi (ForkEvent data) = processForkEvent os pc abi data"
| "wm_handle os pc abi (ExecEvent data) = processExecEvent os abi data"
| "wm_handle os pc abi (ExitEvent data) = processExitEvent pc abi data"
| "wm_handle os pc abi (AddRequestEvent app) = processAddRequestEvent pc app"
| "wm_handle os pc abi (FeedbackRequestEvent pid ns fb) = processFeedbackRequestEvent pid ns fb"
| "wm_handle os pc abi _ = ret ()"

definition wm_processEvent :: "('k, 'm) os_scheme \<Rightarrow> 'k platform_ops \<Rightarrow> proc_abi \<Rightarrow> event \<Rightarrow> ('k, bool) wm_act" where
  "wm_processEvent os pc abi ev = bnd (wm_handle os pc abi ev) (\<lambda>_. ret True)"

definition wm_events :: "('k, 'm) os_scheme \<Rightarrow> 'k platform_ops \<Rightarrow> proc_abi \<Rightarrow> event list \<Rightarrow> ('k, unit) wm_act" where
  "wm_events os pc abi evs = for_each evs (\<lambda>ev. bnd (wm_processEvent os pc abi ev) (\<lambda>_. ret ()))"

section \<open>The set and what has been published of it\<close>

definition wm_pids :: "workload_manager \<Rightarrow> int set" where
  "wm_pids w = getPid ` set (wm_apps w)"

text \<open>The process ids that the published events leave a listener with.\<close>

fun told :: "event \<Rightarrow> int set \<Rightarrow> int set" where
  "told (AddEvent a) P = insert (getPid a) P"
| "told (RemoveEvent a) P = P - {getPid a}"
| "told _ P = P"

text \<open>
  The invariant: the set is ordered and without two applications of a process, and whoever
  follows the published events knows exactly its processes.
\<close>

definition wm_inv :: "workload_manager \<Rightarrow> bool" where
  "wm_inv w \<longleftrightarrow> ks_inv getPid (wm_apps w) \<and> fold told (wm_published w) {} = wm_pids w"

lemma wm_inv_new: "wm_inv (new_workload_manager cc ck)"
  by (simp add: wm_inv_def new_workload_manager_def wm_pids_def)

locale platform_control =
  fixes pc :: "'k platform_ops"
  assumes add_same_app: "pc_addApplication pc app k = (Inr (b, app'), k') \<Longrightarrow> getPid app' = getPid app"
    and remove_no_throw: "raises (\<lambda>_. False) (pc_removeApplication pc app)"
begin

lemma inv_keep: "keeps (\<lambda>s. wm_inv (snd s)) (on_fst m)"
  by (auto simp: keeps_def on_fst_def split: prod.splits)

lemma wm_add_inv: "keeps (\<lambda>s. wm_inv (snd s)) (wm_add pc app)"
proof (rule keepsI)
  fix s :: "'k \<times> workload_manager"
  obtain k w where s: "s = (k, w)" by (cases s)
  assume "wm_inv (snd s)"
  then have i: "wm_inv w" by (simp add: s)
  obtain r k' where m: "pc_addApplication pc app k = (r, k')" by (metis prod.collapse)
  show "wm_inv (snd (snd (wm_add pc app s)))"
  proof (cases r)
    case (Inl e)
    with m i show ?thesis by (simp add: s wm_add_def act_defs)
  next
    case (Inr x)
    obtain b app' where x: "x = (b, app')" by (cases x)
    show ?thesis
    proof (cases b)
      case False
      with m i Inr x show ?thesis by (simp add: s wm_add_def act_defs)
    next
      case True
      with m i Inr x show ?thesis
        by (simp add: s wm_add_def publish_def act_defs wm_inv_def wm_pids_def ks_inv_insert keys_ks_insert)
    qed
  qed
qed

lemma wm_remove_inv: "keeps (\<lambda>s. wm_inv (snd s)) (wm_remove pc pid)"
proof (rule keepsI)
  fix s :: "'k \<times> workload_manager"
  obtain k w where s: "s = (k, w)" by (cases s)
  assume "wm_inv (snd s)"
  then have i: "wm_inv w" by (simp add: s)
  show "wm_inv (snd (snd (wm_remove pc pid s)))"
  proof (cases "findAppByPid pid w")
    case None
    with i show ?thesis by (simp add: s wm_remove_def act_defs)
  next
    case (Some app)
    then have pid: "getPid app = pid" by (auto simp: findAppByPid_def dest: ks_find_Some)
    obtain b k' where "pc_removeApplication pc app k = (Inr b, k')"
      using raises_FalseD [OF remove_no_throw] by blast
    with Some i pid show ?thesis
      by (auto simp: s wm_remove_def publish_def act_defs wm_inv_def wm_pids_def ks_inv_erase set_ks_erase)
  qed
qed

lemma wm_exec_inv: "keeps (\<lambda>s :: 'k \<times> workload_manager. wm_inv (snd s)) (processExecEvent os abi data)"
proof (rule keepsI)
  fix s :: "'k \<times> workload_manager"
  obtain k w where s: "s = (k, w)" by (cases s)
  assume "wm_inv (snd s)"
  then have i: "wm_inv w" by (simp add: s)
  show "wm_inv (snd (snd (processExecEvent os abi data s)))"
  proof (cases "findAppByPid (exec_process_pid abi data) w")
    case None
    with i show ?thesis by (simp add: s processExecEvent_def act_defs Let_def)
  next
    case (Some app)
    then have pid: "getPid app = exec_process_pid abi data" by (auto simp: findAppByPid_def dest: ks_find_Some)
    have k: "getPid (setName name app) = exec_process_pid abi data" for name using pid by (simp add: setName_def)
    have "wm_inv (w\<lparr>wm_apps := ks_update getPid (exec_process_pid abi data) (setName name app) (wm_apps w)\<rparr>)" for name
      using i ks_inv_update [of getPid, OF k [of name]] map_key_update [of getPid, OF k [of name], of "wm_apps w"]
      by (simp add: wm_inv_def wm_pids_def flip: set_map)
    with Some i show ?thesis by (simp add: s processExecEvent_def act_defs Let_def split: prod.split sum.split)
  qed
qed

lemma keeps_wm_get [keeps_intros]: "keeps I (wm_get f)"
  by (simp add: keeps_def act_defs)

lemma wm_handle_inv: "keeps (\<lambda>s. wm_inv (snd s)) (wm_handle os pc abi ev)"
proof (cases ev)
  case (ForkEvent data)
  then show ?thesis
    by (auto simp: processForkEvent_def Let_def intro!: keeps_intros wm_add_inv inv_keep split: option.split)
next
  case (ExecEvent data)
  then show ?thesis by (simp add: wm_exec_inv)
next
  case (ExitEvent data)
  then show ?thesis by (auto simp: processExitEvent_def Let_def intro!: keeps_intros wm_remove_inv)
next
  case (AddRequestEvent app)
  then show ?thesis by (auto simp: processAddRequestEvent_def intro!: keeps_intros wm_add_inv)
next
  case (FeedbackRequestEvent pid ns fb)
  have "keeps (\<lambda>s. wm_inv (snd s)) (publish (FeedbackEvent app fb))" for app
    by (auto simp: keeps_def publish_def act_defs wm_inv_def wm_pids_def)
  with FeedbackRequestEvent show ?thesis
    by (auto simp: processFeedbackRequestEvent_def intro!: keeps_intros split: option.split)
qed (simp_all add: keeps_ret)

lemma wm_events_inv: "keeps (\<lambda>s. wm_inv (snd s)) (wm_events os pc abi evs)"
  unfolding wm_events_def wm_processEvent_def
  by (intro keeps_intros wm_handle_inv)

end

lemma addApplication_same_app:
  "addApplication pf app k = (Inr (b, app'), k') \<Longrightarrow> getPid app' = getPid app"
  unfolding addApplication_def
  by (auto simp: bnd_def ret_def setCgroupDir_def split: prod.splits sum.splits if_splits)

interpretation cgroup_pc: platform_control "cgroup_ops pf"
  by unfold_locales (auto simp: cgroup_ops_def addApplication_same_app raises_removeApplication)

end
