(* ===== verification/PlatformMonitor.thy ===== *)
theory PlatformMonitor
  imports Events Os PlatformDescription
begin

text \<open>
  \<open>rm/platformmonitor/platformmonitor.cpp\<close> and \<open>cputimedata.h\<close>: the component that samples the load of the
  processing units from \<open>/proc/stat\<close>, temperatures and power from \<open>libsensors\<close>, and publishes
  them. Its state is the last snapshot of the CPU times and the names of the chips to look at.
  The lemmas bound the load figures and name the inputs on which the arithmetic of the code
  has no defined result.
\<close>

section \<open>CPU times\<close>

record cpu_time =
  ct_name :: string
  usertime :: "64 word"
  nicetime :: "64 word"
  systemtime :: "64 word"
  idletime :: "64 word"
  ioWait :: "64 word"
  irq :: "64 word"
  softIrq :: "64 word"
  steal :: "64 word"
  guest :: "64 word"
  guestnice :: "64 word"
  totaltime :: "64 word"

definition makeCPUTimeData :: "string \<Rightarrow> 64 word list \<Rightarrow> cpu_time" where
  "makeCPUTimeData name t =
     (let user = t ! 0 - t ! 8; nice = t ! 1 - t ! 9 in
      \<lparr> ct_name = name, usertime = user, nicetime = nice, systemtime = t ! 2, idletime = t ! 3, ioWait = t ! 4,
        irq = t ! 5, softIrq = t ! 6, steal = t ! 7, guest = t ! 8, guestnice = t ! 9,
        totaltime = user + nice + t ! 2 + t ! 5 + t ! 6 + t ! 3 + t ! 4 + t ! 7 + t ! 8 + t ! 9 \<rparr>)"

definition cpu_time_show :: "cpu_time \<Rightarrow> string" where
  "cpu_time_show c =
     ''{\"name\":\"'' @ ct_name c @ ''\",\"usertime\":'' @ show_u64 (usertime c) @
     '',\"nicetime\":'' @ show_u64 (nicetime c) @ '',\"systemtime\":'' @ show_u64 (systemtime c) @
     '',\"idletime\":'' @ show_u64 (idletime c) @ '',\"ioWait\":'' @ show_u64 (ioWait c) @
     '',\"irq\":'' @ show_u64 (irq c) @ '',\"steal\":'' @ show_u64 (steal c) @
     '',\"guest\":'' @ show_u64 (guest c) @ '',\"guestnice\":'' @ show_u64 (guestnice c) @
     '',\"totaltime\":'' @ show_u64 (totaltime c) @ ''}''"

text \<open>The numbers read off a line of \<open>/proc/stat\<close>, and the line.\<close>

fun read_u64s :: "nat \<Rightarrow> string \<Rightarrow> 64 word list option" where
  "read_u64s 0 s = Some []"
| "read_u64s (Suc n) s =
     (case read_u64 s of None \<Rightarrow> None | Some (v, rest) \<Rightarrow> map_option (\<lambda>vs. v # vs) (read_u64s n rest))"

definition stat_line :: "string \<Rightarrow> cpu_time option" where
  "stat_line line =
     (if length line < 4 \<or> take 3 line \<noteq> ''cpu'' then None
      else (case read_word line of
              None \<Rightarrow> None
            | Some (name, rest) \<Rightarrow> map_option (makeCPUTimeData name) (read_u64s 10 rest)))"

section \<open>The load of a unit\<close>

text \<open>Arithmetic in \<open>int\<close>: no result when it overflows; the quotient is truncated.\<close>

definition checked_int :: "int \<Rightarrow> int result" where
  "checked_int x = (if is_int32 x then Inr x else Inl (Undefined ''signed integer overflow''))"

definition int_div :: "int \<Rightarrow> int \<Rightarrow> int result" where
  "int_div a b =
     (if b = 0 then Inl (Undefined ''division by zero'')
      else checked_int (sgn a * sgn b * (\<bar>a\<bar> div \<bar>b\<bar>)))"

definition pu_usage :: "cpu_time \<Rightarrow> cpu_time \<Rightarrow> int result" where
  "pu_usage ctd prev =
     (let delta = u64_to_int (totaltime ctd - totaltime prev);
          idle = u64_to_int (idletime ctd - idletime prev)
      in case checked_int (delta - idle) of Inl e \<Rightarrow> Inl e | Inr busy \<Rightarrow>
         case checked_int (busy * 100) of Inl e \<Rightarrow> Inl e | Inr b \<Rightarrow> int_div b delta)"

text \<open>
  \<open>handleCpuTimes\<close>: the loop over the lines, with the snapshot and the figures it makes. A line
  that is missing or malformed ends it.
\<close>

fun cpu_loop :: "bool \<Rightarrow> int \<Rightarrow> nat \<Rightarrow> string list \<Rightarrow> cpu_time list \<Rightarrow> platform_load \<Rightarrow> (cpu_time list \<times> platform_load) result" where
  "cpu_loop firstRead numPu n [] snap load = Inr (snap, load)"
| "cpu_loop firstRead numPu n (line # ls) snap load =
     (if int n > numPu then Inr (snap, load)
      else case stat_line line of
        None \<Rightarrow> Inr (snap, load)
      | Some ctd \<Rightarrow>
          if firstRead then cpu_loop firstRead numPu (Suc n) ls (snap @ [ctd]) load
          else (case vec_at snap (int n) of Inl e \<Rightarrow> Inl e | Inr prev \<Rightarrow>
                case pu_usage ctd prev of Inl e \<Rightarrow> Inl e | Inr usage \<Rightarrow>
                cpu_loop firstRead numPu (Suc n) ls (snap[n := ctd])
                  (if n = 0 then addCpuLoad usage load else addPULoad usage load)))"

text \<open>The text put together at the end reads an entry for every unit, there or not.\<close>

definition handleCpuTimes :: "('k, 'm) os_scheme \<Rightarrow> hw_obj \<Rightarrow> platform_load \<Rightarrow> ('k \<times> cpu_time list, platform_load) act" where
  "handleCpuTimes os topology load =
     bnd (on_fst (sys (os_read os ''/proc/stat''))) (\<lambda>r.
     bnd (gets snd) (\<lambda>snap.
     bnd (lift_result (cpu_loop (snap = []) (getNumProcessingUnits topology) 0
            (case r of None \<Rightarrow> [] | Some txt \<Rightarrow> all_lines txt) snap load)) (\<lambda>(snap', load').
     bnd (on_snd (modify (\<lambda>_. snap'))) (\<lambda>_.
     if int (length snap') \<le> getNumProcessingUnits topology
     then throw (Undefined ''vector index out of range'') else ret load'))))"

section \<open>Sensors\<close>

text \<open>
  What \<open>libsensors\<close> reports: chips with their features and those with their subfeatures; a
  subfeature whose value cannot be read has none. The library and the type \<open>double\<close> of its
  values are parameters: \<open>to_int\<close> is the conversion to \<open>int\<close>, \<open>thousand\<close> the product with 1000.
\<close>

datatype subfeature_type =
  IN_INPUT | CURR_INPUT | TEMP_INPUT | TEMP_MAX | TEMP_MIN | TEMP_HIGHEST | TEMP_LOWEST | TEMP_CRIT | TEMP_EMERGENCY | OtherSubfeature

datatype feature_type = FEATURE_IN | FEATURE_CURR | FEATURE_TEMP | OtherFeature

record 'd sensor_feature =
  sf_type :: feature_type
  sf_number :: int
  sf_label :: "string option"
  sf_subfeatures :: "(subfeature_type \<times> 'd option) list"

record 'd sensor_chip =
  ch_prefix :: string
  ch_features :: "'d sensor_feature list"

record 'd double_ops =
  to_int :: "'d \<Rightarrow> int result"
  thousand :: "'d \<Rightarrow> 'd"

record monitor_config =
  cpuChips :: "string list"
  batteryChips :: "string list"

definition setCpuModuleNames :: "string \<Rightarrow> monitor_config \<Rightarrow> monitor_config" where
  "setCpuModuleNames names c = c\<lparr>cpuChips := tsplit names '',''\<rparr>"

definition setBatteryModuleNames :: "string \<Rightarrow> monitor_config \<Rightarrow> monitor_config" where
  "setBatteryModuleNames names c = c\<lparr>batteryChips := tsplit names '',''\<rparr>"

definition isCpuChip :: "monitor_config \<Rightarrow> string \<Rightarrow> bool" where
  "isCpuChip c chip \<longleftrightarrow> chip \<in> set (cpuChips c)"

text \<open>Everything from the first digit on is cut off.\<close>

definition isBatteryChip :: "monitor_config \<Rightarrow> string \<Rightarrow> bool" where
  "isBatteryChip c chip \<longleftrightarrow> chip \<noteq> [] \<and> takeWhile (\<lambda>x. \<not> isdigit x) chip \<in> set (batteryChips c)"

definition subfeature :: "subfeature_type \<Rightarrow> 'd sensor_feature \<Rightarrow> 'd option result" where
  "subfeature t feat =
     (case find (\<lambda>(t', v). t' = t) (sf_subfeatures feat) of
        None \<Rightarrow> Inl (Undefined ''null pointer'')
      | Some (_, v) \<Rightarrow> Inr v)"

fun handleBattery :: "'d double_ops \<Rightarrow> 'd sensor_feature list \<Rightarrow> platform_power \<Rightarrow> platform_power result" where
  "handleBattery d [] pp = Inr pp"
| "handleBattery d (feat # fs) pp =
     (if sf_type feat = FEATURE_IN then
        (case subfeature IN_INPUT feat of
           Inl e \<Rightarrow> Inl e
         | Inr None \<Rightarrow> handleBattery d fs pp
         | Inr (Some val) \<Rightarrow>
             (case to_int d val of Inl e \<Rightarrow> Inl e | Inr v \<Rightarrow> handleBattery d fs (pp\<lparr>batteryVoltage := Some v\<rparr>)))
      else if sf_type feat = FEATURE_CURR then
        (case subfeature CURR_INPUT feat of
           Inl e \<Rightarrow> Inl e
         | Inr None \<Rightarrow> handleBattery d fs pp
         | Inr (Some val) \<Rightarrow>
             (case to_int d (thousand d val) of Inl e \<Rightarrow> Inl e | Inr v \<Rightarrow> handleBattery d fs (pp\<lparr>batteryCurrent := Some v\<rparr>)))
      else handleBattery d fs pp)"

fun set_temperature :: "subfeature_type \<Rightarrow> int \<Rightarrow> component_temperature \<Rightarrow> component_temperature" where
  "set_temperature TEMP_INPUT v t = t\<lparr>tc_temp := v\<rparr>"
| "set_temperature TEMP_MAX v t = t\<lparr>tc_maxTemp := v\<rparr>"
| "set_temperature TEMP_MIN v t = t\<lparr>tc_minTemp := v\<rparr>"
| "set_temperature TEMP_HIGHEST v t = t\<lparr>tc_highestTemp := v\<rparr>"
| "set_temperature TEMP_LOWEST v t = t\<lparr>tc_lowestTemp := v\<rparr>"
| "set_temperature TEMP_CRIT v t = t\<lparr>tc_critTemp := v\<rparr>"
| "set_temperature TEMP_EMERGENCY v t = t\<lparr>tc_emergencyTemp := v\<rparr>"
| "set_temperature _ v t = t"

text \<open>A value is converted only in the branches that use it.\<close>

definition is_temperature :: "subfeature_type \<Rightarrow> bool" where
  "is_temperature t \<longleftrightarrow> t \<noteq> IN_INPUT \<and> t \<noteq> CURR_INPUT \<and> t \<noteq> OtherSubfeature"

fun temperature_loop :: "'d double_ops \<Rightarrow> (subfeature_type \<times> 'd option) list \<Rightarrow> component_temperature \<Rightarrow> component_temperature result" where
  "temperature_loop d [] t = Inr t"
| "temperature_loop d ((ty, None) # ss) t = temperature_loop d ss t"
| "temperature_loop d ((ty, Some val) # ss) t =
     (if is_temperature ty
      then (case to_int d val of Inl e \<Rightarrow> Inl e | Inr v \<Rightarrow> temperature_loop d ss (set_temperature ty v t))
      else temperature_loop d ss t)"

definition getTemperatureInfo :: "'d double_ops \<Rightarrow> 'd sensor_feature \<Rightarrow> component_temperature result" where
  "getTemperatureInfo d feat =
     temperature_loop d (sf_subfeatures feat) (new_temperature\<lparr>tc_label := sf_label feat, tc_num := sf_number feat\<rparr>)"

fun handleCpuTemp :: "'d double_ops \<Rightarrow> 'd sensor_feature list \<Rightarrow> platform_temperature \<Rightarrow> platform_temperature result" where
  "handleCpuTemp d [] pt = Inr pt"
| "handleCpuTemp d (feat # fs) pt =
     (if sf_type feat = FEATURE_TEMP then
        (case getTemperatureInfo d feat of Inl e \<Rightarrow> Inl e | Inr t \<Rightarrow>
         case tc_label t of
           None \<Rightarrow> Inl (Undefined ''null pointer'')
         | Some label \<Rightarrow>
             handleCpuTemp d fs
               (if contains label ''Package'' then addCpuTemperature t pt
                else if contains label ''Core'' then addCoreTemperature t pt
                else pt))
      else handleCpuTemp d fs pt)"

fun handleSensors :: "'d double_ops \<Rightarrow> monitor_config \<Rightarrow> 'd sensor_chip list \<Rightarrow> platform_temperature \<times> platform_power \<Rightarrow> (platform_temperature \<times> platform_power) result" where
  "handleSensors d c [] acc = Inr acc"
| "handleSensors d c (cn # cns) (pt, pp) =
     (if isCpuChip c (ch_prefix cn) then
        (case handleCpuTemp d (ch_features cn) pt of Inl e \<Rightarrow> Inl e | Inr pt' \<Rightarrow> handleSensors d c cns (pt', pp))
      else if isBatteryChip c (ch_prefix cn) then
        (case handleBattery d (ch_features cn) pp of Inl e \<Rightarrow> Inl e | Inr pp' \<Rightarrow> handleSensors d c cns (pt, pp'))
      else handleSensors d c cns (pt, pp))"

section \<open>A period of the monitor\<close>

text \<open>
  The body of the loop of \<open>run\<close>: sensors, then CPU times, then the event. The state is the kernel
  and the snapshot, \<open>chips\<close> what the library reports in this period.
\<close>

definition monitor_once ::
  "('k, 'm) os_scheme \<Rightarrow> hw_obj \<Rightarrow> 'd double_ops \<Rightarrow> monitor_config \<Rightarrow> 'd sensor_chip list \<Rightarrow> ('k \<times> cpu_time list, event) act" where
  "monitor_once os topology d c chips =
     bnd (lift_result (handleSensors d c chips (\<lparr>pt_cpus = [], pt_cores = []\<rparr>, \<lparr>batteryCurrent = None, batteryVoltage = None\<rparr>))) (\<lambda>(temps, pw).
     bnd (handleCpuTimes os topology \<lparr>load_cpus = [], load_pus = []\<rparr>) (\<lambda>load.
     ret (MonitorEvent temps pw load)))"

section \<open>The load figures\<close>

text \<open>
  Between two snapshots time has passed, not too much for the arithmetic, and the idle time
  has grown by no more than the total.
\<close>

definition advanced :: "cpu_time \<Rightarrow> cpu_time \<Rightarrow> bool" where
  "advanced prev ctd \<longleftrightarrow>
     0 < uint (totaltime ctd - totaltime prev) \<and> uint (totaltime ctd - totaltime prev) \<le> 21474836 \<and>
     uint (idletime ctd - idletime prev) \<le> uint (totaltime ctd - totaltime prev)"

lemma u64_to_int_small: "uint w \<le> 2147483647 \<Longrightarrow> u64_to_int w = uint w"
proof -
  assume "uint w \<le> 2147483647"
  moreover have "- (2 ^ 31) \<le> uint w" by (rule order_trans [OF _ uint_ge_0]) simp
  ultimately have "is_int32 (uint w)" by (simp add: is_int32_def)
  then show ?thesis by (simp add: u64_to_int_def)
qed

lemma int_div_pos: "0 \<le> a \<Longrightarrow> 0 < b \<Longrightarrow> a < 2 ^ 31 \<Longrightarrow> int_div a b = Inr (a div b)"
proof -
  assume ab: "0 \<le> a" "0 < b" "a < 2 ^ 31"
  then have e: "sgn a * sgn b * (\<bar>a\<bar> div \<bar>b\<bar>) = a div b" by (cases "a = 0") auto
  have "0 \<le> a div b" "a div b \<le> a"
    using ab zdiv_mono2 [of a 1 b] by (auto simp: pos_imp_zdiv_nonneg_iff)
  then have "is_int32 (a div b)" using ab by (simp add: is_int32_def)
  then show ?thesis using ab unfolding int_div_def e by (simp add: checked_int_def)
qed

lemma pu_usage_advanced:
  assumes "advanced prev ctd"
  shows "\<exists>u. pu_usage ctd prev = Inr u \<and> 0 \<le> u \<and> u \<le> 100"
proof -
  define t i where "t = uint (totaltime ctd - totaltime prev)" and "i = uint (idletime ctd - idletime prev)"
  have ti: "0 < t" "t \<le> 21474836" "0 \<le> i" "i \<le> t"
    using assms uint_ge_0 [of "idletime ctd - idletime prev"] unfolding advanced_def t_def i_def by auto
  then have c: "u64_to_int (totaltime ctd - totaltime prev) = t" "u64_to_int (idletime ctd - idletime prev) = i"
    by (auto simp: t_def i_def intro: u64_to_int_small)
  have "(t - i) * 100 \<le> t * 100" using ti by (intro mult_right_mono) auto
  then have q: "(t - i) * 100 div t \<le> 100" using ti by (metis div_le_mono mult.commute nonzero_mult_div_cancel_left zdiv_mono1 less_irrefl)
  have nn: "0 \<le> (t - i) * 100 div t" using ti by (intro pos_imp_zdiv_nonneg_iff [THEN iffD2]) auto
  have "checked_int (t - i) = Inr (t - i)" "checked_int ((t - i) * 100) = Inr ((t - i) * 100)"
    using ti by (auto simp: checked_int_def is_int32_def)
  moreover have "int_div ((t - i) * 100) t = Inr ((t - i) * 100 div t)" using ti by (intro int_div_pos) auto
  ultimately have "pu_usage ctd prev = Inr ((t - i) * 100 div t)" by (simp add: pu_usage_def c)
  with q nn show ?thesis by blast
qed

lemma pu_usage_stalled: "totaltime ctd = totaltime prev \<Longrightarrow> idletime ctd = idletime prev \<Longrightarrow>
    pu_usage ctd prev = Inl (Undefined ''division by zero'')"
  by (simp add: pu_usage_def checked_int_def int_div_def u64_to_int_def to_int32_def is_int32_def)

text \<open>All figures of a reading that finds a good line for every unit, after a first reading.\<close>

definition figures_ok :: "nat \<Rightarrow> platform_load \<Rightarrow> bool" where
  "figures_ok n load \<longleftrightarrow> length (load_cpus load) = min n 1 \<and> length (load_pus load) = n - 1 \<and>
     (\<forall>u\<in>set (load_cpus load) \<union> set (load_pus load). 0 \<le> u \<and> u \<le> 100)"

definition readable :: "nat \<Rightarrow> cpu_time list \<Rightarrow> string list \<Rightarrow> bool" where
  "readable n snap ls \<longleftrightarrow> n \<le> length snap \<and> length snap \<le> n + length ls \<and>
     (\<forall>i<length snap - n. \<exists>ctd. stat_line (ls ! i) = Some ctd \<and> advanced (snap ! (n + i)) ctd)"

lemma figures_ok_step:
  "figures_ok n load \<Longrightarrow> 0 \<le> u \<Longrightarrow> u \<le> 100 \<Longrightarrow> figures_ok (Suc n) (if n = 0 then addCpuLoad u load else addPULoad u load)"
  by (auto simp: figures_ok_def addCpuLoad_def addPULoad_def)

lemma readable_step:
  "readable n snap (line # ls) \<Longrightarrow> n < length snap \<Longrightarrow> readable (Suc n) (snap[n := ctd]) ls"
  unfolding readable_def
proof (intro conjI allI impI; elim conjE)
  fix i
  assume i: "i < length (snap[n := ctd]) - Suc n"
    and all: "\<forall>i<length snap - n. \<exists>ctd. stat_line ((line # ls) ! i) = Some ctd \<and> advanced (snap ! (n + i)) ctd"
  from i all [rule_format, of "Suc i"]
  show "\<exists>ctd'. stat_line (ls ! i) = Some ctd' \<and> advanced (snap[n := ctd] ! (Suc n + i)) ctd'" by simp
qed auto

lemma cpu_loop_figures:
  assumes "readable n snap ls" and "figures_ok n load" and "length snap = Suc N"
  shows "\<exists>snap' load'. cpu_loop False (int N) n ls snap load = Inr (snap', load') \<and> length snap' = Suc N \<and> figures_ok (Suc N) load'"
  using assms
proof (induction ls arbitrary: n snap load)
  case Nil
  then show ?case by (auto simp: readable_def)
next
  case (Cons line ls)
  show ?case
  proof (cases "n = Suc N")
    case True
    with Cons.prems show ?thesis by auto
  next
    case False
    with Cons.prems have n: "n < length snap" "\<not> int n > int N" by (auto simp: readable_def)
    then obtain ctd where ctd: "stat_line line = Some ctd" "advanced (snap ! n) ctd"
      using Cons.prems(1) by (fastforce simp: readable_def)
    from pu_usage_advanced [OF ctd(2)] obtain u where u: "pu_usage ctd (snap ! n) = Inr u" "0 \<le> u" "u \<le> 100" by blast
    have "\<exists>snap' load'. cpu_loop False (int N) (Suc n) ls (snap[n := ctd]) (if n = 0 then addCpuLoad u load else addPULoad u load)
        = Inr (snap', load') \<and> length snap' = Suc N \<and> figures_ok (Suc N) load'"
      using readable_step [OF Cons.prems(1) n(1)] figures_ok_step [OF Cons.prems(2) u(2,3)] Cons.prems(3)
      by (intro Cons.IH) auto
    with n ctd u show ?thesis by simp
  qed
qed

lemma handleCpuTimes_figures:
  assumes "os_read os ''/proc/stat'' k = (Some txt, k')" and "readable 0 snap (all_lines txt)"
    and "length snap = Suc N" and "getNumProcessingUnits topology = int N"
  shows "\<exists>snap' load. handleCpuTimes os topology \<lparr>load_cpus = [], load_pus = []\<rparr> (k, snap) = (Inr load, (k', snap')) \<and>
    length snap' = Suc N \<and> figures_ok (Suc N) load"
proof -
  have "figures_ok 0 \<lparr>load_cpus = [], load_pus = []\<rparr>" by (simp add: figures_ok_def)
  from cpu_loop_figures [OF assms(2) this assms(3)] obtain snap' load where
    "cpu_loop False (int N) 0 (all_lines txt) snap \<lparr>load_cpus = [], load_pus = []\<rparr> = Inr (snap', load)"
    "length snap' = Suc N" "figures_ok (Suc N) load" by blast
  moreover have "snap \<noteq> []" using assms(3) by auto
  ultimately show ?thesis using assms(1,4) by (simp add: handleCpuTimes_def act_defs)
qed

text \<open>The first reading gives no figures, and a snapshot of the lines that are good.\<close>

lemma cpu_loop_first:
  "cpu_loop True numPu n ls snap load = Inr (snap', load') \<Longrightarrow> load' = load \<and> length snap' \<le> length snap + length ls"
  by (induction ls arbitrary: n snap) (fastforce split: if_splits option.splits)+

end
