(* ===== verification/EventBus.thy ===== *)
theory EventBus
  imports Events
begin

text \<open>
  \<open>rm/librmcommon/eventbus.h\<close>, \<open>threadsafequeue.h\<close> and \<open>baseeventreceiver.{h,cpp}\<close>: how an
  event gets from a publisher to the threads of its receivers. The bus maps an event type to
  its subscribers, in the order of their subscription; publishing calls them one after the
  other, and the call of a receiver puts the event into its queue. The operations of bus and
  queue hold a mutex from beginning to end, so each is one step. The receiver's thread is a
  step relation over the program points of its loop, interleaved with the pushes and with
  \<open>stop\<close>; two facts are proved of all its runs: the queue loses, doubles and reorders
  nothing, and at most one event is processed after \<open>stop\<close>.
\<close>

section \<open>The queue\<close>

text \<open>
  \<open>waitAndPop\<close> with a timeout gives \<open>False\<close> when no event came; \<open>None\<close> stands for that, as it
  does for \<open>tryPop\<close> on an empty queue.
\<close>

definition queue_push :: "'e \<Rightarrow> 'e list \<Rightarrow> 'e list" where
  "queue_push e q = q @ [e]"

definition queue_tryPop :: "'e list \<Rightarrow> 'e option \<times> 'e list" where
  "queue_tryPop q = (case q of [] \<Rightarrow> (None, q) | e # q' \<Rightarrow> (Some e, q'))"

definition queue_empty :: "'e list \<Rightarrow> bool" where
  "queue_empty q \<longleftrightarrow> q = []"

section \<open>The bus\<close>

text \<open>
  \<open>subscribers\<close>: the handlers of a type, or a null pointer, which the subscript operator
  leaves in the map when an event is published that nobody has subscribed to.
\<close>

type_synonym 'r bus = "(string \<times> 'r list option) list"

definition bus_lookup :: "string \<Rightarrow> 'r bus \<Rightarrow> 'r list option" where
  "bus_lookup ty bus = (case map_of bus ty of None \<Rightarrow> None | Some h \<Rightarrow> h)"

definition bus_put :: "string \<Rightarrow> 'r list option \<Rightarrow> 'r bus \<Rightarrow> 'r bus" where
  "bus_put ty h bus = (ty, h) # filter (\<lambda>p. fst p \<noteq> ty) bus"

definition bus_subscribe :: "string \<Rightarrow> 'r \<Rightarrow> 'r bus \<Rightarrow> 'r bus" where
  "bus_subscribe ty r bus =
     (case bus_lookup ty bus of
        None \<Rightarrow> bus_put ty (Some [r]) bus
      | Some handlers \<Rightarrow> bus_put ty (Some (handlers @ [r])) bus)"

text \<open>The receivers that are called, in order, and the map left behind.\<close>

definition bus_publish :: "string \<Rightarrow> 'r bus \<Rightarrow> 'r list \<times> 'r bus" where
  "bus_publish ty bus =
     (case bus_lookup ty bus of
        None \<Rightarrow> ([], bus_put ty None bus)
      | Some handlers \<Rightarrow> (handlers, bus))"

lemma bus_lookup_put [simp]: "bus_lookup ty (bus_put ty' h bus) = (if ty = ty' then h else bus_lookup ty bus)"
  by (induction bus) (auto simp: bus_lookup_def bus_put_def)

text \<open>The subscribers of a type after a sequence of subscriptions: those to the type, in order.\<close>

definition bus_of :: "(string \<times> 'r) list \<Rightarrow> 'r bus" where
  "bus_of subs = foldl (\<lambda>bus (ty, r). bus_subscribe ty r bus) [] subs"

lemma publish_subscribed: "fst (bus_publish ty (bus_of subs)) = map snd (filter (\<lambda>s. fst s = ty) subs)"
proof -
  have step: "fst (bus_publish ty (bus_subscribe ty' r bus))
      = fst (bus_publish ty bus) @ (if ty' = ty then [r] else [])" for ty' r and bus :: "'a bus"
    by (auto simp: bus_publish_def bus_subscribe_def split: option.split)
  have "fst (bus_publish ty (foldl (\<lambda>bus (ty, r). bus_subscribe ty r bus) bus subs))
      = fst (bus_publish ty bus) @ map snd (filter (\<lambda>s. fst s = ty) subs)" for bus :: "'a bus"
    by (induction subs arbitrary: bus) (auto simp: step split: prod.split)
  then show ?thesis by (simp add: bus_of_def bus_publish_def bus_lookup_def)
qed

lemma publish_keeps: "bus_lookup ty (snd (bus_publish ty' bus)) = bus_lookup ty bus"
  by (auto simp: bus_publish_def split: option.split)

section \<open>The receiver's thread\<close>

text \<open>
  The points of the loop of \<open>run\<close>: before the test of \<open>stopped()\<close>, in \<open>waitAndPop\<close>, and past
  the loop. \<open>pushed\<close> and \<open>processed\<close> record the events put into the queue and handed to
  \<open>processEvent\<close>, in order.
\<close>

datatype run_point = Testing | Waiting | Left

record 'e receiver =
  rc_queue :: "'e list"
  rc_stop :: bool
  rc_point :: run_point
  rc_pushed :: "'e list"
  rc_processed :: "'e list"

definition new_receiver :: "'e receiver" where
  "new_receiver = \<lparr> rc_queue = [], rc_stop = False, rc_point = Testing, rc_pushed = [], rc_processed = [] \<rparr>"

text \<open>\<open>go\<close> is the result of \<open>processEvent\<close>, which stops the thread when it is \<open>False\<close>.\<close>

inductive receiver_step :: "('e \<Rightarrow> bool) \<Rightarrow> 'e receiver \<Rightarrow> 'e receiver \<Rightarrow> bool" for go :: "'e \<Rightarrow> bool" where
  addEvent: "receiver_step go s (s\<lparr>rc_queue := queue_push e (rc_queue s), rc_pushed := rc_pushed s @ [e]\<rparr>)"
| stop: "receiver_step go s (s\<lparr>rc_stop := True\<rparr>)"
| test_on: "rc_point s = Testing \<Longrightarrow> \<not> rc_stop s \<Longrightarrow> receiver_step go s (s\<lparr>rc_point := Waiting\<rparr>)"
| test_off: "rc_point s = Testing \<Longrightarrow> rc_stop s \<Longrightarrow> receiver_step go s (s\<lparr>rc_point := Left\<rparr>)"
| timeout: "rc_point s = Waiting \<Longrightarrow> queue_tryPop (rc_queue s) = (None, q) \<Longrightarrow>
    receiver_step go s (s\<lparr>rc_point := Testing\<rparr>)"
| process: "rc_point s = Waiting \<Longrightarrow> queue_tryPop (rc_queue s) = (Some e, q) \<Longrightarrow>
    receiver_step go s
      (s\<lparr>rc_queue := q, rc_processed := rc_processed s @ [e], rc_stop := rc_stop s \<or> \<not> go e, rc_point := Testing\<rparr>)"

inductive_cases receiver_stepE: "receiver_step go s t"

abbreviation receiver_runs :: "('e \<Rightarrow> bool) \<Rightarrow> 'e receiver \<Rightarrow> 'e receiver \<Rightarrow> bool" where
  "receiver_runs go \<equiv> (receiver_step go)\<^sup>*\<^sup>*"

definition in_order :: "'e receiver \<Rightarrow> bool" where
  "in_order s \<longleftrightarrow> rc_pushed s = rc_processed s @ rc_queue s"

lemma in_order_step: "receiver_step go s t \<Longrightarrow> in_order s \<Longrightarrow> in_order t"
  by (cases rule: receiver_stepE)
    (auto simp: in_order_def queue_push_def queue_tryPop_def split: list.splits elim: receiver_stepE)

lemma in_order_run: "receiver_runs go s t \<Longrightarrow> in_order s \<Longrightarrow> in_order t"
  by (induction rule: rtranclp_induct) (auto dest: in_order_step)

text \<open>Once the flag is set only a wait that is already under way can process an event.\<close>

definition budget :: "'e receiver \<Rightarrow> nat" where
  "budget s = length (rc_processed s) + (if rc_point s = Waiting then 1 else 0)"

lemma stopped_step: "receiver_step go s t \<Longrightarrow> rc_stop s \<Longrightarrow> rc_stop t \<and> budget t \<le> budget s"
  by (erule receiver_stepE) (auto simp: budget_def)

lemma stopped_run: "receiver_runs go s t \<Longrightarrow> rc_stop s \<Longrightarrow> rc_stop t \<and> budget t \<le> budget s"
  by (induction rule: rtranclp_induct) (auto dest: stopped_step)

end
