(* ===== verification/KonroManager.thy ===== *)
theory KonroManager
  imports KonroConfig WorkloadManager PlatformMonitor MonitorFacts EventBus
begin

text \<open>
  \<open>rm/src/konromanager.cpp\<close>: the object that builds the components from the configuration,
  connects them by the event bus, runs their threads and takes them down again. \<open>construct\<close> is
  the first half of \<open>run\<close>, with the subscriptions that the constructors of the components make;
  \<open>run_actions\<close> is the second half, the calls on threads in their order. What is shown: which
  component receives which event, that the components start from the states the facts on them
  begin with, that every thread started is stopped and joined once, in this order, and what
  comes of a configuration file that is not there.
\<close>

section \<open>Components and their subscriptions\<close>

datatype konro_part =
  HttpThread | PolicyManagerThread | WorkloadManagerThread | ProcListenerThread | PlatformMonitorThread |
  PolicyTimerThread | SecurityMonitorThread

definition pm_subscribes :: "(string \<times> konro_part) list" where
  "pm_subscribes =
     map (\<lambda>ty. (ty, PolicyManagerThread))
       [''AddEvent'', ''RemoveEvent'', ''TimerEvent'', ''FeedbackEvent'', ''MonitorEvent'', ''SecurityEvent'', ''ClearEvent'']"

definition wm_subscribes :: "(string \<times> konro_part) list" where
  "wm_subscribes =
     map (\<lambda>ty. (ty, WorkloadManagerThread))
       [''ForkEvent'', ''ExecEvent'', ''ExitEvent'', ''AddRequestEvent'', ''FeedbackRequestEvent'']"

definition sm_subscribes :: "(string \<times> konro_part) list" where
  "sm_subscribes = map (\<lambda>ty. (ty, SecurityMonitorThread)) [''AddEvent'', ''RemoveEvent'']"

record konro_parts =
  kp_bus :: "konro_part bus"
  kp_listen :: "string \<times> int"
  kp_policy :: policy_name
  kp_thresholds :: thresholds
  kp_workload :: workload_manager
  kp_monitor :: monitor_config
  kp_monitorPeriod :: int
  kp_timerSeconds :: int
  kp_security :: "security_monitor option"

definition construct :: "konro_config \<Rightarrow> konro_parts" where
  "construct c =
     \<lparr> kp_bus = bus_of (pm_subscribes @ wm_subscribes @ (if cfgSecurityPeriod c > 0 then sm_subscribes else [])),
       kp_listen = (httpListenHost c, httpListenPort c),
       kp_policy = getPolicyByName (cfgPolicyName c),
       kp_thresholds = config_thresholds c,
       kp_workload = new_workload_manager (cfgChangeContainerCgroup c) (cfgChangeKubernetesCgroup c),
       kp_monitor = setBatteryModuleNames (cfgBatteryModuleNames c)
         (setCpuModuleNames (cfgCpuModuleNames c) \<lparr> cpuChips = [], batteryChips = [] \<rparr>),
       kp_monitorPeriod = cfgMonitorPeriod c,
       kp_timerSeconds = cfgTimerSeconds c,
       kp_security =
         (if cfgSecurityPeriod c > 0
          then Some (setSaiConfig (config_weights c) (cfgEwmaAlpha c) (new_security_monitor (cfgSecurityPeriod c)))
          else None) \<rparr>"

section \<open>The threads\<close>

datatype manager_action = StartThread konro_part | RunHere konro_part | StopThread konro_part | JoinThread konro_part

fun acts_on :: "manager_action \<Rightarrow> konro_part" where
  "acts_on (StartThread t) = t"
| "acts_on (RunHere t) = t"
| "acts_on (StopThread t) = t"
| "acts_on (JoinThread t) = t"

definition run_actions :: "konro_config \<Rightarrow> manager_action list" where
  "run_actions c =
     (let timer = (\<lambda>a. if cfgTimerSeconds c > 0 then [a PolicyTimerThread] else []);
          security = (\<lambda>a. if kp_security (construct c) \<noteq> None then [a SecurityMonitorThread] else [])
      in [StartThread WorkloadManagerThread, StartThread PolicyManagerThread] @ timer StartThread @
         [StartThread PlatformMonitorThread] @ security StartThread @ [StartThread HttpThread] @
         [RunHere ProcListenerThread] @
         [StopThread HttpThread] @ timer StopThread @ [StopThread PlatformMonitorThread] @ security StopThread @
         [StopThread WorkloadManagerThread, StopThread PolicyManagerThread] @
         [JoinThread HttpThread] @ timer JoinThread @ [JoinThread PlatformMonitorThread] @ security JoinThread @
         [JoinThread WorkloadManagerThread, JoinThread PolicyManagerThread])"

text \<open>
  The constructor and \<open>run\<close> up to the threads. Without a configuration file the numbers that
  \<open>run\<close> looks at are uninitialised. The result has the platform with its two flags set.
\<close>

definition konro_run ::
  "('k, 'm) platform_scheme \<Rightarrow> string option \<Rightarrow> string \<Rightarrow>
     ('k, konro_parts \<times> ('k, 'm) platform_scheme \<times> manager_action list) act" where
  "konro_run pf home configFile =
     bnd (loadConfiguration pf home configFile) (\<lambda>r.
     case r of
       None \<Rightarrow> throw (Undefined ''member not initialised'')
     | Some c \<Rightarrow>
         bnd (cleanup pf) (\<lambda>_.
         ret (construct c,
              pf\<lparr>changeContainerCgroup := cfgChangeContainerCgroup c, changeKubernetesCgroup := cfgChangeKubernetesCgroup c\<rparr>,
              run_actions c)))"

section \<open>Facts\<close>

text \<open>The receivers of an event, in the order in which they are called.\<close>

fun receivers :: "bool \<Rightarrow> event \<Rightarrow> konro_part list" where
  "receivers watching (AddEvent a) = PolicyManagerThread # (if watching then [SecurityMonitorThread] else [])"
| "receivers watching (RemoveEvent a) = PolicyManagerThread # (if watching then [SecurityMonitorThread] else [])"
| "receivers watching (FeedbackEvent a f) = [PolicyManagerThread]"
| "receivers watching (SecurityEvent a sai f labels) = [PolicyManagerThread]"
| "receivers watching (ClearEvent pid) = [PolicyManagerThread]"
| "receivers watching TimerEvent = [PolicyManagerThread]"
| "receivers watching (MonitorEvent temps pw load) = [PolicyManagerThread]"
| "receivers watching _ = [WorkloadManagerThread]"

lemma wired: "fst (bus_publish (event_name ev) (kp_bus (construct c))) = receivers (cfgSecurityPeriod c > 0) ev"
  unfolding construct_def
  by (cases ev) (simp_all add: publish_subscribed pm_subscribes_def wm_subscribes_def sm_subscribes_def)

text \<open>The threads that run beside the main one, each started, stopped and joined once.\<close>

definition has_thread :: "konro_config \<Rightarrow> konro_part \<Rightarrow> bool" where
  "has_thread c t \<longleftrightarrow>
     t \<noteq> ProcListenerThread \<and> (t = PolicyTimerThread \<longrightarrow> cfgTimerSeconds c > 0) \<and>
     (t = SecurityMonitorThread \<longrightarrow> cfgSecurityPeriod c > 0)"

lemma thread_life:
  "filter (\<lambda>a. acts_on a = t) (run_actions c) =
     (if has_thread c t then [StartThread t, StopThread t, JoinThread t]
      else if t = ProcListenerThread then [RunHere t] else [])"
  by (cases t) (simp_all add: run_actions_def has_thread_def construct_def Let_def)

text \<open>The components of a file without keys are the ones with the built-in defaults.\<close>

lemma default_alpha: "f32 30 100 = f32 3 10"
  by code_simp

lemma default_parts:
  "kp_thresholds (construct (read_configuration Map.empty)) = default_thresholds"
  "kp_security (construct (read_configuration Map.empty)) = Some (new_security_monitor 10)"
  "kp_policy (construct (read_configuration Map.empty)) = NoPolicyName"
  using no_keys_defaults
  by (simp_all add: construct_def setSaiConfig_def new_security_monitor_def)
    (simp_all add: read_configuration_def default_alpha getPolicyByName_def)

lemma run_missing:
  assumes "os_stat pf (if configFile = [] then defaultConfigFilePath home else configFile) k = (r, k')"
    and "r \<noteq> Some Regular"
  shows "konro_run pf home configFile k = (Inl (Undefined ''member not initialised''), k')"
  using assms by (simp add: konro_run_def loadConfiguration_def file_exists_def act_defs Let_def)

lemma run_unreadable:
  assumes "os_stat pf (if configFile = [] then defaultConfigFilePath home else configFile) k = (Some Regular, k')"
    and "os_read pf (if configFile = [] then defaultConfigFilePath home else configFile) k' = (None, k'')"
  shows "\<exists>msg. konro_run pf home configFile k = (Inl (LogicError msg), k'')"
  using assms by (simp add: konro_run_def loadConfiguration_def file_exists_def Config_def INIFile_read_def act_defs Let_def)

end
