(* ===== verification/LockOrder.thy ===== *)
theory LockOrder
  imports KonroManager
begin

text \<open>
  The mutexes that the threads of the program hold at the same time: the one of the event bus,
  held for a whole \<open>publish\<close>, calls of the subscribers included; \<open>appsMutex_\<close> of
  \<open>SecurityMonitor\<close>, which its subscriber functions take, and which its own thread holds while
  it scans the applications and publishes what it found; and that of the queue of each manager,
  held for a push or a pop. A thread is the list of the lock operations it has still to do. Two
  threads can deadlock, the one that publishes the arrival of an application and the one that
  scans; and without the two of them there is no deadlock, whatever the threads do.
\<close>

datatype mutex = Bus_mutex | Apps_mutex | Queue_mutex konro_part

datatype lock_op = Lock mutex | Unlock mutex

datatype thread = WorkloadThread | MonitorThread

record 't locks =
  lk_todo :: "'t \<Rightarrow> lock_op list"
  lk_owner :: "mutex \<Rightarrow> 't option"

section \<open>The operations\<close>

text \<open>\<open>SecurityMonitor::processAddEvent\<close> and \<open>processRemoveEvent\<close>: a lock guard.\<close>

definition subscriber_locks :: "lock_op list" where
  "subscriber_locks = [Lock Apps_mutex, Unlock Apps_mutex]"

text \<open>\<open>publish\<close>, calling subscribers that do the given operations.\<close>

definition publish_locks :: "lock_op list \<Rightarrow> lock_op list" where
  "publish_locks called = Lock Bus_mutex # called @ [Unlock Bus_mutex]"

text \<open>One period of \<open>SecurityMonitor::run\<close> over \<open>n\<close> applications; nobody who subscribes to
  the security event takes one of the two mutexes.\<close>

definition scan_locks :: "nat \<Rightarrow> lock_op list" where
  "scan_locks n = Lock Apps_mutex # concat (replicate n (publish_locks [])) @ [Unlock Apps_mutex]"

definition locks_start :: "('t \<Rightarrow> lock_op list) \<Rightarrow> 't locks" where
  "locks_start work = \<lparr> lk_todo = work, lk_owner = (\<lambda>_. None) \<rparr>"

definition lock_start :: "lock_op list \<Rightarrow> lock_op list \<Rightarrow> thread locks" where
  "lock_start w m = locks_start (\<lambda>t. case t of WorkloadThread \<Rightarrow> w | MonitorThread \<Rightarrow> m)"

inductive lock_step :: "'t locks \<Rightarrow> 't locks \<Rightarrow> bool" where
  lock: "lk_todo s t = Lock m # ops \<Longrightarrow> lk_owner s m = None \<Longrightarrow>
    lock_step s (s\<lparr>lk_todo := (lk_todo s)(t := ops), lk_owner := (lk_owner s)(m := Some t)\<rparr>)"
| unlock: "lk_todo s t = Unlock m # ops \<Longrightarrow> lk_owner s m = Some t \<Longrightarrow>
    lock_step s (s\<lparr>lk_todo := (lk_todo s)(t := ops), lk_owner := (lk_owner s)(m := None)\<rparr>)"

inductive_cases lock_stepE: "lock_step s s'"

text \<open>A state in which a thread has still something to do and nobody can do anything.\<close>

definition deadlocked :: "'t locks \<Rightarrow> bool" where
  "deadlocked s \<longleftrightarrow> (\<exists>t. lk_todo s t \<noteq> []) \<and> (\<forall>s'. \<not> lock_step s s')"

text \<open>
  What each receiver does when \<open>publish\<close> calls it: the managers push the event to their queue
  (\<open>BaseEventReceiver::addEvent\<close>), the monitor works on its set.
\<close>

definition receiver_locks :: "konro_part \<Rightarrow> lock_op list" where
  "receiver_locks p =
     (if p = SecurityMonitorThread then subscriber_locks else [Lock (Queue_mutex p), Unlock (Queue_mutex p)])"

definition publication :: "bool \<Rightarrow> event \<Rightarrow> lock_op list" where
  "publication watching ev = publish_locks (concat (map receiver_locks (receivers watching ev)))"

text \<open>
  What a thread does: publish an event (the listener, the server, the timer, the platform
  monitor), take an event from its queue and handle it, which may publish others (the managers),
  or scan and publish what was found (the security monitor).
\<close>

datatype activity = Publishes event | Handles konro_part "event list" | Scans "event list"

fun activity_locks :: "bool \<Rightarrow> activity \<Rightarrow> lock_op list" where
  "activity_locks watching (Publishes ev) = publication watching ev"
| "activity_locks watching (Handles p evs) =
     [Lock (Queue_mutex p), Unlock (Queue_mutex p)] @ concat (map (publication watching) evs)"
| "activity_locks watching (Scans evs) =
     Lock Apps_mutex # concat (map (publication watching) evs) @ [Unlock Apps_mutex]"

definition working :: "bool \<Rightarrow> ('t \<Rightarrow> activity list) \<Rightarrow> 't \<Rightarrow> lock_op list" where
  "working watching acts t = concat (map (activity_locks watching) (acts t))"

fun published_events :: "activity \<Rightarrow> event list" where
  "published_events (Publishes ev) = [ev]"
| "published_events (Handles p evs) = evs"
| "published_events (Scans evs) = evs"

fun is_arrival :: "event \<Rightarrow> bool" where
  "is_arrival (AddEvent a) = True"
| "is_arrival (RemoveEvent a) = True"
| "is_arrival _ = False"

fun is_scan :: "activity \<Rightarrow> bool" where
  "is_scan (Scans evs) = True"
| "is_scan _ = False"

section \<open>The deadlock\<close>

text \<open>Every thread that has something to do waits for a mutex that is held.\<close>

lemma all_wait:
  assumes "lk_todo s t \<noteq> []" and "\<And>t i ops. lk_todo s t = i # ops \<Longrightarrow> \<exists>m. i = Lock m \<and> lk_owner s m \<noteq> None"
  shows "deadlocked s"
proof -
  have "\<not> lock_step s s'" for s'
  proof
    assume "lock_step s s'"
    then show False by (cases rule: lock_step.cases) (use assms(2) in fastforce)+
  qed
  with assms(1) show ?thesis unfolding deadlocked_def by blast
qed

lemma deadlock_reached:
  "\<exists>s. lock_step\<^sup>*\<^sup>* (lock_start (publish_locks subscriber_locks) (scan_locks (Suc n))) s \<and> deadlocked s"
proof -
  let ?s0 = "lock_start (publish_locks subscriber_locks) (scan_locks (Suc n))"
  let ?w = "[Unlock Apps_mutex, Unlock Bus_mutex]"
  let ?m = "Unlock Bus_mutex # concat (replicate n (publish_locks [])) @ [Unlock Apps_mutex]"
  let ?s1 = "?s0\<lparr>lk_todo := (lk_todo ?s0)(WorkloadThread := Lock Apps_mutex # ?w),
      lk_owner := (lk_owner ?s0)(Bus_mutex := Some WorkloadThread)\<rparr>"
  let ?s2 = "?s1\<lparr>lk_todo := (lk_todo ?s1)(MonitorThread := Lock Bus_mutex # ?m),
      lk_owner := (lk_owner ?s1)(Apps_mutex := Some MonitorThread)\<rparr>"
  have "lock_step ?s0 ?s1"
    by (rule lock) (simp_all add: lock_start_def locks_start_def publish_locks_def subscriber_locks_def)
  moreover have "lock_step ?s1 ?s2"
    by (rule lock) (simp_all add: lock_start_def locks_start_def scan_locks_def publish_locks_def)
  moreover have "\<exists>m. i = Lock m \<and> lk_owner ?s2 m \<noteq> None" if "lk_todo ?s2 t = i # ops" for t i ops
    using that by (cases t) auto
  then have "deadlocked ?s2" by (intro all_wait [of _ WorkloadThread]) simp_all
  ultimately show ?thesis by (metis (mono_tags, lifting) converse_rtranclp_into_rtranclp rtranclp.rtrancl_refl)
qed

section \<open>Orders that avoid it\<close>

text \<open>
  Operations that take a mutex only while all that they hold are lower in an order, unlock what
  they hold, and end with nothing.
\<close>

fun ordered :: "(mutex \<Rightarrow> nat) \<Rightarrow> mutex set \<Rightarrow> lock_op list \<Rightarrow> bool" where
  "ordered rank held [] = (held = {})"
| "ordered rank held (Lock m # ops) = ((\<forall>h\<in>held. rank h < rank m) \<and> ordered rank (insert m held) ops)"
| "ordered rank held (Unlock m # ops) = (m \<in> held \<and> ordered rank (held - {m}) ops)"

definition all_ordered :: "(mutex \<Rightarrow> nat) \<Rightarrow> 't locks \<Rightarrow> bool" where
  "all_ordered rank s \<longleftrightarrow> (\<forall>t. ordered rank {m. lk_owner s m = Some t} (lk_todo s t))"

lemma held_upd:
  "{m'. ((lk_owner s)(m := v)) m' = Some t}
     = (if v = Some t then insert m {m'. lk_owner s m' = Some t} else {m'. lk_owner s m' = Some t} - {m})"
  by auto

lemma all_ordered_step: "lock_step s s' \<Longrightarrow> all_ordered rank s \<Longrightarrow> all_ordered rank s'"
proof (induction rule: lock_step.induct)
  case (lock s t m ops)
  show ?case
    unfolding all_ordered_def
  proof
    fix u
    have "ordered rank {m. lk_owner s m = Some u} (lk_todo s u)" using lock(3) by (simp add: all_ordered_def)
    with lock(1,2) show "ordered rank {m'. lk_owner (s\<lparr>lk_todo := (lk_todo s)(t := ops), lk_owner := (lk_owner s)(m := Some t)\<rparr>) m' = Some u}
        (lk_todo (s\<lparr>lk_todo := (lk_todo s)(t := ops), lk_owner := (lk_owner s)(m := Some t)\<rparr>) u)"
      by (cases "u = t") (auto simp: held_upd fun_upd_same fun_upd_other simp del: fun_upd_apply)
  qed
next
  case (unlock s t m ops)
  show ?case
    unfolding all_ordered_def
  proof
    fix u
    have "ordered rank {m. lk_owner s m = Some u} (lk_todo s u)" using unlock(3) by (simp add: all_ordered_def)
    with unlock(1,2) show "ordered rank {m'. lk_owner (s\<lparr>lk_todo := (lk_todo s)(t := ops), lk_owner := (lk_owner s)(m := None)\<rparr>) m' = Some u}
        (lk_todo (s\<lparr>lk_todo := (lk_todo s)(t := ops), lk_owner := (lk_owner s)(m := None)\<rparr>) u)"
      by (cases "u = t") (auto simp: held_upd fun_upd_same fun_upd_other simp del: fun_upd_apply)
  qed
qed

text \<open>Whoever holds a greatest mutex that is held can go on.\<close>

lemma holder_moves:
  assumes "all_ordered rank s" and "lk_owner s m = Some t" and "\<And>m'. lk_owner s m' \<noteq> None \<Longrightarrow> rank m' \<le> rank m"
  shows "\<exists>s'. lock_step s s'"
proof -
  have o: "ordered rank {m. lk_owner s m = Some t} (lk_todo s t)" using assms(1) by (simp add: all_ordered_def)
  with assms(2) obtain i ops where l: "lk_todo s t = i # ops" by (cases "lk_todo s t") auto
  show ?thesis
  proof (cases i)
    case (Lock m')
    with o l assms(2) have "rank m < rank m'" by auto
    with assms(3) [of m'] have "lk_owner s m' = None" by fastforce
    with Lock l show ?thesis using lock_step.lock [of s t m' ops] by auto
  next
    case (Unlock m')
    with o l show ?thesis using lock_step.unlock [of s t m' ops] by auto
  qed
qed

lemma all_ordered_moves:
  assumes inv: "all_ordered rank s" and work: "lk_todo s t \<noteq> []" and bound: "\<forall>m. rank m < b"
  shows "\<exists>s'. lock_step s s'"
proof (cases "\<exists>m. lk_owner s m \<noteq> None")
  case True
  then obtain m where m: "lk_owner s m \<noteq> None" "\<And>m'. lk_owner s m' \<noteq> None \<Longrightarrow> rank m' \<le> rank m"
    using ex_has_greatest_nat [of "\<lambda>m. lk_owner s m \<noteq> None" _ rank b] bound by blast
  then obtain u where "lk_owner s m = Some u" by blast
  then show ?thesis using holder_moves [OF inv] m(2) by blast
next
  case False
  then have "ordered rank {} (lk_todo s t)" using inv by (auto simp: all_ordered_def dest: spec [of _ t])
  with work obtain m ops where "lk_todo s t = Lock m # ops"
    by (cases "lk_todo s t"; cases "hd (lk_todo s t)") auto
  with False show ?thesis using lock_step.lock [of s t m ops] by blast
qed

lemma ordered_no_deadlock:
  assumes "\<And>t. ordered rank {} (work t)" and "\<forall>m. rank m < b" and "lock_step\<^sup>*\<^sup>* (locks_start work) s"
  shows "\<not> deadlocked s"
proof -
  have "all_ordered rank s"
    using assms(3)
  proof (induction rule: rtranclp_induct)
    case base
    show ?case using assms(1) by (simp add: all_ordered_def locks_start_def)
  next
    case (step s s')
    then show ?case by (auto dest: all_ordered_step)
  qed
  then show ?thesis using all_ordered_moves [of rank s _ b] assms(2) unfolding deadlocked_def by blast
qed

section \<open>The order of the activities\<close>

text \<open>
  Operations that leave what they find held. Without arrivals the scan's order is kept, the set
  before the bus before the queues; without a scan the order of the publication of an arrival.
\<close>

definition leaves :: "(mutex \<Rightarrow> nat) \<Rightarrow> mutex set \<Rightarrow> lock_op list \<Rightarrow> bool" where
  "leaves rank held ops \<longleftrightarrow> (\<forall>rest. ordered rank held (ops @ rest) = ordered rank held rest)"

fun scan_rank :: "mutex \<Rightarrow> nat" where
  "scan_rank Apps_mutex = 0"
| "scan_rank Bus_mutex = 1"
| "scan_rank (Queue_mutex p) = 2"

fun publish_rank :: "mutex \<Rightarrow> nat" where
  "publish_rank Bus_mutex = 0"
| "publish_rank _ = 1"

lemma rank_bounds: "\<forall>m. scan_rank m < 3" "\<forall>m. publish_rank m < 3"
proof (safe)
  fix m
  show "scan_rank m < 3" "publish_rank m < 3" by (cases m; simp)+
qed

lemma leaves_ordered: "leaves rank {} ops \<Longrightarrow> ordered rank {} ops"
  unfolding leaves_def by (metis append_Nil2 ordered.simps(1))

lemma leaves_append: "leaves rank held xs \<Longrightarrow> leaves rank held ys \<Longrightarrow> leaves rank held (xs @ ys)"
  by (simp add: leaves_def)

lemma leaves_concat: "(\<And>x. x \<in> set xs \<Longrightarrow> leaves rank held (f x)) \<Longrightarrow> leaves rank held (concat (map f xs))"
  by (induction xs) (simp_all add: leaves_def)

lemma leaves_guard:
  assumes "\<And>h. h \<in> held \<Longrightarrow> rank h < rank m" and "leaves rank (insert m held) ops"
  shows "leaves rank held (Lock m # ops @ [Unlock m])"
proof -
  have "m \<notin> held" using assms(1) by auto
  with assms show ?thesis unfolding leaves_def by simp
qed

lemma leaves_none: "leaves rank held []"
  by (simp add: leaves_def)

lemma leaves_publication:
  assumes "\<And>h. h \<in> held \<Longrightarrow> rank h < rank Bus_mutex"
    and "\<And>p. p \<in> set (receivers watching ev) \<Longrightarrow>
      rank Bus_mutex < rank (if p = SecurityMonitorThread then Apps_mutex else Queue_mutex p)"
  shows "leaves rank held (publication watching ev)"
proof -
  have "leaves rank (insert Bus_mutex held) (receiver_locks p)" if "p \<in> set (receivers watching ev)" for p
    using assms(2) [OF that] assms(1) order.strict_trans
      leaves_guard [of "insert Bus_mutex held" rank "if p = SecurityMonitorThread then Apps_mutex else Queue_mutex p" "[]", OF _ leaves_none]
    by (fastforce simp: receiver_locks_def subscriber_locks_def)
  then show ?thesis
    unfolding publication_def publish_locks_def using assms(1) by (intro leaves_guard leaves_concat) auto
qed

lemma receivers_monitor: "SecurityMonitorThread \<in> set (receivers watching ev) \<longleftrightarrow> watching \<and> is_arrival ev"
  by (cases ev) auto

lemma leaves_handling:
  assumes "\<And>ev. ev \<in> set evs \<Longrightarrow> leaves rank {} (publication watching ev)"
  shows "leaves rank {} (activity_locks watching (Handles p evs))"
proof -
  have "leaves rank {} [Lock (Queue_mutex p), Unlock (Queue_mutex p)]"
    using leaves_guard [of "{}" rank "Queue_mutex p" "[]", OF _ leaves_none] by simp
  then show ?thesis unfolding activity_locks.simps using assms by (intro leaves_append leaves_concat)
qed

lemma no_arrivals_leave:
  assumes "watching \<Longrightarrow> \<forall>ev\<in>set (published_events a). \<not> is_arrival ev"
  shows "leaves scan_rank {} (activity_locks watching a)"
proof -
  have "leaves scan_rank held (publication watching ev)" if "held \<subseteq> {Apps_mutex}" "ev \<in> set (published_events a)" for held ev
    using assms that receivers_monitor [of watching ev] by (intro leaves_publication) auto
  then show ?thesis
    by (cases a) (auto intro!: leaves_guard leaves_concat leaves_handling simp del: activity_locks.simps(2))
qed

lemma no_scans_leave:
  assumes "\<not> is_scan a"
  shows "leaves publish_rank {} (activity_locks watching a)"
proof -
  have "leaves publish_rank {} (publication watching ev)" for ev
    by (rule leaves_publication) auto
  then show ?thesis using assms by (cases a) (auto intro!: leaves_handling simp del: activity_locks.simps(2))
qed

lemma working_no_deadlock:
  assumes "lock_step\<^sup>*\<^sup>* (locks_start (working watching acts)) s"
    and "(\<forall>t. \<forall>a\<in>set (acts t). watching \<longrightarrow> (\<forall>ev\<in>set (published_events a). \<not> is_arrival ev)) \<or>
         (\<forall>t. \<forall>a\<in>set (acts t). \<not> is_scan a)"
  shows "\<not> deadlocked s"
  using assms(2)
proof
  assume a: "\<forall>t. \<forall>a\<in>set (acts t). watching \<longrightarrow> (\<forall>ev\<in>set (published_events a). \<not> is_arrival ev)"
  have "ordered scan_rank {} (working watching acts t)" for t
    unfolding working_def using a by (intro leaves_ordered leaves_concat no_arrivals_leave) blast
  then show ?thesis using rank_bounds(1) assms(1) by (rule ordered_no_deadlock)
next
  assume a: "\<forall>t. \<forall>a\<in>set (acts t). \<not> is_scan a"
  have "ordered publish_rank {} (working watching acts t)" for t
    unfolding working_def using a by (intro leaves_ordered leaves_concat no_scans_leave) blast
  then show ?thesis using rank_bounds(2) assms(1) by (rule ordered_no_deadlock)
qed

section \<open>A run into the deadlock\<close>

text \<open>The workload manager handles a request and publishes the arrival, while the monitor scans.\<close>

definition crossing :: "app \<Rightarrow> konro_part \<Rightarrow> activity list" where
  "crossing app =
     (\<lambda>_. [])(WorkloadManagerThread := [Handles WorkloadManagerThread [AddEvent app]],
             SecurityMonitorThread := [Scans [SecurityEvent app (Fin 0) zero_factors []]])"

definition crossed :: "konro_part locks" where
  "crossed =
     \<lparr> lk_todo = (\<lambda>_. [])(WorkloadManagerThread := [Lock Apps_mutex, Unlock Apps_mutex, Unlock Bus_mutex],
         SecurityMonitorThread := [Lock Bus_mutex, Lock (Queue_mutex PolicyManagerThread), Unlock (Queue_mutex PolicyManagerThread),
           Unlock Bus_mutex, Unlock Apps_mutex]),
       lk_owner = (\<lambda>_. None)(Bus_mutex := Some WorkloadManagerThread, Apps_mutex := Some SecurityMonitorThread) \<rparr>"

lemma crossed_deadlocked: "deadlocked crossed"
  by (rule all_wait [of _ WorkloadManagerThread]) (auto simp: crossed_def split: if_splits)

lemma crossed_reached: "lock_step\<^sup>*\<^sup>* (locks_start (working True (crossing app))) crossed"
proof -
  let ?W = WorkloadManagerThread and ?M = SecurityMonitorThread
  let ?q = "Queue_mutex ?W" and ?p = "Queue_mutex PolicyManagerThread"
  let ?a = "[Lock Apps_mutex, Unlock Apps_mutex, Unlock Bus_mutex]"
  let ?m = "[Lock Bus_mutex, Lock ?p, Unlock ?p, Unlock Bus_mutex, Unlock Apps_mutex]"
  let ?s = "\<lambda>w m owner. \<lparr> lk_todo = (\<lambda>_. [])(?W := w, ?M := m), lk_owner = owner \<rparr>"
  have start: "locks_start (working True (crossing app))
      = ?s ([Lock ?q, Unlock ?q, Lock Bus_mutex, Lock ?p, Unlock ?p] @ ?a) (Lock Apps_mutex # ?m) (\<lambda>_. None)"
    by (auto simp: locks_start_def working_def crossing_def publication_def publish_locks_def receiver_locks_def subscriber_locks_def)
  have wl: "lock_step (?s (Lock x # w) m owner) (?s w m (owner(x := Some ?W)))" if "owner x = None" for x w m owner
    using that lock_step.lock [of "?s (Lock x # w) m owner" ?W x w] by (simp add: fun_upd_twist)
  have wu: "lock_step (?s (Unlock x # w) m owner) (?s w m (owner(x := None)))" if "owner x = Some ?W" for x w m owner
    using that lock_step.unlock [of "?s (Unlock x # w) m owner" ?W x w] by (simp add: fun_upd_twist)
  have ml: "lock_step (?s w (Lock x # m) owner) (?s w m (owner(x := Some ?M)))" if "owner x = None" for x w m owner
    using that lock_step.lock [of "?s w (Lock x # m) owner" ?M x m] by simp
  note go = converse_rtranclp_into_rtranclp [where r = lock_step]
  have "lock_step\<^sup>*\<^sup>* (?s ([Lock ?q, Unlock ?q, Lock Bus_mutex, Lock ?p, Unlock ?p] @ ?a) (Lock Apps_mutex # ?m) (\<lambda>_. None))
    (?s ?a ?m ((\<lambda>_. None)(?q := Some ?W, ?q := None, Bus_mutex := Some ?W, ?p := Some ?W, ?p := None, Apps_mutex := Some ?M)))"
    by (simp only: append.simps, rule go [OF wl], simp, rule go [OF wu], simp, rule go [OF wl], simp, rule go [OF wl], simp,
      rule go [OF wu], simp, rule go [OF ml], simp, rule rtranclp.rtrancl_refl)
  moreover have "(\<lambda>_. None)(?q := Some ?W, ?q := None, Bus_mutex := Some ?W, ?p := Some ?W, ?p := None, Apps_mutex := Some ?M)
      = (\<lambda>_. None)(Bus_mutex := Some ?W, Apps_mutex := Some ?M)" by auto
  ultimately show ?thesis unfolding start crossed_def by (simp only:)
qed

end
