(* ===== verification/KonroLib.thy ===== *)
theory KonroLib
  imports KonroHttp
begin

text \<open>
  \<open>konrolib/konrolib.cpp\<close>: the library that an integrated application links, and the way of
  its messages through the HTTP interface into the events of the resource manager. Its process
  id, namespace and name come from the kernel and are arguments here.
\<close>

section \<open>Feedback\<close>

definition limit_between :: "int \<Rightarrow> int \<Rightarrow> int \<Rightarrow> int" where
  "limit_between val minval maxval = max (min val maxval) minval"

text \<open>The product overflows and the division fails where \<open>int\<close> arithmetic does.\<close>

definition computeFeedback :: "int \<Rightarrow> int \<Rightarrow> int result" where
  "computeFeedback curValue goal =
     (if \<not> is_int32 (curValue * 100) then Inl (Undefined ''signed integer overflow'')
      else if goal = 0 then Inl (Undefined ''division by zero'')
      else (let q = sgn (curValue * 100) * sgn goal * (\<bar>curValue * 100\<bar> div \<bar>goal\<bar>) in
        if \<not> is_int32 q then Inl (Undefined ''signed integer overflow'')
        else Inr (limit_between q 0 200)))"

section \<open>Messages\<close>

definition getServerAddress :: "string option \<Rightarrow> string" where
  "getServerAddress envAddr = (case envAddr of None \<Rightarrow> ''http://localhost:8080'' | Some a \<Rightarrow> a)"

definition feedback_message :: "int \<Rightarrow> 64 word \<Rightarrow> int \<Rightarrow> 'd json" where
  "feedback_message pid ns feedback =
     JObject [(''feedback'', JInteger feedback), (''namespace'', JUnsigned ns), (''pid'', JInteger pid)]"

fun level_name :: "int \<Rightarrow> string option" where
  "level_name l =
     (if l = 1 then Some ''LOW'' else if l = 2 then Some ''MEDIUM'' else if l = 3 then Some ''HIGH''
      else if l = 4 then Some ''CRITICAL'' else None)"

definition add_message :: "int \<Rightarrow> 64 word \<Rightarrow> string \<Rightarrow> int \<Rightarrow> 'd json" where
  "add_message pid ns name level =
     JObject ([(''name'', JString name), (''namespace'', JUnsigned ns), (''pid'', JInteger pid)] @
       (case level_name level of None \<Rightarrow> [] | Some l \<Rightarrow> [(''securityLevel'', JString l)]))"

text \<open>\<open>sendPost\<close>: the path and the body of the request; the client library delivers it.\<close>

definition sendFeedbackMessage :: "'d json_lib \<Rightarrow> int \<Rightarrow> 64 word \<Rightarrow> int \<Rightarrow> string \<times> string" where
  "sendFeedbackMessage lib pid ns feedback = (''/feedback'', json_dump lib (feedback_message pid ns feedback))"

definition sendAddMessage :: "'d json_lib \<Rightarrow> int \<Rightarrow> 64 word \<Rightarrow> string \<Rightarrow> int \<Rightarrow> string \<times> string" where
  "sendAddMessage lib pid ns name level = (''/add'', json_dump lib (add_message pid ns name level))"

section \<open>The way to the events\<close>

definition level_of_int :: "int \<Rightarrow> security_level" where
  "level_of_int l = (if l = 1 then LOW else if l = 2 then MEDIUM else if l = 3 then HIGH else if l = 4 then CRITICAL else UNCLASSIFIED)"

lemma reread_key:
  "has_key (reread (JObject kvs)) key \<longleftrightarrow> map_of kvs key \<noteq> None"
  "map_of kvs key = Some v \<Longrightarrow> json_at (reread (JObject kvs)) key = reread v"
  by (simp_all add: has_key_def json_at_def members_reread del: reread.simps(2))

lemma feedback_arrives:
  assumes "prints_back lib (feedback_message pid ns fb)" and "is_int32 pid" and "is_int32 fb"
  shows "sendFeedbackEvent lib (json_dump lib (feedback_message pid ns fb)) (k, evs)
    = (Inr (), (k, evs @ [FeedbackRequestEvent pid (unat ns) fb]))"
  using assms get_int_reread [of pid lib] get_int_reread [of fb lib]
  by (simp add: sendFeedbackEvent_def prints_back_def parse_json_def feedback_message_def reread_key http_publish_def
      act_defs del: reread.simps(1,2))

text \<open>The type of an application that asks to be added from a namespace.\<close>

definition integrated_kind :: "('k, 'm) os_scheme \<Rightarrow> int \<Rightarrow> nat \<Rightarrow> ('k, app_type \<times> int) act" where
  "integrated_kind os nsPid ns =
     bnd (mapPid os nsPid ns) (\<lambda>pid.
     if pid \<noteq> nsPid then bnd (isKubPod os pid) (\<lambda>kub. ret (if kub then KUBERNETES else CONTAINER, pid))
     else ret (INTEGRATED, pid))"

lemma add_arrives:
  assumes "prints_back lib (add_message pid ns name level)" and "is_int32 pid"
  shows "sendAddEvent os lib (json_dump lib (add_message pid ns name level))
    = bnd (on_fst (integrated_kind os pid (unat ns))) (\<lambda>(ty, p).
        http_publish (AddRequestEvent (makeApp p ty name pid (unat ns) (level_of_int level))))"
proof -
  let ?j = "reread (add_message pid ns name level) :: 'a json"
  have keys: "has_key ?j ''pid''" "has_key ?j ''name''" "\<not> has_key ?j ''type''" "has_key ?j ''namespace''"
    "has_key ?j ''securityLevel'' \<longleftrightarrow> level_name level \<noteq> None"
    by (cases "level_name level"; simp add: add_message_def reread_key del: reread.simps level_name.simps)+
  have vals: "get_int lib (json_at ?j ''pid'') = Inr pid" "get_string (json_at ?j ''name'') = Inr name"
    "get_u64 lib (json_at ?j ''namespace'') = Inr ns"
    "level_name level = Some l \<Longrightarrow> get_string (json_at ?j ''securityLevel'') = Inr l" for l
    using get_int_reread [OF assms(2)]
    by (simp_all add: add_message_def reread_key del: reread.simps(1,2) level_name.simps)
  have lev: "(case level_name level of None \<Rightarrow> UNCLASSIFIED | Some l \<Rightarrow> getSecurityLevelByName l) = level_of_int level"
    by (simp add: level_of_int_def getSecurityLevelByName_def)
  have l: "(if has_key ?j ''securityLevel''
      then bnd (lift_result (get_string (json_at ?j ''securityLevel''))) (\<lambda>l. ret (getSecurityLevelByName l))
      else ret UNCLASSIFIED) = ret (level_of_int level)"
    using vals(4) lev by (cases "level_name level") (simp_all add: keys(5) del: level_name.simps)
  have on: "on_fst (integrated_kind os pid (unat ns)) = bnd (on_fst (mapPid os pid (unat ns))) (\<lambda>p.
      if p \<noteq> pid then bnd (on_fst (isKubPod os p)) (\<lambda>kub. ret (if kub then KUBERNETES else CONTAINER, p)) else ret (INTEGRATED, p))"
    for os :: "('x, 'y) os_scheme"
    by (rule ext) (auto simp: integrated_kind_def act_defs split: prod.splits sum.splits)
  show ?thesis
    using assms(1)
    unfolding sendAddEvent_def prints_back_def parse_json_def on
    by (auto simp: add_kind_def keys(1-4) vals(1-3) l bnd_assoc intro!: arg_cong [where f = "bnd _"])
qed

section \<open>The feedback value\<close>

lemma computeFeedback_bounds: "computeFeedback c t = Inr f \<Longrightarrow> 0 \<le> f \<and> f \<le> 200"
  by (auto simp: computeFeedback_def limit_between_def Let_def split: if_splits)

lemma computeFeedback_pos:
  assumes "0 \<le> c" and "c \<le> 21474836" and "0 < t"
  shows "computeFeedback c t = Inr (min (c * 100 div t) 200)"
proof -
  have "c * 100 div t \<le> c * 100" using assms zdiv_mono2 [of "c * 100" 1 t] by simp
  moreover have nn: "0 \<le> c * 100 div t" using assms by (simp add: pos_imp_zdiv_nonneg_iff)
  ultimately have i: "is_int32 (c * 100)" "is_int32 (c * 100 div t)" using assms by (auto simp: is_int32_def)
  have q: "sgn (c * 100) * sgn t * (\<bar>c * 100\<bar> div \<bar>t\<bar>) = c * 100 div t" using assms by (cases "c = 0") auto
  show ?thesis unfolding computeFeedback_def q Let_def using i assms nn by (simp add: limit_between_def)
qed

end
