(* ===== verification/PolicyTimer.thy ===== *)
theory PolicyTimer
  imports Events
begin

text \<open>
  \<open>rm/policymanager/policytimer.cpp\<close>, and the same loop in \<open>PlatformMonitor::run\<close>: a thread
  that sleeps a number of seconds, one at a time, publishes an event, and starts again, until
  it is stopped. A step relation over the program points of the loop, interleaved with \<open>stop\<close>;
  the facts say how often the event comes, for periods that are positive and for others.
\<close>

text \<open>
  The points: before the outer test, before the test of the inner loop, asleep, before the
  test in front of \<open>publish\<close>, and past the loop. \<open>tk_i\<close> is the variable of the inner loop;
  \<open>tk_slept\<close> and \<open>tk_published\<close> count the seconds slept and the events published.
\<close>

datatype tick_point = Outer | Inner | Asleep | Publishing | Finished

record ticker =
  tk_point :: tick_point
  tk_i :: int
  tk_stop :: bool
  tk_slept :: int
  tk_published :: int

definition new_ticker :: ticker where
  "new_ticker = \<lparr> tk_point = Outer, tk_i = 0, tk_stop = False, tk_slept = 0, tk_published = 0 \<rparr>"

inductive ticker_step :: "int \<Rightarrow> ticker \<Rightarrow> ticker \<Rightarrow> bool" for seconds :: int where
  tick_stop: "ticker_step seconds s (s\<lparr>tk_stop := True\<rparr>)"
| tick_outer: "tk_point s = Outer \<Longrightarrow> \<not> tk_stop s \<Longrightarrow> ticker_step seconds s (s\<lparr>tk_point := Inner, tk_i := 0\<rparr>)"
| tick_leave: "tk_point s = Outer \<Longrightarrow> tk_stop s \<Longrightarrow> ticker_step seconds s (s\<lparr>tk_point := Finished\<rparr>)"
| tick_sleep: "tk_point s = Inner \<Longrightarrow> tk_i s < seconds \<Longrightarrow> \<not> tk_stop s \<Longrightarrow> ticker_step seconds s (s\<lparr>tk_point := Asleep\<rparr>)"
| tick_wake: "tk_point s = Asleep \<Longrightarrow> ticker_step seconds s (s\<lparr>tk_point := Inner, tk_i := tk_i s + 1, tk_slept := tk_slept s + 1\<rparr>)"
| tick_over: "tk_point s = Inner \<Longrightarrow> \<not> tk_i s < seconds \<or> tk_stop s \<Longrightarrow> ticker_step seconds s (s\<lparr>tk_point := Publishing\<rparr>)"
| tick_publish: "tk_point s = Publishing \<Longrightarrow> \<not> tk_stop s \<Longrightarrow>
    ticker_step seconds s (s\<lparr>tk_point := Outer, tk_published := tk_published s + 1\<rparr>)"
| tick_skip: "tk_point s = Publishing \<Longrightarrow> tk_stop s \<Longrightarrow> ticker_step seconds s (s\<lparr>tk_point := Outer\<rparr>)"

inductive_cases ticker_stepE: "ticker_step seconds s t"

abbreviation ticker_runs :: "int \<Rightarrow> ticker \<Rightarrow> ticker \<Rightarrow> bool" where
  "ticker_runs seconds \<equiv> (ticker_step seconds)\<^sup>*\<^sup>*"

text \<open>
  Every event has been paid for with a full period of sleep; what has been slept in the current
  round is \<open>tk_i\<close>, and before the event it is the full period unless the thread is stopping.
\<close>

definition paid :: "int \<Rightarrow> ticker \<Rightarrow> bool" where
  "paid seconds s \<longleftrightarrow> 0 \<le> tk_i s \<and> tk_i s \<le> max seconds 0 \<and>
     (case tk_point s of
        Outer \<Rightarrow> seconds * tk_published s \<le> tk_slept s
      | Inner \<Rightarrow> seconds * tk_published s + tk_i s \<le> tk_slept s
      | Asleep \<Rightarrow> seconds * tk_published s + tk_i s \<le> tk_slept s \<and> tk_i s < seconds
      | Publishing \<Rightarrow> seconds * tk_published s + (if tk_stop s then 0 else seconds) \<le> tk_slept s
      | Finished \<Rightarrow> seconds * tk_published s \<le> tk_slept s)"

lemma paid_step: "ticker_step seconds s t \<Longrightarrow> 0 < seconds \<Longrightarrow> paid seconds s \<Longrightarrow> paid seconds t"
  by (erule ticker_stepE) (auto simp: paid_def algebra_simps split: tick_point.splits if_splits)

lemma paid_run: "ticker_runs seconds s t \<Longrightarrow> 0 < seconds \<Longrightarrow> paid seconds s \<Longrightarrow> paid seconds t"
  by (induction rule: rtranclp_induct) (auto dest: paid_step)

lemma paid_new: "paid seconds new_ticker"
  by (simp add: paid_def new_ticker_def)

lemma paid_rate: "paid seconds s \<Longrightarrow> 0 < seconds \<Longrightarrow> seconds * tk_published s \<le> tk_slept s"
  by (auto simp: paid_def split: tick_point.splits if_splits)

text \<open>Nothing is published once the flag is set.\<close>

lemma stopped_ticker_step: "ticker_step seconds s t \<Longrightarrow> tk_stop s \<Longrightarrow> tk_stop t \<and> tk_published t = tk_published s"
  by (erule ticker_stepE) auto

lemma stopped_ticker: "ticker_runs seconds s t \<Longrightarrow> tk_stop s \<Longrightarrow> tk_stop t \<and> tk_published t = tk_published s"
  by (induction rule: rtranclp_induct) (auto dest: stopped_ticker_step)

text \<open>With a period that is not positive the thread never sleeps, and publishes in every round.\<close>

lemma eager_round:
  assumes "seconds \<le> 0"
  shows "ticker_runs seconds (new_ticker\<lparr>tk_published := n\<rparr>) (new_ticker\<lparr>tk_published := n + 1\<rparr>)"
proof -
  let ?s = "new_ticker\<lparr>tk_published := n\<rparr>"
  have "ticker_step seconds ?s (?s\<lparr>tk_point := Inner, tk_i := 0\<rparr>)"
    by (rule tick_outer) (simp_all add: new_ticker_def)
  moreover have "ticker_step seconds (?s\<lparr>tk_point := Inner, tk_i := 0\<rparr>) (?s\<lparr>tk_point := Inner, tk_i := 0\<rparr>\<lparr>tk_point := Publishing\<rparr>)"
    using assms by (intro tick_over) (simp_all add: new_ticker_def)
  moreover have "ticker_step seconds (?s\<lparr>tk_point := Inner, tk_i := 0\<rparr>\<lparr>tk_point := Publishing\<rparr>) (new_ticker\<lparr>tk_published := n + 1\<rparr>)"
    using tick_publish [of "?s\<lparr>tk_point := Inner, tk_i := 0\<rparr>\<lparr>tk_point := Publishing\<rparr>" seconds] by (simp add: new_ticker_def)
  ultimately show ?thesis by (meson converse_rtranclp_into_rtranclp rtranclp.rtrancl_refl)
qed

lemma eager_ticker: "seconds \<le> 0 \<Longrightarrow> ticker_runs seconds new_ticker (new_ticker\<lparr>tk_published := int n\<rparr>)"
proof (induction n)
  case 0
  have "new_ticker\<lparr>tk_published := int 0\<rparr> = new_ticker" by (simp add: new_ticker_def)
  then show ?case by simp
next
  case (Suc n)
  then show ?case using eager_round [of seconds "int n"] by (simp add: add.commute)
qed

end
