(* ===== verification/ProcListener.thy ===== *)
theory ProcListener
  imports Events
begin

text \<open>
  \<open>rm/workloadmanager/proclistener.{h,cpp}\<close>: the listener on the process connector of the
  kernel. It registers with the kernel over a netlink socket, takes the messages of every
  datagram it receives apart, and publishes the forks, execs and exits among them. The layout
  of the kernel's structures and the socket calls are parameters. The walk over a datagram and
  the main loop need not end, so they are partial functions: \<open>None\<close> is a call that never
  returns.
\<close>

section \<open>Layout\<close>

text \<open>
  \<open>nl_hdrlen\<close> is \<open>NLMSG_HDRLEN\<close> and \<open>cn_hdrlen\<close> the size of \<open>struct cn_msg\<close>; the readers give
  \<open>nlmsg_len\<close>, \<open>nlmsg_type\<close> and the \<open>what\<close> of a \<open>proc_event\<close> at the start of a list of bytes.
\<close>

record netlink_abi =
  nl_hdrlen :: int
  cn_hdrlen :: int
  nl_len :: "8 word list \<Rightarrow> int"
  nl_type :: "8 word list \<Rightarrow> int"
  pe_what :: "8 word list \<Rightarrow> int"

definition NLMSG_NOOP :: int where "NLMSG_NOOP = 1"
definition NLMSG_ERROR :: int where "NLMSG_ERROR = 2"
definition NLMSG_DONE :: int where "NLMSG_DONE = 3"
definition NLMSG_OVERRUN :: int where "NLMSG_OVERRUN = 4"
definition NLMSG_STOP_MESSAGE_TYPE :: int where "NLMSG_STOP_MESSAGE_TYPE = 16 + 12345"

definition PROC_EVENT_FORK :: int where "PROC_EVENT_FORK = 1"
definition PROC_EVENT_EXEC :: int where "PROC_EVENT_EXEC = 2"
definition PROC_EVENT_EXIT :: int where "PROC_EVENT_EXIT = 2147483648"

lemmas netlink_numbers = NLMSG_NOOP_def NLMSG_ERROR_def NLMSG_DONE_def NLMSG_OVERRUN_def NLMSG_STOP_MESSAGE_TYPE_def
  PROC_EVENT_FORK_def PROC_EVENT_EXEC_def PROC_EVENT_EXIT_def

definition nlmsg_align :: "int \<Rightarrow> int" where
  "nlmsg_align len = (len + 3) div 4 * 4"

text \<open>The bytes from an offset on, and \<open>NLMSG_OK\<close> for the message there with \<open>nBytes\<close> left.\<close>

definition at_offset :: "8 word list \<Rightarrow> int \<Rightarrow> 8 word list" where
  "at_offset buf off = drop (nat off) buf"

definition nlmsg_ok :: "netlink_abi \<Rightarrow> 8 word list \<Rightarrow> int \<Rightarrow> int \<Rightarrow> bool" where
  "nlmsg_ok abi buf off nBytes \<longleftrightarrow>
     nl_hdrlen abi \<le> nBytes \<and> nl_hdrlen abi \<le> nl_len abi (at_offset buf off) \<and> nl_len abi (at_offset buf off) \<le> nBytes"

section \<open>A datagram\<close>

text \<open>
  \<open>forwardEvent\<close>: the events copy \<open>len\<close> bytes from the start of the \<open>proc_event\<close>; the caller
  passes the bytes left of the datagram, headers included, so that the copy reaches past the
  end of the message, and for a long one past the end of the buffer.
\<close>

definition forwardEvent :: "netlink_abi \<Rightarrow> 8 word list \<Rightarrow> int \<Rightarrow> int \<Rightarrow> event list result" where
  "forwardEvent abi buf off len =
     (let data = at_offset buf off; what = pe_what abi data in
      if what \<noteq> PROC_EVENT_FORK \<and> what \<noteq> PROC_EVENT_EXEC \<and> what \<noteq> PROC_EVENT_EXIT then Inr []
      else if int (length data) < len then Inl (Undefined ''read past the buffer'')
      else (let bytes = take (nat len) data in
        Inr [if what = PROC_EVENT_FORK then ForkEvent bytes
             else if what = PROC_EVENT_EXEC then ExecEvent bytes else ExitEvent bytes]))"

text \<open>How the walk over a datagram ends.\<close>

datatype received = Failed | Processed | StopRequested

text \<open>
  The loop of \<open>receiveConnectorNetlinkMessage\<close> with the events published so far. \<open>continue\<close> on
  a \<open>NOOP\<close> message goes back to the test with the pointer where it was.
\<close>

partial_function (option) recv_loop :: "netlink_abi \<Rightarrow> 8 word list \<Rightarrow> int \<Rightarrow> int \<Rightarrow> event list \<Rightarrow> (received \<times> event list) result option" where
  "recv_loop abi buf off nBytes pub =
     (if \<not> nlmsg_ok abi buf off nBytes then Some (Inr (Processed, pub))
      else if nl_type abi (at_offset buf off) = NLMSG_NOOP then recv_loop abi buf off nBytes pub
      else if nl_type abi (at_offset buf off) = NLMSG_ERROR \<or> nl_type abi (at_offset buf off) = NLMSG_OVERRUN
        then Some (Inr (Failed, pub))
      else if nl_type abi (at_offset buf off) = NLMSG_STOP_MESSAGE_TYPE then Some (Inr (StopRequested, pub))
      else (case forwardEvent abi buf (off + nl_hdrlen abi + cn_hdrlen abi) nBytes of
              Inl e \<Rightarrow> Some (Inl e)
            | Inr evs \<Rightarrow>
                (if nl_type abi (at_offset buf off) = NLMSG_DONE then Some (Inr (Processed, pub @ evs))
                 else recv_loop abi buf (off + nlmsg_align (nl_len abi (at_offset buf off)))
                        (nBytes - nlmsg_align (nl_len abi (at_offset buf off))) (pub @ evs))))"

declare recv_loop.simps [code]

section \<open>The listener\<close>

datatype message_op = LISTEN | IGNORE | STOP

fun op_value :: "message_op \<Rightarrow> int" where
  "op_value LISTEN = 1"
| "op_value IGNORE = 2"
| "op_value STOP = 6"

text \<open>
  A message sent: its type, the sender's id in it, the operation, and the destination, id and
  groups; index, value and length are those of the process connector in all of them.
\<close>

record nl_message =
  msg_type :: int
  msg_pid :: int
  msg_op :: int
  dst_pid :: int
  dst_groups :: int

definition CN_IDX_PROC :: int where "CN_IDX_PROC = 1"
definition KERNEL_PID :: int where "KERNEL_PID = 0"

text \<open>
  The calls on sockets. \<open>nl_socket\<close> is \<open>None\<close> when it fails; \<open>nl_recv\<close> gives the count and the
  buffer of 1024 bytes after the call.
\<close>

record 'k netlink =
  nl_socket :: "'k \<Rightarrow> int option \<times> 'k"
  nl_bind :: "int \<Rightarrow> int \<Rightarrow> 'k \<Rightarrow> bool \<times> 'k"
  nl_send :: "int \<Rightarrow> nl_message \<Rightarrow> 'k \<Rightarrow> bool \<times> 'k"
  nl_recv :: "int \<Rightarrow> 'k \<Rightarrow> (int \<times> 8 word list) \<times> 'k"
  nl_close :: "int \<Rightarrow> 'k \<Rightarrow> 'k"

definition kernelMessage :: "int \<Rightarrow> message_op \<Rightarrow> nl_message" where
  "kernelMessage tid op =
     \<lparr> msg_type = NLMSG_DONE, msg_pid = tid, msg_op = op_value op, dst_pid = KERNEL_PID, dst_groups = CN_IDX_PROC \<rparr>"

definition threadMessage :: "message_op \<Rightarrow> nl_message" where
  "threadMessage op =
     \<lparr> msg_type = NLMSG_STOP_MESSAGE_TYPE, msg_pid = KERNEL_PID + 1, msg_op = op_value op, dst_pid = 0, dst_groups = CN_IDX_PROC \<rparr>"

definition receiveMessage :: "netlink_abi \<Rightarrow> 'k netlink \<Rightarrow> int \<Rightarrow> 'k \<Rightarrow> event list \<Rightarrow> ((received \<times> event list) result \<times> 'k) option" where
  "receiveMessage abi net sock k pub =
     (case nl_recv net sock k of
        ((nBytes, buf), k') \<Rightarrow>
          if nBytes \<le> 0 then Some (Inr (Failed, pub), k')
          else map_option (\<lambda>r. (r, k')) (recv_loop abi buf 0 nBytes pub))"

text \<open>The main loop; undefined behaviour ends it.\<close>

partial_function (option) listen_loop :: "netlink_abi \<Rightarrow> 'k netlink \<Rightarrow> int \<Rightarrow> 'k \<Rightarrow> event list \<Rightarrow> (event list result \<times> 'k) option" where
  "listen_loop abi net sock k pub =
     Option.bind (receiveMessage abi net sock k pub) (\<lambda>(r, k').
       case r of
         Inl e \<Rightarrow> Some (Inl e, k')
       | Inr (out, pub') \<Rightarrow> (if out = Processed then listen_loop abi net sock k' pub' else Some (Inr pub', k')))"

declare listen_loop.simps [code]

text \<open>\<open>run\<close>, in the thread with the given id; what it has published, or why it ended before.\<close>

datatype listen_end = NoSocket | NotBound | NotRegistered | Ended "event list"

definition listener_run :: "netlink_abi \<Rightarrow> 'k netlink \<Rightarrow> int \<Rightarrow> 'k \<Rightarrow> (listen_end result \<times> 'k) option" where
  "listener_run abi net tid k =
     (case nl_socket net k of
        (None, k1) \<Rightarrow> Some (Inr NoSocket, k1)
      | (Some sock, k1) \<Rightarrow>
          (case nl_bind net sock tid k1 of
             (bound, k2) \<Rightarrow>
               if \<not> bound then Some (Inr NotBound, nl_close net sock k2)
               else (case nl_send net sock (kernelMessage tid LISTEN) k2 of
                 (sent, k3) \<Rightarrow>
                   if \<not> sent then Some (Inr NotRegistered, nl_close net sock k3)
                   else Option.bind (listen_loop abi net sock k3 []) (\<lambda>(r, k4).
                     case r of
                       Inl e \<Rightarrow> Some (Inl e, k4)
                     | Inr pub \<Rightarrow> Some (Inr (Ended pub), snd (nl_send net sock (kernelMessage tid IGNORE) k4))))))"

text \<open>\<open>stop\<close>, called from another thread; its socket is not closed.\<close>

definition listener_stop :: "'k netlink \<Rightarrow> 'k \<Rightarrow> bool \<times> 'k" where
  "listener_stop net k =
     (case nl_socket net k of
        (None, k1) \<Rightarrow> (False, k1)
      | (Some sock, k1) \<Rightarrow> nl_send net sock (threadMessage STOP) k1)"

section \<open>Ends and endless walks\<close>

text \<open>Without \<open>NOOP\<close> messages every message moves the walk on by a header at least.\<close>

lemma nlmsg_align_ge: "len \<le> nlmsg_align len"
  by (simp add: nlmsg_align_def)

lemma recv_loop_ends:
  assumes hdr: "0 < nl_hdrlen abi" and noop: "\<And>o'. nl_type abi (at_offset buf o') \<noteq> NLMSG_NOOP"
  shows "\<exists>r. recv_loop abi buf off nBytes pub = Some r"
proof (induction "nat nBytes" arbitrary: off nBytes pub rule: less_induct)
  case less
  let ?len = "nl_len abi (at_offset buf off)"
  show ?case
  proof (cases "nlmsg_ok abi buf off nBytes")
    case True
    then have "nat (nBytes - nlmsg_align ?len) < nat nBytes"
      using hdr nlmsg_align_ge [of ?len] by (auto simp: nlmsg_ok_def)
    then have "\<exists>r. recv_loop abi buf (off + nlmsg_align ?len) (nBytes - nlmsg_align ?len) pub' = Some r" for pub'
      by (rule less.hyps)
    then show ?thesis using noop by (subst recv_loop.simps) (auto split: sum.split)
  qed (simp add: recv_loop.simps)
qed

text \<open>A walk that comes to a \<open>NOOP\<close> message never ends.\<close>

lemma recv_loop_noop:
  assumes "nlmsg_ok abi buf off nBytes" and "nl_type abi (at_offset buf off) = NLMSG_NOOP"
  shows "recv_loop abi buf off nBytes pub = None"
proof (rule ccontr)
  assume "recv_loop abi buf off nBytes pub \<noteq> None"
  then obtain r where "recv_loop abi buf off nBytes pub = Some r" by blast
  then have "\<not> (nlmsg_ok abi buf off nBytes \<and> nl_type abi (at_offset buf off) = NLMSG_NOOP)"
  proof (rule recv_loop.raw_induct
      [where P = "\<lambda>abi buf off nBytes pub r. \<not> (nlmsg_ok abi buf off nBytes \<and> nl_type abi (at_offset buf off) = NLMSG_NOOP)", rotated])
    fix f :: "netlink_abi \<Rightarrow> 8 word list \<Rightarrow> int \<Rightarrow> int \<Rightarrow> event list \<Rightarrow> (received \<times> event list) result option" and abi buf off nBytes pub r
    let ?noop = "nlmsg_ok abi buf off nBytes \<and> nl_type abi (at_offset buf off) = NLMSG_NOOP"
    assume ih: "\<And>abi buf off nBytes pub y. f abi buf off nBytes pub = Some y \<Longrightarrow>
        \<not> (nlmsg_ok abi buf off nBytes \<and> nl_type abi (at_offset buf off) = NLMSG_NOOP)"
    show "\<not> ?noop" if "(if \<not> nlmsg_ok abi buf off nBytes then Some (Inr (Processed, pub))
      else if nl_type abi (at_offset buf off) = NLMSG_NOOP then f abi buf off nBytes pub
      else X) = Some r" for X
      using that ih by auto
  qed
  with assms show False by blast
qed

text \<open>What the kernel sends: one message for a datagram, marked as the last.\<close>

definition one_message :: "netlink_abi \<Rightarrow> 8 word list \<Rightarrow> int \<Rightarrow> bool" where
  "one_message abi buf nBytes \<longleftrightarrow> nlmsg_ok abi buf 0 nBytes \<and> nl_type abi buf = NLMSG_DONE \<and>
     0 < nl_hdrlen abi \<and> 0 \<le> cn_hdrlen abi \<and> nl_hdrlen abi + cn_hdrlen abi + nBytes \<le> int (length buf)"

definition event_of :: "int \<Rightarrow> 8 word list \<Rightarrow> event list" where
  "event_of what bytes =
     (if what = PROC_EVENT_FORK then [ForkEvent bytes]
      else if what = PROC_EVENT_EXEC then [ExecEvent bytes]
      else if what = PROC_EVENT_EXIT then [ExitEvent bytes] else [])"

lemma recv_one_message:
  assumes "one_message abi buf nBytes"
  shows "recv_loop abi buf 0 nBytes pub = Some (Inr (Processed, pub @
    (let data = at_offset buf (nl_hdrlen abi + cn_hdrlen abi) in event_of (pe_what abi data) (take (nat nBytes) data))))"
proof -
  let ?off = "nl_hdrlen abi + cn_hdrlen abi"
  have b: "at_offset buf 0 = buf" by (simp add: at_offset_def)
  have "\<not> int (length (at_offset buf ?off)) < nBytes" using assms by (auto simp: one_message_def at_offset_def)
  then have "forwardEvent abi buf ?off nBytes
      = Inr (let data = at_offset buf ?off in event_of (pe_what abi data) (take (nat nBytes) data))"
    by (auto simp: forwardEvent_def event_of_def Let_def)
  moreover have "nlmsg_ok abi buf 0 nBytes" "nl_type abi buf = NLMSG_DONE" using assms by (auto simp: one_message_def)
  ultimately show ?thesis by (subst recv_loop.simps) (simp add: b netlink_numbers)
qed

text \<open>
  A kernel that delivers a list of such datagrams and then the stop message: the listener
  publishes their events, in order, and ends.
\<close>

definition datagram_events :: "netlink_abi \<Rightarrow> int \<times> 8 word list \<Rightarrow> event list" where
  "datagram_events abi d =
     (let data = at_offset (snd d) (nl_hdrlen abi + cn_hdrlen abi) in event_of (pe_what abi data) (take (nat (fst d)) data))"

inductive delivers :: "'k netlink \<Rightarrow> int \<Rightarrow> 'k \<Rightarrow> (int \<times> 8 word list) list \<Rightarrow> 'k \<Rightarrow> bool" for net :: "'k netlink" and sock :: int where
  delivers_Nil: "delivers net sock k [] k"
| delivers_Cons: "nl_recv net sock k = (d, k') \<Longrightarrow> delivers net sock k' ds k'' \<Longrightarrow> delivers net sock k (d # ds) k''"

lemma listen_delivered:
  assumes "delivers net sock k ds k'" and "\<forall>d\<in>set ds. 0 < fst d \<and> one_message abi (snd d) (fst d)"
  shows "listen_loop abi net sock k pub = listen_loop abi net sock k' (pub @ concat (map (datagram_events abi) ds))"
  using assms
proof (induction arbitrary: pub rule: delivers.induct)
  case (delivers_Cons k d k' ds k'')
  obtain n buf where d: "d = (n, buf)" by (cases d)
  have "receiveMessage abi net sock k pub = Some (Inr (Processed, pub @ datagram_events abi d), k')"
    using delivers_Cons d recv_one_message [of abi buf n pub] by (auto simp: receiveMessage_def datagram_events_def)
  then have "listen_loop abi net sock k pub = listen_loop abi net sock k' (pub @ datagram_events abi d)"
    by (subst listen_loop.simps) simp
  with delivers_Cons show ?case by simp
qed simp

lemma listen_stop:
  assumes "nl_recv net sock k = ((nBytes, buf), k')" and "nlmsg_ok abi buf 0 nBytes" and "0 < nl_hdrlen abi"
    and "nl_type abi buf = NLMSG_STOP_MESSAGE_TYPE"
  shows "listen_loop abi net sock k pub = Some (Inr pub, k')"
proof -
  have "recv_loop abi buf 0 nBytes pub = Some (Inr (StopRequested, pub))"
    using assms by (subst recv_loop.simps) (simp add: at_offset_def netlink_numbers)
  moreover have "0 < nBytes" using assms by (simp add: nlmsg_ok_def)
  ultimately have "receiveMessage abi net sock k pub = Some (Inr (StopRequested, pub), k')"
    using assms(1) by (simp add: receiveMessage_def)
  then show ?thesis by (subst listen_loop.simps) simp
qed

end
