(* ===== verification/RamKernel.thy ===== *)
theory RamKernel
  imports ControlFiles PlatformDescription "HOL-Library.AList"
begin

text \<open>
  A kernel held in memory: files with their contents, directories, and the control files that
  appear in a directory when it is made. It is not part of the program; the witnesses use it,
  to apply the properties, whose kernel is a parameter, to a concrete one.
\<close>

record ram =
  ram_files :: "(string \<times> string) list"
  ram_dirs :: "string list"

text \<open>The control files of a new directory.\<close>

definition ram_interface :: "(string \<times> string) list" where
  "ram_interface =
     [(''cgroup.procs'', []), (''cgroup.freeze'', ''0''), (''cgroup.subtree_control'', []),
      (''cpuset.cpus'', []), (''cpuset.cpus.effective'', ''0-3''), (''cpuset.mems'', []), (''cpu.max'', ''max 100000''),
      (''pids.max'', ''max''), (''pids.current'', ''2''), (''memory.max'', ''max''), (''memory.min'', ''0''), (''io.max'', [])]"

definition ram_read :: "string \<Rightarrow> ram \<Rightarrow> string option \<times> ram" where
  "ram_read path k = (map_of (ram_files k) path, k)"

definition ram_write :: "string \<Rightarrow> string \<Rightarrow> ram \<Rightarrow> bool \<times> ram" where
  "ram_write path txt k =
     (if map_of (ram_files k) path = None then (False, k)
      else (True, k\<lparr>ram_files := AList.update path (txt @ [NEWLINE]) (ram_files k)\<rparr>))"

definition ram_stat :: "string \<Rightarrow> ram \<Rightarrow> file_kind option \<times> ram" where
  "ram_stat path k =
     (if map_of (ram_files k) path \<noteq> None then Some Regular
      else if path \<in> set (ram_dirs k) then Some Directory else None, k)"

definition ram_mkdir :: "string \<Rightarrow> ram \<Rightarrow> bool \<times> ram" where
  "ram_mkdir path k =
     (True, \<lparr> ram_files = map (\<lambda>(f, c). (path @ CHR ''/'' # f, c)) ram_interface @ ram_files k,
              ram_dirs = path # ram_dirs k \<rparr>)"

definition ram_rmdir :: "string \<Rightarrow> ram \<Rightarrow> bool \<times> ram" where
  "ram_rmdir path k =
     (if path \<in> set (ram_dirs k)
      then (True, \<lparr> ram_files = filter (\<lambda>(f, c). take (Suc (length path)) f \<noteq> path @ ''/'') (ram_files k),
                    ram_dirs = filter (\<lambda>d. d \<noteq> path) (ram_dirs k) \<rparr>)
      else (False, k))"

definition ram_os :: "ram platform" where
  "ram_os =
     \<lparr> os_read = ram_read, os_write = ram_write, os_stat = ram_stat, os_lstat = ram_stat,
       os_mkdir = ram_mkdir, os_rmdir = ram_rmdir, os_list = (\<lambda>path k. (None, k)),
       os_inode = (\<lambda>path k. (Some 7, k)), cgroup_base = ''/cg'',
       changeContainerCgroup = False, changeKubernetesCgroup = False \<rparr>"

text \<open>The hierarchy with Konro's directory and that of process 42.\<close>

definition ram_app :: app where
  "ram_app = makeApp 42 STANDALONE ''demo'' 0 0 HIGH"

definition ram_start :: ram where
  "ram_start =
     snd (ram_mkdir ''/cg/konro.slice/app-42.scope''
       (snd (ram_mkdir ''/cg/konro.slice'' (snd (ram_mkdir ''/cg'' \<lparr> ram_files = [], ram_dirs = [] \<rparr>)))))"

text \<open>Two packages of one core each, two units on each core.\<close>

definition ram_topology :: hw_obj where
  "ram_topology =
     HwObj Machine 0 0
       [HwObj Package 0 0 [HwObj Core 0 0 [HwObj PU 0 0 [], HwObj PU 1 1 []]],
        HwObj Package 1 1 [HwObj Core 1 1 [HwObj PU 2 2 [], HwObj PU 3 3 []]]]"

lemma ram_file_shows: "file_shows ram_os path text text"
  by (auto simp: file_shows_def ram_os_def ram_write_def ram_stat_def ram_read_def update_conv split: if_splits)

text \<open>
  The same kernel with control files that show what they keep as Linux documents it: a list of
  units in its canonical form, all four limits of a device in \<open>io.max\<close>, and a memory limit in
  whole pages of 4096 bytes.
\<close>

definition io_max_line :: "string \<Rightarrow> tags \<Rightarrow> string" where
  "io_max_line dev kvs =
     dev @ concat (map (\<lambda>k. CHR '' '' # k @ CHR ''='' # (case map_of kvs k of None \<Rightarrow> ''max'' | Some v \<Rightarrow> nv_show v))
       [''rbps'', ''wbps'', ''riops'', ''wiops''])"

definition linux_shows :: "string \<Rightarrow> string \<Rightarrow> string" where
  "linux_shows path txt =
     (let file = rev (takeWhile (\<lambda>c. c \<noteq> CHR ''/'') (rev path)) in
      if file = ''cpuset.cpus'' then
        (case parseCpuSet txt of
           Inl _ \<Rightarrow> txt
         | Inr v \<Rightarrow> (case toCpusetVector_set (toSet v) of Inl _ \<Rightarrow> txt | Inr w \<Rightarrow> cpulist w))
      else if file = ''io.max'' then
        (let dev = takeWhile (\<lambda>c. c \<noteq> CHR '' '') txt in
         case parseLineNv (drop (Suc (length dev)) txt) of Inl _ \<Rightarrow> txt | Inr kvs \<Rightarrow> io_max_line dev kvs)
      else if file = ''memory.max'' \<or> file = ''memory.min'' then
        (if list_all isdigit txt then show_u64 (fst (strtoull txt) div 4096 * 4096) else txt)
      else txt)"

definition ram_cgroup :: "ram platform" where
  "ram_cgroup = ram_os\<lparr>os_write := (\<lambda>path txt. ram_write path (linux_shows path txt))\<rparr>"

lemma ram_cgroup_shows: "linux_shows path text = shown \<Longrightarrow> file_shows ram_cgroup path text shown"
  by (auto simp: file_shows_def ram_cgroup_def ram_os_def ram_write_def ram_stat_def ram_read_def update_conv split: if_splits)

lemma linux_shows_cpus:
  assumes "unit_ranges v" and "canonical w" and "pus_of w = pus_of v"
  shows "linux_shows (make_path dir ''cpuset.cpus'') (cpulist v) = cpulist w"
proof -
  have r: "pu_range v" "shorts v" using assms(1) by (fastforce simp: unit_ranges_def pu_range_def shorts_def)+
  obtain w' where w': "toCpusetVector_set (toSet v) = Inr w'" "canonical w'" "toSet w' = toSet v" "pu_range w'"
    using toCpusetVector_set_ok [OF is_pu_set_toSet [OF r(1)]] by metis
  have "toSet w = toSet v" using toSet_props assms(3) by (metis strict_sorted_unique)
  moreover have "pu_range w"
  proof -
    have "fst p \<in> pus_of w \<and> snd p \<in> pus_of w" if "p \<in> set w" for p
      using that canonical_member [OF assms(2) that] by (auto simp: pus_of_def intro!: bexI [of _ p])
    moreover have "0 \<le> x \<and> x < 2 ^ 15" if "x \<in> pus_of v" for x
      using that r(1) by (fastforce simp: pus_of_def pu_range_def)
    ultimately show ?thesis unfolding pu_range_def assms(3) by blast
  qed
  ultimately have "w' = w" using toCpusetVector_toSet [OF assms(2)] w'(1) by auto
  moreover have "parseCpuSet (cpulist v) = Inr v" using parseCpuSet_render [OF r(2)] by (simp add: cpulist_def render_cpus_join)
  ultimately show ?thesis using w'(1) by (simp add: linux_shows_def make_path_def Let_def)
qed

lemma ram_cgroup_units: "shows_units ram_cgroup (make_path dir ''cpuset.cpus'') existing"
  unfolding shows_units_def by (intro allI impI ram_cgroup_shows linux_shows_cpus) auto

text \<open>The texts of concrete numbers, for the evaluation of file contents.\<close>

lemma digit_chars:
  "digit_char 0 = CHR ''0''"
  "digit_char (Suc 0) = CHR ''1''"
  "digit_char 2 = CHR ''2''"
  "digit_char 3 = CHR ''3''"
  "digit_char 4 = CHR ''4''"
  "digit_char 5 = CHR ''5''"
  "digit_char 6 = CHR ''6''"
  "digit_char 7 = CHR ''7''"
  "digit_char 8 = CHR ''8''"
  "digit_char 9 = CHR ''9''"
  by code_simp+

lemmas show_number = show_nat.simps [of "numeral n" for n] show_nat.simps [of 0] show_nat.simps [of "Suc 0"] digit_chars

end
