(* ===== verification/ServiceProperties.thy ===== *)
theory ServiceProperties
  imports KonroManager KonroLib PolicyTimer ProcListener RamKernel
begin

text \<open>
  The properties of the parts around the two managers: the library and the HTTP interface, the
  listener on process events, the sampling of the load, the timer, and the object that puts
  all of them together; each with its application to a concrete input where it has hypotheses.
\<close>

section \<open>Messages of applications\<close>

text \<open>
  C25: A feedback of an integrated application arrives: the request that the library sends is
  answered, and the resource manager publishes exactly one event, with the process id, the
  namespace and the value the library was given.
\<close>

theorem feedback_message_arrives:
  assumes "prints_back lib (feedback_message pid ns fb)" and "is_int32 pid" and "is_int32 fb"
  shows "\<exists>reply. http_request os lib POST (fst (sendFeedbackMessage lib pid ns fb)) (snd (sendFeedbackMessage lib pid ns fb)) (k, evs)
    = (Inr (Some reply), (k, evs @ [FeedbackRequestEvent pid (unat ns) fb]))"
  using feedback_arrives [OF assms, of k evs]
  by (simp add: sendFeedbackMessage_def http_request_def handleFeedbackPost_def answer_def act_defs)

text \<open>A JSON library of two documents.\<close>

definition two_documents :: "unit json \<Rightarrow> unit json \<Rightarrow> unit json_lib" where
  "two_documents a b =
     \<lparr> json_parse = (\<lambda>s. if s = ''a'' then Some (reread a) else if s = ''b'' then Some (reread b) else None),
       json_dump = (\<lambda>j. if j = a then ''a'' else ''b''),
       double_to_int = (\<lambda>_. Inl (Undefined ''no doubles'')), double_to_u64 = (\<lambda>_. Inl (Undefined ''no doubles'')) \<rparr>"

lemma two_documents_print: "prints_back (two_documents a b) a" "prints_back (two_documents a b) b"
  by (simp_all add: prints_back_def two_documents_def)

theorem feedback_message_arrives_witness:
  "\<exists>reply. http_request ram_os (two_documents (feedback_message 42 7 110) JNull) POST ''/feedback'' ''a'' (ram_start, [])
    = (Inr (Some reply), (ram_start, [FeedbackRequestEvent 42 7 110]))"
  using feedback_message_arrives [OF two_documents_print(1) [of "feedback_message 42 7 110" JNull], of ram_os ram_start "[]"]
  by (simp add: is_int32_def sendFeedbackMessage_def two_documents_def)

text \<open>
  C26: A registration of an integrated application arrives: once its process id has been mapped
  to Konro's namespace, the request publishes exactly one event, for an application with the
  name, the namespace and the security level the library was given, and the type that the
  mapping shows.
\<close>

theorem add_message_arrives:
  assumes "prints_back lib (add_message pid ns name level)" and "is_int32 pid"
    and "integrated_kind os pid (unat ns) k = (Inr (ty, p), k')"
  shows "\<exists>reply. http_request os lib POST (fst (sendAddMessage lib pid ns name level)) (snd (sendAddMessage lib pid ns name level)) (k, evs)
    = (Inr (Some reply), (k', evs @ [AddRequestEvent (makeApp p ty name pid (unat ns) (level_of_int level))]))"
  using assms(3)
  by (simp add: sendAddMessage_def http_request_def handleAddPost_def answer_def add_arrives [OF assms(1,2)]
      http_publish_def act_defs)

theorem add_message_arrives_witness:
  "\<exists>reply. http_request ram_os (two_documents (add_message 42 7 ''demo'' 3) JNull) POST ''/add'' ''a'' (ram_start, [])
    = (Inr (Some reply), (ram_start, [AddRequestEvent (makeApp 42 INTEGRATED ''demo'' 42 7 HIGH)]))"
proof -
  have "integrated_kind ram_os 42 (unat (7 :: 64 word)) ram_start = (Inr (INTEGRATED, 42), ram_start)"
    by (simp add: integrated_kind_def mapPid_def getSelfPidNamespace_def ram_os_def act_defs)
  from add_message_arrives [OF two_documents_print(1) [of "add_message 42 7 ''demo'' 3" JNull] _ this, of "[]"]
  show ?thesis
    by (simp add: is_int32_def sendAddMessage_def two_documents_def level_of_int_def del: level_name.simps)
qed

text \<open>
  Whatever a client sends, and however the handling ends, a request publishes at most one
  event, and only one of the kind its route is for.
\<close>

theorem request_publishes_one:
  "snd (snd (http_request os lib m path body (k, evs))) = evs \<or>
   (\<exists>ev. is_request path ev \<and> snd (snd (http_request os lib m path body (k, evs))) = evs @ [ev])"
  using request_publishes [of path os lib m body] by (auto simp: adds_at_most_one_def)

text \<open>
  The feedback value of a positive target is the percentage that the current value is of
  it, rounded down and cut off at 200.
\<close>

theorem feedback_value:
  assumes "0 \<le> c" and "c \<le> 21474836" and "0 < t"
  shows "computeFeedback c t = Inr (min (c * 100 div t) 200)"
  using assms by (rule computeFeedback_pos)

theorem feedback_value_witness: "computeFeedback 55 50 = Inr 110"
  using feedback_value [of 55 50] by simp

section \<open>Process events\<close>

text \<open>
  C28: The listener forwards: when the kernel delivers datagrams of one message each and then
  the stop message comes, \<open>run\<close> returns, has published the event of every fork, exec and exit
  among them, in their order and nothing else, and has deregistered.
\<close>

theorem listener_forwards:
  assumes "nl_socket net k = (Some sock, k1)" "nl_bind net sock tid k1 = (True, k2)"
    "nl_send net sock (kernelMessage tid LISTEN) k2 = (True, k3)"
    and "delivers net sock k3 ds k4" "\<forall>d\<in>set ds. 0 < fst d \<and> one_message abi (snd d) (fst d)"
    and "nl_recv net sock k4 = ((nBytes, buf), k5)" "nlmsg_ok abi buf 0 nBytes" "0 < nl_hdrlen abi"
    "nl_type abi buf = NLMSG_STOP_MESSAGE_TYPE"
  shows "listener_run abi net tid k
    = Some (Inr (Ended (concat (map (datagram_events abi) ds))), snd (nl_send net sock (kernelMessage tid IGNORE) k5))"
  using assms(1-3) listen_delivered [OF assms(4,5), of "[]"] listen_stop [OF assms(6-9)]
  by (simp add: listener_run_def)

text \<open>A layout of single bytes and a kernel that holds the datagrams it will deliver.\<close>

definition byte_abi :: netlink_abi where
  "byte_abi =
     \<lparr> nl_hdrlen = 1, cn_hdrlen = 1, nl_len = (\<lambda>_. 2),
       nl_type = (\<lambda>b. if take 1 b = [255] then NLMSG_STOP_MESSAGE_TYPE else if take 1 b = [1] then NLMSG_NOOP else NLMSG_DONE),
       pe_what = (\<lambda>b. if take 1 b = [1] then PROC_EVENT_FORK else PROC_EVENT_EXIT) \<rparr>"

definition list_net :: "(8 word list list) netlink" where
  "list_net =
     \<lparr> nl_socket = (\<lambda>k. (Some 3, k)), nl_bind = (\<lambda>s tid k. (True, k)), nl_send = (\<lambda>s m k. (True, k)),
       nl_recv = (\<lambda>s k. ((2, hd k), tl k)), nl_close = (\<lambda>s k. k) \<rparr>"

theorem listener_forwards_witness:
  "listener_run byte_abi list_net 1 [[3, 0, 1, 42], [3, 0, 2, 42], [255, 0, 0, 0]]
    = Some (Inr (Ended [ForkEvent [1, 42], ExitEvent [2, 42]]), [])"
proof -
  have "delivers list_net 3 [[3, 0, 1, 42], [3, 0, 2, 42], [255, 0, 0, 0]]
      [(2, [3, 0, 1, 42]), (2, [3, 0, 2, 42])] [[255, 0, 0, 0]]"
    by (rule delivers_Cons [rotated], rule delivers_Cons [rotated], rule delivers_Nil) (simp_all add: list_net_def)
  from listener_forwards [of list_net _ 3 _ 1 _ _ _ _ byte_abi 2 "[255, 0, 0, 0]" "[]", OF _ _ _ this]
  show ?thesis
    by (simp add: list_net_def byte_abi_def one_message_def nlmsg_ok_def at_offset_def datagram_events_def
        event_of_def netlink_numbers)
qed

text \<open>
  C29: The walk over a datagram ends when none of its messages is of type \<open>NLMSG_NOOP\<close>, whatever
  lengths they claim and whichever way it ends.
\<close>

theorem walk_ends:
  assumes "0 < nl_hdrlen abi" and "\<And>o'. nl_type abi (at_offset buf o') \<noteq> NLMSG_NOOP"
  shows "\<exists>r. recv_loop abi buf off nBytes pub = Some r"
  using assms by (rule recv_loop_ends)

theorem walk_ends_witness: "\<exists>r. recv_loop (byte_abi\<lparr>nl_type := \<lambda>_. NLMSG_DONE\<rparr>) [3, 0, 1, 42] 0 4 [] = Some r"
  by (rule walk_ends) (simp_all add: byte_abi_def netlink_numbers)

text \<open>
  C30: A \<open>NLMSG_NOOP\<close> message hangs the listener: the walk that comes to it never returns,
  because \<open>continue\<close> goes back without moving on.
\<close>

theorem noop_hangs:
  assumes "nlmsg_ok abi buf off nBytes" and "nl_type abi (at_offset buf off) = NLMSG_NOOP"
  shows "recv_loop abi buf off nBytes pub = None"
  using assms by (rule recv_loop_noop)

theorem noop_hangs_witness: "recv_loop byte_abi [1, 0, 0, 0] 0 4 [] = None"
  by (rule noop_hangs) (simp_all add: nlmsg_ok_def byte_abi_def at_offset_def netlink_numbers)

section \<open>Load figures\<close>

text \<open>
  C31: A reading of \<open>/proc/stat\<close> that finds a line for every unit, with time passed since the
  last one and no more idle time than that, gives one figure for the machine and one for each
  unit, all of them percentages, and keeps the snapshot complete.
\<close>

theorem load_figures:
  assumes "os_read os ''/proc/stat'' k = (Some txt, k')" and "readable 0 snap (all_lines txt)"
    and "length snap = Suc N" and "getNumProcessingUnits topology = int N"
  shows "\<exists>snap' load. handleCpuTimes os topology \<lparr>load_cpus = [], load_pus = []\<rparr> (k, snap) = (Inr load, (k', snap')) \<and>
    length snap' = Suc N \<and> figures_ok (Suc N) load"
  using assms by (rule handleCpuTimes_figures)

definition one_unit :: hw_obj where
  "one_unit = HwObj Machine 0 0 [HwObj PU 0 0 []]"

definition stat_kernel :: ram where
  "stat_kernel =
     \<lparr> ram_files = [(''/proc/stat'', ''cpu 1 0 1 2 0 0 0 0 0 0'' @ [NEWLINE] @ ''cpu0 1 0 1 2 0 0 0 0 0 0'')], ram_dirs = [] \<rparr>"

definition idle_snapshot :: "cpu_time list" where
  "idle_snapshot = [makeCPUTimeData ''cpu'' (replicate 10 0), makeCPUTimeData ''cpu0'' (replicate 10 0)]"

theorem load_figures_witness:
  "\<exists>snap' load. handleCpuTimes ram_os one_unit \<lparr>load_cpus = [], load_pus = []\<rparr> (stat_kernel, idle_snapshot)
      = (Inr load, (stat_kernel, snap')) \<and> length snap' = 2 \<and> figures_ok 2 load"
proof -
  let ?txt = "''cpu 1 0 1 2 0 0 0 0 0 0'' @ [NEWLINE] @ ''cpu0 1 0 1 2 0 0 0 0 0 0''"
  have lines: "all_lines ?txt = [''cpu 1 0 1 2 0 0 0 0 0 0'', ''cpu0 1 0 1 2 0 0 0 0 0 0'']" by code_simp
  have data: "stat_line ''cpu 1 0 1 2 0 0 0 0 0 0'' = Some (makeCPUTimeData ''cpu'' [1, 0, 1, 2, 0, 0, 0, 0, 0, 0])"
    "stat_line ''cpu0 1 0 1 2 0 0 0 0 0 0'' = Some (makeCPUTimeData ''cpu0'' [1, 0, 1, 2, 0, 0, 0, 0, 0, 0])"
    by code_simp+
  have adv: "advanced (makeCPUTimeData ''cpu'' (replicate 10 0)) (makeCPUTimeData ''cpu'' [1, 0, 1, 2, 0, 0, 0, 0, 0, 0])"
    "advanced (makeCPUTimeData ''cpu0'' (replicate 10 0)) (makeCPUTimeData ''cpu0'' [1, 0, 1, 2, 0, 0, 0, 0, 0, 0])"
    by code_simp+
  have "readable 0 idle_snapshot (all_lines ?txt)"
    unfolding readable_def lines idle_snapshot_def using data adv by (auto simp: less_Suc_eq numeral_2_eq_2)
  moreover have "os_read ram_os ''/proc/stat'' stat_kernel = (Some ?txt, stat_kernel)"
    by (simp add: ram_os_def ram_read_def stat_kernel_def)
  moreover have "getNumProcessingUnits one_unit = int 1" by code_simp
  ultimately show ?thesis
    using load_figures [of ram_os stat_kernel ?txt stat_kernel idle_snapshot 1 one_unit]
    by (simp add: idle_snapshot_def numeral_2_eq_2)
qed

section \<open>Periods\<close>

text \<open>
  The timer of a positive period is never early: at every point of every run of its
  thread, with \<open>stop\<close> called at any time, the thread has slept at least a full period for each
  event it has published.
\<close>

theorem timer_rate:
  assumes "ticker_runs seconds new_ticker s" and "0 < seconds"
  shows "seconds * tk_published s \<le> tk_slept s"
  using paid_rate [OF paid_run [OF assms paid_new] assms(2)] .

theorem timer_rate_witness: "30 * tk_published (new_ticker\<lparr>tk_stop := True\<rparr>) \<le> tk_slept (new_ticker\<lparr>tk_stop := True\<rparr>)"
  by (rule timer_rate [OF r_into_rtranclp [of "ticker_step 30", OF tick_stop]]) simp

section \<open>The composition\<close>

text \<open>
  Every event that a component publishes reaches the components it is meant for, whatever
  the configuration: requests and process events the workload manager, everything else the
  policy manager, and arrivals and departures after it the security monitor, when there is
  one.
\<close>

theorem events_wired:
  "fst (bus_publish (event_name ev) (kp_bus (construct c))) = receivers (cfgSecurityPeriod c > 0) ev"
  by (rule wired)

text \<open>
  \<open>run\<close> leaves no thread behind: every thread that the configuration asks for is started,
  stopped and joined, once each and in this order, and no other thread is touched; the listener
  runs in the main thread, once.
\<close>

theorem threads_joined:
  "filter (\<lambda>a. acts_on a = t) (run_actions c) =
     (if has_thread c t then [StartThread t, StopThread t, JoinThread t]
      else if t = ProcListenerThread then [RunHere t] else [])"
  by (rule thread_life)

text \<open>
  The security monitor counts objects, not processes: after any sequence of calls, the
  number of objects it watches for a process id is one for each arrival, less one for each
  departure while there are any. A process that was announced twice is still watched after it
  has been removed.
\<close>

theorem monitor_watches:
  assumes "monitor_run expf pf calls s = (Inr u, s')"
  shows "watched p (snd s') = foldl (tally p) (watched p (snd s)) calls"
  using assms by (rule watched_run)

theorem monitor_watches_witness:
  "watched 42 (snd (snd (monitor_run (\<lambda>x. x) (undefined :: ram mon_platform)
     [MonitorAdd ram_app, MonitorAdd ram_app, MonitorRemove ram_app] (ram_start, new_security_monitor 10)))) = 1"
proof -
  let ?calls = "[MonitorAdd ram_app, MonitorAdd ram_app, MonitorRemove ram_app]"
  let ?r = "monitor_run (\<lambda>x. x) (undefined :: ram mon_platform) ?calls (ram_start, new_security_monitor 10)"
  have "?r = (Inr (), snd ?r)" by (simp add: monitor_run_def act_defs)
  from monitor_watches [OF this, of 42] show ?thesis
    by (simp add: watched_def new_security_monitor_def ram_app_def makeApp_def)
qed

end
