(* ===== verification/KonroSystem.thy ===== *)
theory KonroSystem
  imports KonroManager EndToEnd "HOL-Library.Sublist"
begin

text \<open>
  The running program: the components that \<open>KonroManager::run\<close> builds, each with the queue of its
  thread, over one kernel. A step of the system is the handling of one event by the thread of a
  manager, one scan of the security monitor, an event from outside (a request, a process event,
  the timer, a reading of the load), or a change of the kernel by somebody else; steps of
  different threads interleave freely. An exception that leaves a handler ends the process.

  The invariants hold in every reachable state, over every policy that honours the contract and
  every platform control that keeps its promises: the locale \<open>konro_threads\<close> joins the two
  interfaces.
\<close>

section \<open>State\<close>

record ('k, 'p) konro_system =
  sys_kernel :: 'k
  sys_bus :: "konro_part bus"
  sys_wm :: workload_manager
  sys_wmQueue :: "event list"
  sys_pm :: "'p policy_manager"
  sys_pmQueue :: "event list"
  sys_sm :: "security_monitor option"
  sys_dead :: bool

text \<open>
  What a receiver does when it is called with an event: the managers queue it, the security
  monitor handles it in the thread that publishes.
\<close>

fun sm_receive :: "event \<Rightarrow> security_monitor \<Rightarrow> security_monitor" where
  "sm_receive (AddEvent a) sm = sm_processAddEvent a sm"
| "sm_receive (RemoveEvent a) sm = sm_processRemoveEvent a sm"
| "sm_receive _ sm = sm"

fun sys_receive :: "event \<Rightarrow> konro_part \<Rightarrow> ('k, 'p) konro_system \<Rightarrow> ('k, 'p) konro_system" where
  "sys_receive ev PolicyManagerThread s = s\<lparr>sys_pmQueue := queue_push ev (sys_pmQueue s)\<rparr>"
| "sys_receive ev WorkloadManagerThread s = s\<lparr>sys_wmQueue := queue_push ev (sys_wmQueue s)\<rparr>"
| "sys_receive ev SecurityMonitorThread s = s\<lparr>sys_sm := map_option (sm_receive ev) (sys_sm s)\<rparr>"
| "sys_receive ev _ s = s"

definition sys_publish :: "event \<Rightarrow> ('k, 'p) konro_system \<Rightarrow> ('k, 'p) konro_system" where
  "sys_publish ev s =
     (case bus_publish (event_name ev) (sys_bus s) of
        (rs, bus') \<Rightarrow> fold (sys_receive ev) rs (s\<lparr>sys_bus := bus'\<rparr>))"

definition sys_publish_all :: "event list \<Rightarrow> ('k, 'p) konro_system \<Rightarrow> ('k, 'p) konro_system" where
  "sys_publish_all evs s = fold sys_publish evs s"

text \<open>The events that come from outside the managers.\<close>

fun from_outside :: "event \<Rightarrow> bool" where
  "from_outside (AddRequestEvent a) = True"
| "from_outside (FeedbackRequestEvent p ns f) = True"
| "from_outside (ClearEvent p) = True"
| "from_outside TimerEvent = True"
| "from_outside (MonitorEvent ts pw l) = True"
| "from_outside (ForkEvent d) = True"
| "from_outside (ExecEvent d) = True"
| "from_outside (ExitEvent d) = True"
| "from_outside _ = False"

section \<open>Steps\<close>

text \<open>
  The environment of the components: the system calls, the layout of process events, the
  exponential, and the policy. What a handler publishes is delivered when it is done; what it
  had published when an exception left it has been delivered all the same.
\<close>

record ('k, 'p) konro_world =
  world_platform :: "'k mon_platform"
  world_control :: "'k platform_ops"
  world_abi :: proc_abi
  world_exp :: "flt \<Rightarrow> flt"
  world_policy :: "('k, 'p) policy"

inductive sys_step :: "('k, 'p) konro_world \<Rightarrow> ('k, 'p) konro_system \<Rightarrow> ('k, 'p) konro_system \<Rightarrow> bool"
  for e :: "('k, 'p) konro_world" where
  step_kernel: "\<not> sys_dead s \<Longrightarrow> sys_step e s (s\<lparr>sys_kernel := k\<rparr>)"
| step_outside: "\<not> sys_dead s \<Longrightarrow> from_outside ev \<Longrightarrow> sys_step e s (sys_publish ev s)"
| step_workload: "\<not> sys_dead s \<Longrightarrow> queue_tryPop (sys_wmQueue s) = (Some ev, q) \<Longrightarrow>
    wm_processEvent (world_platform e) (world_control e) (world_abi e) ev (sys_kernel s, sys_wm s) = (r, (k, w)) \<Longrightarrow>
    sys_step e s
      (sys_publish_all (drop (length (wm_published (sys_wm s))) (wm_published w))
        (s\<lparr>sys_kernel := k, sys_wm := w, sys_wmQueue := q, sys_dead := isl r\<rparr>))"
| step_policy: "\<not> sys_dead s \<Longrightarrow> queue_tryPop (sys_pmQueue s) = (Some ev, q) \<Longrightarrow>
    pm_processEvent (world_policy e) ev (sys_kernel s, sys_pm s) = (r, (k, pm)) \<Longrightarrow>
    sys_step e s (s\<lparr>sys_kernel := k, sys_pm := pm, sys_pmQueue := q, sys_dead := isl r\<rparr>)"
| step_scan: "\<not> sys_dead s \<Longrightarrow> sys_sm s = Some sm \<Longrightarrow>
    scan_all (world_exp e) (world_platform e) (sys_kernel s, sm) = (r, (k, sm')) \<Longrightarrow>
    sys_step e s
      (sys_publish_all (drop (length (sm_published sm)) (sm_published sm'))
        (s\<lparr>sys_kernel := k, sys_sm := Some sm', sys_dead := isl r\<rparr>))"

inductive_cases sys_stepE: "sys_step e s t"

abbreviation sys_runs :: "('k, 'p) konro_world \<Rightarrow> ('k, 'p) konro_system \<Rightarrow> ('k, 'p) konro_system \<Rightarrow> bool" where
  "sys_runs e \<equiv> (sys_step e)\<^sup>*\<^sup>*"

subsection \<open>An executable scheduler\<close>

text \<open>
  A step of the system, with the choice of what comes next made an argument; \<open>None\<close> when it is
  not possible. The scheduler reaches exactly the states the step relation does.
\<close>

datatype 'k turn = KernelTurn 'k | OutsideTurn event | WorkloadTurn | PolicyTurn | ScanTurn

fun sys_do :: "('k, 'p) konro_world \<Rightarrow> 'k turn \<Rightarrow> ('k, 'p) konro_system \<Rightarrow> ('k, 'p) konro_system option" where
  "sys_do e (KernelTurn k) s = (if sys_dead s then None else Some (s\<lparr>sys_kernel := k\<rparr>))"
| "sys_do e (OutsideTurn ev) s = (if sys_dead s \<or> \<not> from_outside ev then None else Some (sys_publish ev s))"
| "sys_do e WorkloadTurn s =
     (case queue_tryPop (sys_wmQueue s) of
        (None, _) \<Rightarrow> None
      | (Some ev, q) \<Rightarrow>
          if sys_dead s then None
          else (case wm_processEvent (world_platform e) (world_control e) (world_abi e) ev (sys_kernel s, sys_wm s) of
            (r, (k, w)) \<Rightarrow>
              Some (sys_publish_all (drop (length (wm_published (sys_wm s))) (wm_published w))
                (s\<lparr>sys_kernel := k, sys_wm := w, sys_wmQueue := q, sys_dead := isl r\<rparr>))))"
| "sys_do e PolicyTurn s =
     (case queue_tryPop (sys_pmQueue s) of
        (None, _) \<Rightarrow> None
      | (Some ev, q) \<Rightarrow>
          if sys_dead s then None
          else (case pm_processEvent (world_policy e) ev (sys_kernel s, sys_pm s) of
            (r, (k, pm)) \<Rightarrow> Some (s\<lparr>sys_kernel := k, sys_pm := pm, sys_pmQueue := q, sys_dead := isl r\<rparr>)))"
| "sys_do e ScanTurn s =
     (case sys_sm s of
        None \<Rightarrow> None
      | Some sm \<Rightarrow>
          if sys_dead s then None
          else (case scan_all (world_exp e) (world_platform e) (sys_kernel s, sm) of
            (r, (k, sm')) \<Rightarrow>
              Some (sys_publish_all (drop (length (sm_published sm)) (sm_published sm'))
                (s\<lparr>sys_kernel := k, sys_sm := Some sm', sys_dead := isl r\<rparr>))))"

fun sys_schedule :: "('k, 'p) konro_world \<Rightarrow> 'k turn list \<Rightarrow> ('k, 'p) konro_system \<Rightarrow> ('k, 'p) konro_system option" where
  "sys_schedule e [] s = Some s"
| "sys_schedule e (t # ts) s = (case sys_do e t s of None \<Rightarrow> None | Some s' \<Rightarrow> sys_schedule e ts s')"

text \<open>
  What a schedule makes the policy manager handle, event by event, and what it lets come from
  outside.
\<close>

fun turn_handles :: "'k turn \<Rightarrow> ('k, 'p) konro_system \<Rightarrow> event list" where
  "turn_handles PolicyTurn s = take 1 (sys_pmQueue s)"
| "turn_handles _ s = []"

fun handled_events :: "('k, 'p) konro_world \<Rightarrow> 'k turn list \<Rightarrow> ('k, 'p) konro_system \<Rightarrow> event list" where
  "handled_events e [] s = []"
| "handled_events e (t # ts) s =
     turn_handles t s @ (case sys_do e t s of None \<Rightarrow> [] | Some s' \<Rightarrow> handled_events e ts s')"

fun turn_asks :: "'k turn \<Rightarrow> event list" where
  "turn_asks (OutsideTurn ev) = [ev]"
| "turn_asks _ = []"

definition outside_events :: "'k turn list \<Rightarrow> event list" where
  "outside_events ts = concat (map turn_asks ts)"

lemma sys_do_sound: "sys_do e c s = Some t \<Longrightarrow> sys_step e s t"
  by (cases c) (auto split: if_splits prod.splits option.splits intro: sys_step.intros)

lemma sys_do_step: "sys_step e s t \<longleftrightarrow> (\<exists>c. sys_do e c s = Some t)"
proof
  assume "sys_step e s t"
  then show "\<exists>c. sys_do e c s = Some t"
  proof cases
    case (step_kernel k)
    then show ?thesis by (intro exI [of _ "KernelTurn k"]) simp
  next
    case (step_outside ev)
    then show ?thesis by (intro exI [of _ "OutsideTurn ev"]) simp
  next
    case step_workload
    then show ?thesis by (intro exI [of _ WorkloadTurn]) simp
  next
    case step_policy
    then show ?thesis by (intro exI [of _ PolicyTurn]) simp
  next
    case step_scan
    then show ?thesis by (intro exI [of _ ScanTurn]) simp
  qed
next
  show "\<exists>c. sys_do e c s = Some t \<Longrightarrow> sys_step e s t" by (blast dest: sys_do_sound)
qed

lemma schedule_runs: "sys_runs e s t \<longleftrightarrow> (\<exists>cs. sys_schedule e cs s = Some t)"
proof
  assume "sys_runs e s t"
  then show "\<exists>cs. sys_schedule e cs s = Some t"
  proof (induction rule: converse_rtranclp_induct)
    case base
    show ?case by (rule exI [of _ "[]"]) simp
  next
    case (step u v)
    then obtain c cs where "sys_do e c u = Some v" "sys_schedule e cs v = Some t" unfolding sys_do_step by blast
    then show ?case by (intro exI [of _ "c # cs"]) simp
  qed
next
  assume "\<exists>cs. sys_schedule e cs s = Some t"
  then obtain cs where "sys_schedule e cs s = Some t" ..
  then show "sys_runs e s t"
    by (induction cs arbitrary: s)
      (auto split: option.splits intro: converse_rtranclp_into_rtranclp dest: sys_do_sound)
qed

text \<open>The state in which the threads start, from a configuration; \<open>p\<close> is the state of the policy made.\<close>

definition sys_start :: "('k, 'p) policy \<Rightarrow> konro_config \<Rightarrow> 'p \<Rightarrow> 'k \<Rightarrow> ('k, 'p) konro_system" where
  "sys_start pol c p k =
     (let parts = construct c in
      \<lparr> sys_kernel = k, sys_bus = kp_bus parts, sys_wm = kp_workload parts, sys_wmQueue = [],
        sys_pm = setPolicyThresholds pol (kp_thresholds parts) (new_policy_manager p), sys_pmQueue = [],
        sys_sm = kp_security parts, sys_dead = False \<rparr>)"

section \<open>What the handlers publish\<close>

text \<open>An action that appends events of some kind to what a component has published.\<close>

definition appends :: "('s \<Rightarrow> event list) \<Rightarrow> (event \<Rightarrow> bool) \<Rightarrow> ('k \<times> 's, 'a) act \<Rightarrow> bool" where
  "appends pub P m \<longleftrightarrow> (\<forall>old. keeps (\<lambda>s. \<exists>new. pub (snd s) = old @ new \<and> list_all P new) m)"

named_theorems appends_intros \<open>an action appends to what has been published\<close>

lemma appendsD:
  assumes "appends pub P m" and "m (k, s) = (r, (k', s'))"
  shows "pub s' = pub s @ drop (length (pub s)) (pub s') \<and> list_all P (drop (length (pub s)) (pub s'))"
proof -
  have "keeps (\<lambda>t. \<exists>new. pub (snd t) = pub s @ new \<and> list_all P new) m" using assms(1) by (simp add: appends_def)
  from keepsD [OF this, of "(k, s)"] assms(2) show ?thesis by auto
qed

lemma appends_basic [appends_intros]: "appends pub P (ret x)" "appends pub P (throw er)" "appends pub P (gets f)"
  "appends pub P (on_fst m')"
  by (auto simp: appends_def keeps_def act_defs on_fst_def split: prod.splits)

lemma appends_bnd [appends_intros]: "appends pub P m \<Longrightarrow> (\<And>x. appends pub P (f x)) \<Longrightarrow> appends pub P (bnd m f)"
  unfolding appends_def by (intro allI keeps_bnd) auto

lemma appends_if [appends_intros]: "appends pub P m \<Longrightarrow> appends pub P n \<Longrightarrow> appends pub P (if b then m else n)"
  by simp

lemma appends_option [appends_intros]:
  "appends pub P m \<Longrightarrow> (\<And>x. appends pub P (f x)) \<Longrightarrow> appends pub P (case r of None \<Rightarrow> m | Some x \<Rightarrow> f x)"
  by (cases r) simp_all

lemma appends_prod [appends_intros]: "(\<And>x y. appends pub P (g x y)) \<Longrightarrow> appends pub P (case p of (x, y) \<Rightarrow> g x y)"
  by (cases p) simp

lemma appends_try [appends_intros]: "appends pub P m \<Longrightarrow> (\<And>er. appends pub P (h er)) \<Longrightarrow> appends pub P (try_catch c m h)"
  unfolding appends_def by (intro allI keeps_try_catch) auto

lemma appends_for_each [appends_intros]: "(\<And>x. appends pub P (f x)) \<Longrightarrow> appends pub P (for_each xs f)"
  unfolding appends_def by (intro allI keeps_for_each) auto

fun told_event :: "event \<Rightarrow> bool" where
  "told_event (AddEvent a) = True"
| "told_event (RemoveEvent a) = True"
| "told_event (FeedbackEvent a f) = True"
| "told_event _ = False"

lemma appends_wm [appends_intros]:
  "appends wm_published told_event (wm_get f)"
  "told_event ev \<Longrightarrow> appends wm_published told_event (publish ev)"
  "(\<And>w. wm_published (g w) = wm_published w) \<Longrightarrow> appends wm_published told_event (wm_upd g)"
  by (auto simp: appends_def keeps_def act_defs publish_def)

lemma workload_appends: "appends wm_published told_event (wm_processEvent os pc abi ev)"
proof -
  have "appends wm_published told_event (wm_handle os pc abi ev)"
    by (cases ev)
      (auto simp: processForkEvent_def processExecEvent_def processExitEvent_def processAddRequestEvent_def
        processFeedbackRequestEvent_def wm_add_def wm_remove_def Let_def intro!: appends_intros split: option.split)
  then show ?thesis unfolding wm_processEvent_def by (intro appends_intros)
qed

fun scan_event :: "event \<Rightarrow> bool" where
  "scan_event (SecurityEvent a sai f labels) = unit_flt sai"
| "scan_event _ = False"

lemma scan_appends: "appends sm_published scan_event (scan_all expf pf)"
  unfolding scan_all_def scanApp_def
  by (intro appends_intros)
    (auto simp: appends_def keeps_def sm_upd_def act_defs put_baseline_def report_def computeSai_unit Let_def split: prod.splits)

section \<open>Routing\<close>

text \<open>
  The bus sends every event where the constructors have subscribed, and publishing keeps that.
  So a publication is an update of the queues and of the security monitor.
\<close>

definition routed :: "('k, 'p) konro_system \<Rightarrow> bool" where
  "routed s \<longleftrightarrow> (\<forall>ev. fst (bus_publish (event_name ev) (sys_bus s)) = receivers (sys_sm s \<noteq> None) ev)"

definition for_policy :: "event \<Rightarrow> bool" where
  "for_policy ev \<longleftrightarrow> PolicyManagerThread \<in> set (receivers False ev)"

definition delivered :: "event list \<Rightarrow> ('k, 'p) konro_system \<Rightarrow> ('k, 'p) konro_system \<Rightarrow> bool" where
  "delivered evs s t \<longleftrightarrow>
     sys_kernel t = sys_kernel s \<and> sys_wm t = sys_wm s \<and> sys_pm t = sys_pm s \<and> sys_dead t = sys_dead s \<and>
     sys_pmQueue t = sys_pmQueue s @ filter for_policy evs \<and>
     sys_wmQueue t = sys_wmQueue s @ filter (\<lambda>ev. \<not> for_policy ev) evs \<and>
     sys_sm t = map_option (fold sm_receive evs) (sys_sm s) \<and> routed t"

lemma publish_delivers:
  assumes "routed s"
  shows "delivered [ev] s (sys_publish ev s)"
proof -
  obtain rs bus' where p: "bus_publish (event_name ev) (sys_bus s) = (rs, bus')" by (metis prod.collapse)
  then have rs: "rs = receivers (sys_sm s \<noteq> None) ev" using assms by (metis fst_conv routed_def)
  have "fst (bus_publish ty bus') = fst (bus_publish ty (sys_bus s))" for ty
    using publish_keeps [of ty "event_name ev" "sys_bus s"] p
    by (auto simp: bus_publish_def split: option.split)
  then have "fst (bus_publish (event_name ev') bus') = receivers (sys_sm s \<noteq> None) ev'" for ev'
    using assms by (simp add: routed_def)
  moreover have "sys_publish ev s = fold (sys_receive ev) rs (s\<lparr>sys_bus := bus'\<rparr>)" by (simp add: sys_publish_def p)
  ultimately show ?thesis
    by (cases ev; cases "sys_sm s") (simp_all add: rs delivered_def routed_def for_policy_def queue_push_def)
qed

lemma publish_all_delivers: "routed s \<Longrightarrow> delivered evs s (sys_publish_all evs s)"
proof (induction evs arbitrary: s)
  case Nil
  then show ?case by (simp add: sys_publish_all_def delivered_def option.map_id)
next
  case (Cons ev evs)
  note one = publish_delivers [OF Cons.prems, of ev]
  then have "delivered evs (sys_publish ev s) (sys_publish_all evs (sys_publish ev s))"
    by (intro Cons.IH) (simp add: delivered_def)
  with one show ?case by (simp add: delivered_def sys_publish_all_def option.map_comp comp_def)
qed

section \<open>The security monitor follows what is published\<close>

definition monitor_follows :: "int set \<Rightarrow> security_monitor \<Rightarrow> bool" where
  "monitor_follows P sm \<longleftrightarrow> sane sm \<and> baselines_ok sm \<and> (\<forall>p. p \<in> P \<longrightarrow> 1 \<le> watched p sm)"

lemma follows_receive: "monitor_follows P sm \<Longrightarrow> monitor_follows (told ev P) (sm_receive ev sm)"
  by (cases ev)
    (auto simp: monitor_follows_def sane_add_remove baselines_add baselines_remove watched_add watched_remove)

lemma follows_fold: "monitor_follows P sm \<Longrightarrow> monitor_follows (fold told evs P) (fold sm_receive evs sm)"
  by (induction evs arbitrary: P sm) (simp_all add: follows_receive)

lemma follows_scan:
  assumes "monitor_follows P sm" and "scan_all expf pf (k, sm) = (r, (k', sm'))"
  shows "monitor_follows P sm'"
proof -
  have "watched p sm' = watched p sm" for p
    using keepsD [OF watched_scan [of p "watched p sm" expf pf], of "(k, sm)"] assms(2) by simp
  then show ?thesis
    using assms keepsD [OF sane_scan, of "(k, sm)" expf pf] keepsD [OF baselines_scan, of "(k, sm)" expf pf]
    by (simp add: monitor_follows_def)
qed

lemma sane_setSaiConfig: "sane (setSaiConfig w a sm) = sane sm" "baselines_ok (setSaiConfig w a sm) = baselines_ok sm"
  by (simp_all add: setSaiConfig_def sane_def baselines_ok_def)

lemma scan_events_quiet: "list_all scan_event evs \<Longrightarrow> fold told evs P = P \<and> fold sm_receive evs sm = sm \<and> filter for_policy evs = evs"
proof (induction evs)
  case (Cons ev evs)
  then show ?case by (cases ev) (simp_all add: for_policy_def)
qed simp

lemma told_events_policy: "list_all told_event evs \<Longrightarrow> filter for_policy evs = evs"
proof (induction evs)
  case (Cons ev evs)
  then show ?case by (cases ev) (simp_all add: for_policy_def)
qed simp

lemma plain_events: "scan_event ev \<Longrightarrow> sane_event ev" "told_event ev \<Longrightarrow> sane_event ev"
  by (cases ev; simp)+

lemma outside_told: "from_outside ev \<Longrightarrow> told ev P = P"
  by (cases ev) simp_all

lemma told_spec: "told = spec_pids"
  by (intro ext) (metis told.simps spec_pids.simps event.exhaust)

lemma wm_told: "wm_inv w \<Longrightarrow> fold told (wm_published w) {} = wm_pids w"
  by (simp add: wm_inv_def)

section \<open>The invariant\<close>

text \<open>
  The workload manager is ahead of the policy manager by the events still queued: once they are
  handled the two hold the same processes. The security monitor is told while the event is
  published, so it watches every process of the workload manager at all times. What is queued
  for a manager is of the kinds it has subscribed to, and an index that is queued is in the
  unit interval.
\<close>

definition sys_inv :: "('p \<Rightarrow> bool) \<Rightarrow> ('k, 'p) konro_system \<Rightarrow> bool" where
  "sys_inv I s \<longleftrightarrow>
     routed s \<and> wm_inv (sys_wm s) \<and> pm_inv I (sys_pm s) \<and>
     list_all (\<lambda>ev. for_policy ev \<and> sane_event ev) (sys_pmQueue s) \<and>
     list_all (\<lambda>ev. \<not> for_policy ev) (sys_wmQueue s) \<and>
     (\<not> sys_dead s \<longrightarrow> fold spec_pids (sys_pmQueue s) (pm_pids (sys_pm s)) = wm_pids (sys_wm s)) \<and>
     pred_option (monitor_follows (wm_pids (sys_wm s))) (sys_sm s)"

locale konro_threads =
  managed_policy "world_policy e" inv + platform_control "world_control e"
  for e :: "('k, 'p) konro_world" and inv :: "'p \<Rightarrow> bool"
begin

lemma wm_process_inv:
  assumes "wm_processEvent os (world_control e) abi ev (k, w) = (r, (k', w'))" and "wm_inv w"
  shows "wm_inv w'"
proof -
  have "keeps (\<lambda>s. wm_inv (snd s)) (wm_processEvent os (world_control e) abi ev)"
    unfolding wm_processEvent_def by (intro keeps_intros wm_handle_inv)
  from keepsD [OF this, of "(k, w)"] assms show ?thesis by simp
qed

lemma outside_step: "sys_inv inv s \<Longrightarrow> from_outside ev \<Longrightarrow> sys_inv inv (sys_publish ev s)"
  using publish_delivers [of s ev] outside_told [of ev]
  by (cases ev)
    (auto simp: sys_inv_def delivered_def  for_policy_def option.pred_map comp_def
      intro!: option.pred_mono_strong [of "monitor_follows (wm_pids (sys_wm s))" "sys_sm s"])

lemma workload_step:
  assumes inv: "sys_inv inv s" and "\<not> sys_dead s" and pop: "queue_tryPop (sys_wmQueue s) = (Some ev, q)"
    and run: "wm_processEvent os (world_control e) abi ev (sys_kernel s, sys_wm s) = (r, (k, w))"
  shows "sys_inv inv (sys_publish_all (drop (length (wm_published (sys_wm s))) (wm_published w))
        (s\<lparr>sys_kernel := k, sys_wm := w, sys_wmQueue := q, sys_dead := d\<rparr>))"
proof -
  define new where "new = drop (length (wm_published (sys_wm s))) (wm_published w)"
  let ?t = "s\<lparr>sys_kernel := k, sys_wm := w, sys_wmQueue := q, sys_dead := d\<rparr>"
  have new: "wm_published w = wm_published (sys_wm s) @ new" "list_all told_event new"
    using appendsD [OF workload_appends run] by (simp_all add: new_def)
  have w: "wm_inv w" using wm_process_inv [OF run] inv by (simp add: sys_inv_def)
  have ahead: "fold told new (wm_pids (sys_wm s)) = wm_pids w"
    using wm_told [OF w] wm_told [of "sys_wm s"] inv new(1) by (simp add: sys_inv_def)
  have q: "sys_wmQueue s = ev # q" using pop by (simp add: queue_tryPop_def split: list.splits)
  have d: "delivered new ?t (sys_publish_all new ?t)"
    using inv by (intro publish_all_delivers) (simp add: sys_inv_def routed_def)
  have k: "list_all (\<lambda>ev. for_policy ev \<and> sane_event ev) new" "filter (\<lambda>ev. \<not> for_policy ev) new = []"
    using new(2) told_events_policy [OF new(2)]
    by (auto simp: list_all_iff filter_empty_conv filter_id_conv plain_events)
  have "pred_option (monitor_follows (wm_pids w)) (map_option (fold sm_receive new) (sys_sm s))"
    using inv follows_fold [of "wm_pids (sys_wm s)" _ new] ahead by (cases "sys_sm s") (simp_all add: sys_inv_def)
  then show ?thesis
    using d inv w k ahead q told_events_policy [OF new(2)] assms(2)
    unfolding new_def [symmetric]
    by (cases "sys_publish_all new ?t") (simp add: sys_inv_def delivered_def told_spec)
qed

lemma policy_step:
  assumes inv: "sys_inv inv s" and pop: "queue_tryPop (sys_pmQueue s) = (Some ev, q)" and "\<not> sys_dead s"
    and run: "pm_processEvent (world_policy e) ev (sys_kernel s, sys_pm s) = (r, (k, pm))"
  shows "sys_inv inv (s\<lparr>sys_kernel := k, sys_pm := pm, sys_pmQueue := q, sys_dead := isl r\<rparr>)"
proof -
  obtain r' where h: "pm_handle (world_policy e) ev (sys_kernel s, sys_pm s) = (r', (k, pm))" "isl r' = isl r"
    using run by (auto simp: pm_processEvent_def act_defs split: prod.splits sum.splits)
  have q: "sys_pmQueue s = ev # q" using pop by (simp add: queue_tryPop_def split: list.splits)
  show ?thesis
    using inv pm_okD [OF handle_ok _ h(1)] h(2) assms(3) q by (simp add: sys_inv_def routed_def)
qed

lemma scan_step:
  assumes inv: "sys_inv inv s" and sm: "sys_sm s = Some sm" and "\<not> sys_dead s"
    and run: "scan_all expf pf (sys_kernel s, sm) = (r, (k, sm'))"
  shows "sys_inv inv (sys_publish_all (drop (length (sm_published sm)) (sm_published sm'))
        (s\<lparr>sys_kernel := k, sys_sm := Some sm', sys_dead := d\<rparr>))"
proof -
  define new where "new = drop (length (sm_published sm)) (sm_published sm')"
  let ?t = "s\<lparr>sys_kernel := k, sys_sm := Some sm', sys_dead := d\<rparr>"
  have new: "list_all scan_event new" using appendsD [OF scan_appends run] by (simp add: new_def)
  note quiet = scan_events_quiet [OF new]
  have d: "delivered new ?t (sys_publish_all new ?t)"
    using inv sm by (intro publish_all_delivers) (simp add: sys_inv_def routed_def)
  have f: "monitor_follows (wm_pids (sys_wm s)) sm'" using inv sm follows_scan [OF _ run] by (simp add: sys_inv_def)
  have k: "list_all (\<lambda>ev. for_policy ev \<and> sane_event ev) new" "filter (\<lambda>ev. \<not> for_policy ev) new = []"
    using new quiet [THEN conjunct2, THEN conjunct2]
    by (auto simp: list_all_iff filter_empty_conv filter_id_conv plain_events)
  show ?thesis
    using d inv k f quiet assms(3) unfolding new_def [symmetric]
    by (cases "sys_publish_all new ?t") (simp add: sys_inv_def delivered_def told_spec)
qed

lemma step_inv:
  assumes "sys_step e s t" and "sys_inv inv s"
  shows "sys_inv inv t"
  using assms(1)
proof cases
  case (step_kernel k)
  with assms(2) show ?thesis by (simp add: sys_inv_def routed_def)
qed (use assms(2) in \<open>auto intro: outside_step workload_step policy_step scan_step\<close>)

lemma runs_inv: "sys_runs e s t \<Longrightarrow> sys_inv inv s \<Longrightarrow> sys_inv inv t"
  by (induction rule: rtranclp_induct) (auto dest: step_inv)

lemma start_inv:
  assumes "inv p"
  shows "sys_inv inv (sys_start (world_policy e) c p k)"
  using wired [of _ c] new_monitor_ok [of "cfgSecurityPeriod c"] assms wm_inv_new setThresholds_ok
  by (auto simp: sane_setSaiConfig sys_inv_def sys_start_def routed_def construct_def setPolicyThresholds_def Let_def pm_inv_def
      new_policy_manager_def pm_pids_def wm_pids_def new_workload_manager_def monitor_follows_def)

end

end
