(* ===== verification/SystemProperties.thy ===== *)
theory SystemProperties
  imports KonroSystem RamKernel
begin

text \<open>
  The properties of the running program, over all the interleavings of its threads: the
  interface \<open>konro_threads\<close> is interpreted on the control groups and every policy that can be
  configured, and the last section runs the first steps of a program on the kernel in memory.
\<close>

section \<open>The threads over the model's own components\<close>

definition threads_world ::
  "('k, 'p) policy \<Rightarrow> 'k mon_platform \<Rightarrow> proc_abi \<Rightarrow> (flt \<Rightarrow> flt) \<Rightarrow> ('k, 'p) konro_world" where
  "threads_world pol pf abi expf =
     \<lparr> world_platform = pf, world_control = cgroup_ops pf, world_abi = abi, world_exp = expf, world_policy = pol \<rparr>"

lemma world_simps [simp]:
  "world_policy (threads_world pol pf abi expf) = pol" "world_control (threads_world pol pf abi expf) = cgroup_ops pf"
  "world_platform (threads_world pol pf abi expf) = pf" "world_exp (threads_world pol pf abi expf) = expf"
  "world_abi (threads_world pol pf abi expf) = abi"
  by (simp_all add: threads_world_def)

interpretation no_threads: konro_threads "threads_world NoPolicy pf abi expf" "\<lambda>_. True"
  unfolding konro_threads_def world_simps
  by (intro conjI no_manager.managed_policy_axioms cgroup_pc.platform_control_axioms)

interpretation rand_threads: konro_threads "threads_world (RandPolicy pf topology) pf abi expf" "\<lambda>_. True"
  unfolding konro_threads_def world_simps
  by (intro conjI rand_manager.managed_policy_axioms cgroup_pc.platform_control_axioms)

interpretation pp_threads: konro_threads "threads_world (PuProgressivePolicy pf topology) pf abi expf" "one_counter_each topology"
  unfolding konro_threads_def world_simps
  by (intro conjI pp_manager.managed_policy_axioms cgroup_pc.platform_control_axioms)

interpretation mc_threads: konro_threads "threads_world (MinCoresPolicy pf topology) pf abi expf" "one_counter_each topology"
  unfolding konro_threads_def world_simps
  by (intro conjI mc_manager.managed_policy_axioms cgroup_pc.platform_control_axioms)

interpretation sa_threads: konro_threads "threads_world (SecurityAwarePolicy pf topology) pf abi expf" "sa_inv topology"
  unfolding konro_threads_def world_simps
  by (intro conjI sa_manager.managed_policy_axioms cgroup_pc.platform_control_axioms)

abbreviation secure_start :: "'k mon_platform \<Rightarrow> hw_obj \<Rightarrow> konro_config \<Rightarrow> 'k \<Rightarrow> ('k, sa_state) konro_system" where
  "secure_start pf topology c k \<equiv> sys_start (SecurityAwarePolicy pf topology) c (new_sa_state topology) k"

lemma secure_inv:
  assumes "sys_runs (threads_world (SecurityAwarePolicy pf topology) pf abi expf) (secure_start pf topology c k) s"
  shows "sys_inv (sa_inv topology) s"
  using sa_threads.runs_inv [OF assms sa_threads.start_inv [OF sa_inv_new, of topology pf abi expf c k, simplified]] .

section \<open>The first steps of a program\<close>

definition ram_linked :: "ram mon_platform" where
  "ram_linked = platform.extend ram_os \<lparr> os_readlink = (\<lambda>path k. (None, k)) \<rparr>"

definition no_abi :: proc_abi where
  "no_abi = \<lparr> fork_parent_pid = (\<lambda>d. 0), fork_child_pid = (\<lambda>d. 0), exec_process_pid = (\<lambda>d. 0), exit_process_pid = (\<lambda>d. 0) \<rparr>"

definition demo_world :: "(ram, sa_state) konro_world" where
  "demo_world = threads_world (SecurityAwarePolicy ram_linked ram_topology) ram_linked no_abi (\<lambda>_. f32 1 1)"

text \<open>
  The program with a threshold that quarantines at the first alert and the defaults otherwise,
  to which the process 42 has been announced, and which has taken note of it.
\<close>

definition strict_config :: konro_config where
  "strict_config = (read_configuration Map.empty)\<lparr>cfgT3 := f32 (- 1) 1\<rparr>"

lemma strict_parts:
  "kp_security (construct strict_config) = Some (new_security_monitor 10)"
  "kp_thresholds (construct strict_config) = default_thresholds\<lparr>t3 := f32 (- 1) 1\<rparr>"
  using default_parts(1,2)
  by (simp_all add: construct_def strict_config_def default_thresholds_def config_weights_def config_thresholds_def
      split: if_splits)

definition demo_start :: "(ram, sa_state) konro_system" where
  "demo_start = secure_start ram_linked ram_topology strict_config ram_start"

definition demo_asked :: "(ram, sa_state) konro_system" where
  "demo_asked = sys_publish (AddRequestEvent ram_app) demo_start"

definition demo_handle :: "(cpp_error + bool) \<times> ram \<times> workload_manager" where
  "demo_handle = wm_processEvent ram_linked (cgroup_ops ram_linked) no_abi (AddRequestEvent ram_app) (ram_start, new_workload_manager True True)"

definition demo_noted :: "(ram, sa_state) konro_system" where
  "demo_noted =
     sys_publish_all (wm_published (snd (snd demo_handle)))
       (demo_asked\<lparr>sys_kernel := fst (snd demo_handle), sys_wm := snd (snd demo_handle), sys_wmQueue := [],
         sys_dead := isl (fst demo_handle)\<rparr>)"

lemma demo_start_inv: "sys_inv (sa_inv ram_topology) demo_start"
  unfolding demo_start_def by (rule secure_inv) (rule rtranclp.rtrancl_refl)

lemma demo_start_facts:
  "routed demo_start" "sys_kernel demo_start = ram_start" "sys_wm demo_start = new_workload_manager True True"
  "sys_wmQueue demo_start = []" "sys_pmQueue demo_start = []" "\<not> sys_dead demo_start"
  "sys_sm demo_start = Some (new_security_monitor 10)" "pm_pids (sys_pm demo_start) = {}"
  using demo_start_inv
  by (simp_all add: sys_inv_def demo_start_def sys_start_def Let_def strict_parts setPolicyThresholds_def new_policy_manager_def pm_pids_def)
    (simp add: construct_def strict_config_def read_configuration_def)

lemma demo_asked_facts:
  "delivered [AddRequestEvent ram_app] demo_start demo_asked"
  unfolding demo_asked_def by (rule publish_delivers) (rule demo_start_facts)

definition demo_app :: app where
  "demo_app = setCgroupDir ''/cg/konro.slice/app-42.scope'' ram_app"

lemma demo_handled:
  "fst demo_handle = Inr True" "wm_apps (snd (snd demo_handle)) = [demo_app]" "wm_published (snd (snd demo_handle)) = [AddEvent demo_app]"
  by code_simp+

lemma demo_noted_facts:
  "\<not> sys_dead demo_noted" "sys_wm demo_noted = snd (snd demo_handle)" "sys_pmQueue demo_noted = [AddEvent demo_app]"
  "sys_pm demo_noted = sys_pm demo_start" "sys_sm demo_noted = Some (sm_processAddEvent demo_app (new_security_monitor 10))"
proof -
  let ?s = "demo_asked\<lparr>sys_kernel := fst (snd demo_handle), sys_wm := snd (snd demo_handle), sys_wmQueue := [], sys_dead := isl (fst demo_handle)\<rparr>"
  have "routed ?s" using demo_asked_facts by (simp add: delivered_def routed_def)
  from publish_all_delivers [OF this, of "wm_published (snd (snd demo_handle))"]
  have d: "delivered [AddEvent demo_app] ?s demo_noted" by (simp add: demo_noted_def demo_handled)
  with demo_asked_facts demo_start_facts
  show "\<not> sys_dead demo_noted" "sys_wm demo_noted = snd (snd demo_handle)" "sys_pmQueue demo_noted = [AddEvent demo_app]"
    "sys_pm demo_noted = sys_pm demo_start" "sys_sm demo_noted = Some (sm_processAddEvent demo_app (new_security_monitor 10))"
    by (simp_all add: delivered_def demo_handled for_policy_def)
qed

lemma demo_run: "sys_runs demo_world demo_start demo_noted"
proof -
  have "sys_step demo_world demo_start demo_asked"
    unfolding demo_asked_def by (rule step_outside) (simp_all add: demo_start_facts)
  moreover have "sys_step demo_world demo_asked demo_noted"
  proof -
    have f: "\<not> sys_dead demo_asked" "queue_tryPop (sys_wmQueue demo_asked) = (Some (AddRequestEvent ram_app), [])"
      "sys_kernel demo_asked = ram_start" "sys_wm demo_asked = new_workload_manager True True"
      using demo_asked_facts demo_start_facts by (simp_all add: delivered_def queue_tryPop_def for_policy_def)
    have "wm_processEvent (world_platform demo_world) (world_control demo_world) (world_abi demo_world) (AddRequestEvent ram_app)
        (sys_kernel demo_asked, sys_wm demo_asked) = (fst demo_handle, (fst (snd demo_handle), snd (snd demo_handle)))"
      by (simp add: f demo_world_def demo_handle_def)
    from step_workload [OF f(1,2) this] show ?thesis
      by (simp add: demo_noted_def f(4) new_workload_manager_def)
  qed
  ultimately show ?thesis by (meson rtranclp.rtrancl_into_rtrancl rtranclp.rtrancl_refl)
qed

section \<open>The managers stay in step\<close>

text \<open>
  C5: In every reachable state of the running program, however its threads interleave and
  whatever the kernel does, the policy manager is behind the workload manager by exactly the
  events still queued for it: handling them would leave it with the processes the workload
  manager holds. Only an exception that has ended the process breaks this.
\<close>

theorem managers_in_step:
  assumes "sys_runs (threads_world (SecurityAwarePolicy pf topology) pf abi expf) (secure_start pf topology c k) s"
    and "\<not> sys_dead s"
  shows "fold spec_pids (sys_pmQueue s) (pm_pids (sys_pm s)) = wm_pids (sys_wm s)"
  using secure_inv [OF assms(1)] assms(2) by (simp add: sys_inv_def)

theorem managers_in_step_witness:
  "fold spec_pids (sys_pmQueue demo_noted) (pm_pids (sys_pm demo_noted)) = wm_pids (sys_wm demo_noted) \<and>
   wm_pids (sys_wm demo_noted) = {42} \<and> pm_pids (sys_pm demo_noted) = {}"
  using managers_in_step [OF demo_run [unfolded demo_world_def demo_start_def] demo_noted_facts(1)]
  by (simp add: demo_noted_facts demo_start_facts wm_pids_def demo_handled demo_app_def setCgroupDir_def ram_app_def makeApp_def)

text \<open>
  C7: In every reachable state the security monitor, where one is configured, watches every
  process the workload manager holds, every baseline belongs to an object it watches, and
  whatever index it has published lies in the unit interval.
\<close>

theorem monitor_in_step:
  assumes "sys_runs (threads_world (SecurityAwarePolicy pf topology) pf abi expf) (secure_start pf topology c k) s"
    and "sys_sm s = Some sm"
  shows "wm_pids (sys_wm s) \<subseteq> getPid ` set (sm_apps sm) \<and> fst ` set (sm_baselines sm) \<subseteq> getPid ` set (sm_apps sm) \<and>
    (\<forall>ev\<in>set (sm_published sm). sane_event ev)"
proof -
  have f: "monitor_follows (wm_pids (sys_wm s)) sm" using secure_inv [OF assms(1)] assms(2) by (simp add: sys_inv_def)
  have "p \<in> getPid ` set (sm_apps sm)" if "1 \<le> watched p sm" for p
  proof -
    from that have "filter (\<lambda>a. getPid a = p) (sm_apps sm) \<noteq> []" by (auto simp: watched_def)
    then show ?thesis by (auto simp: filter_empty_conv)
  qed
  with f show ?thesis by (auto simp: monitor_follows_def baselines_ok_def sane_def)
qed

theorem monitor_in_step_witness:
  "wm_pids (sys_wm demo_noted) \<subseteq> getPid ` set (sm_apps (sm_processAddEvent demo_app (new_security_monitor 10)))"
  using monitor_in_step [OF demo_run [unfolded demo_world_def demo_start_def] demo_noted_facts(5)] by blast

section \<open>How quarantine ends\<close>

lemma step_quarantined:
  assumes "sys_step (threads_world (SecurityAwarePolicy pf topology) pf abi expf) s t"
    and "sys_inv (sa_inv topology) s" and "holds_quarantined pid (sys_pm s)"
  shows "holds_quarantined pid (sys_pm t) \<or> (\<exists>ev. sys_pmQueue s = ev # sys_pmQueue t \<and> ends_quarantine pid ev)"
  using assms(1)
proof cases
  case (step_kernel k)
  with assms(3) show ?thesis by simp
next
  case (step_outside ev)
  with publish_delivers [of s ev] assms(2,3) show ?thesis by (simp add: sys_inv_def delivered_def)
next
  case (step_workload ev q r k w)
  with publish_all_delivers [of "s\<lparr>sys_kernel := k, sys_wm := w, sys_wmQueue := q, sys_dead := isl r\<rparr>"] assms(2,3)
  show ?thesis by (simp add: sys_inv_def delivered_def routed_def)
next
  case (step_policy ev q r k pm)
  have q: "sys_pmQueue s = ev # q" using step_policy by (simp add: queue_tryPop_def split: list.splits)
  have h: "snd (pm_handle (SecurityAwarePolicy pf topology) ev (sys_kernel s, sys_pm s)) = (k, pm)"
    using step_policy by (auto simp: pm_processEvent_def act_defs split: prod.splits sum.splits)
  have "pm_inv (sa_inv topology) (sys_pm s)" using assms(2) by (simp add: sys_inv_def)
  with handle_quarantined [OF this assms(3), of ev pf "sys_kernel s"] h q step_policy show ?thesis by auto
next
  case (step_scan sm r k sm')
  with publish_all_delivers [of "s\<lparr>sys_kernel := k, sys_sm := Some sm', sys_dead := isl r\<rparr>"] assms(2,3)
  show ?thesis by (simp add: sys_inv_def delivered_def routed_def)
qed

text \<open>
  C6: However the threads interleave, an application that is quarantined in one state of a run
  and not in a later one has been cleared or removed in between: the run has passed through a
  step in which the policy manager took a clear or a removal of that process from its queue.
  The run may start in any state that has the invariant, as every reachable state does.
\<close>

theorem quarantine_ends_by_event:
  assumes "sys_inv (sa_inv topology) s" and "holds_quarantined pid (sys_pm s)"
    and "sys_runs (threads_world (SecurityAwarePolicy pf topology) pf abi expf) s t"
    and "\<not> holds_quarantined pid (sys_pm t)"
  shows "\<exists>u v ev. sys_runs (threads_world (SecurityAwarePolicy pf topology) pf abi expf) s u \<and>
    sys_step (threads_world (SecurityAwarePolicy pf topology) pf abi expf) u v \<and>
    sys_runs (threads_world (SecurityAwarePolicy pf topology) pf abi expf) v t \<and>
    sys_pmQueue u = ev # sys_pmQueue v \<and> ends_quarantine pid ev"
  using assms(3,4)
proof (induction rule: rtranclp_induct)
  case base
  with assms(2) show ?case by simp
next
  case (step u t)
  show ?case
  proof (cases "holds_quarantined pid (sys_pm u)")
    case True
    from step_quarantined [OF step(2) sa_threads.runs_inv [OF step(1) assms(1)] True] step show ?thesis by blast
  next
    case False
    with step.IH step.hyps(2) show ?thesis by (meson rtranclp.rtrancl_into_rtrancl)
  qed
qed

definition demo_held :: "(ram, sa_state) konro_system" where
  "demo_held = demo_noted\<lparr>sys_pmQueue := [ClearEvent 42], sys_kernel := ram_start,
     sys_pm := \<lparr> pm_apps = [(new_app_mapping demo_app)\<lparr>secState := \<lparr>st_state = QUARANTINE, belowCount = 0\<rparr>, quarantine := True\<rparr>],
       pm_policy = new_sa_state ram_topology \<rparr>\<rparr>"

lemma demo_held_facts:
  "sys_inv (sa_inv ram_topology) demo_held" "holds_quarantined 42 (sys_pm demo_held)"
proof -
  have p: "getPid demo_app = 42" by (simp add: demo_app_def setCgroupDir_def ram_app_def makeApp_def)
  have "sys_inv (sa_inv ram_topology) demo_noted"
    by (rule secure_inv [OF demo_run [unfolded demo_world_def demo_start_def]])
  then show "sys_inv (sa_inv ram_topology) demo_held"
    by (simp add: sys_inv_def demo_held_def routed_def pm_inv_def sa_inv_new for_policy_def pm_pids_def am_getPid_def
        new_app_mapping_def p demo_noted_facts wm_pids_def demo_handled)
  show "holds_quarantined 42 (sys_pm demo_held)"
    by (simp add: demo_held_def holds_quarantined_def quarantined_def am_getPid_def new_app_mapping_def p)
qed

lemma demo_cleared: "\<exists>t. sys_step demo_world demo_held t \<and> \<not> holds_quarantined 42 (sys_pm t)"
proof -
  let ?am = "(new_app_mapping demo_app)\<lparr>secState := \<lparr>st_state = QUARANTINE, belowCount = 0\<rparr>, quarantine := True\<rparr>"
  obtain r k pm where run: "pm_processEvent (SecurityAwarePolicy ram_linked ram_topology) (ClearEvent 42) (ram_start, sys_pm demo_held) = (r, (k, pm))"
    by (metis prod.collapse)
  have i: "pm_inv (sa_inv ram_topology) (sys_pm demo_held)" using demo_held_facts by (simp add: sys_inv_def)
  have f: "ks_find am_getPid 42 (pm_apps (sys_pm demo_held)) = Some ?am"
    by (simp add: demo_held_def am_getPid_def new_app_mapping_def demo_app_def setCgroupDir_def ram_app_def makeApp_def)
  have "os_write ram_linked (freeze_path ram_linked demo_app) ''0'' ram_start
      = (True, snd (os_write ram_linked (freeze_path ram_linked demo_app) ''0'' ram_start))"
    "\<not> doNotMoveApp ram_linked demo_app" by code_simp+
  then obtain am' where am': "ks_find am_getPid 42 (pm_apps pm) = Some am'" "reset_mapping am'"
    using manager_resets [OF i f, of ram_linked ram_start] run by (auto simp: new_app_mapping_def)
  have "sys_step demo_world demo_held (demo_held\<lparr>sys_kernel := k, sys_pm := pm, sys_pmQueue := [], sys_dead := isl r\<rparr>)"
    using run by (intro step_policy [where ev = "ClearEvent 42"])
      (simp_all add: demo_held_def demo_noted_facts queue_tryPop_def demo_world_def)
  moreover have "\<not> holds_quarantined 42 pm" using am' by (auto simp: holds_quarantined_def quarantined_def reset_mapping_def)
  ultimately show ?thesis by fastforce
qed

theorem quarantine_ends_by_event_witness:
  "\<exists>u v ev. sys_runs demo_world demo_held u \<and> sys_step demo_world u v \<and> sys_pmQueue u = ev # sys_pmQueue v \<and> ends_quarantine 42 ev"
proof -
  from demo_cleared obtain t where t: "sys_step demo_world demo_held t" "\<not> holds_quarantined 42 (sys_pm t)" by blast
  from t(1) have "sys_runs (threads_world (SecurityAwarePolicy ram_linked ram_topology) ram_linked no_abi (\<lambda>_. f32 1 1)) demo_held t"
    unfolding demo_world_def by (rule r_into_rtranclp)
  from quarantine_ends_by_event [OF demo_held_facts this t(2)] show ?thesis unfolding demo_world_def by blast
qed

end
