(* ===== verification/ContainmentSpec.thy ===== *)
theory ContainmentSpec
  imports SystemProperties
begin

text \<open>
  The abstract specification of containment: what the state of every application is, as a
  function of the events alone. The kernel, the control files, the policy's counters and the
  exceptions that a handler survives do not occur in it. The policy manager over
  \<open>SecurityAwarePolicy\<close> refines it event by event, and the running program refines it over all
  the interleavings of its threads.
\<close>

section \<open>Specification\<close>

text \<open>Of an application the level it was registered with counts, and its tracker.\<close>

type_synonym containment = "int \<Rightarrow> (security_level \<times> state_tracker) option"

fun spec_containment :: "thresholds \<Rightarrow> event \<Rightarrow> containment \<Rightarrow> containment" where
  "spec_containment th (AddEvent a) m =
     (if m (getPid a) = None then m(getPid a \<mapsto> (getAppSecurityLevel a, new_tracker)) else m)"
| "spec_containment th (RemoveEvent a) m = m(getPid a := None)"
| "spec_containment th (SecurityEvent a sai factors labels) m =
     m(getPid a := map_option (\<lambda>(level, tr). (level, step sai th (tolOffset level) tr)) (m (getPid a)))"
| "spec_containment th (ClearEvent pid) m = m(pid := map_option (\<lambda>(level, tr). (level, clear tr)) (m pid))"
| "spec_containment th _ m = m"

section \<open>Abstraction\<close>

definition containment_of :: "app_mapping \<Rightarrow> security_level \<times> state_tracker" where
  "containment_of am = (securityLevel am, secState am)"

definition containments :: "'p policy_manager \<Rightarrow> containment" where
  "containments pm = (\<lambda>pid. map_option containment_of (ks_find am_getPid pid (pm_apps pm)))"

lemma containment_fields [simp]:
  "containment_of (am\<lparr>am_sai := x\<rparr>) = containment_of am" "containment_of (am\<lparr>quarantine := q\<rparr>) = containment_of am"
  "containment_of (am\<lparr>puVec := v\<rparr>) = containment_of am" "containment_of (am\<lparr>cpuMax := n\<rparr>) = containment_of am"
  "containment_of (am\<lparr>lastFeedback := i\<rparr>) = containment_of am" "containment_of (am\<lparr>baselinePids := i\<rparr>) = containment_of am"
  "containment_of (new_app_mapping a) = (getAppSecurityLevel a, new_tracker)"
  by (simp_all add: containment_of_def new_app_mapping_def)

section \<open>What a call of the policy leaves alone\<close>

text \<open>The tracker of the application it is about, and the thresholds.\<close>

definition contained_as :: "security_level \<times> state_tracker \<Rightarrow> thresholds \<Rightarrow> ('k \<times> app_mapping) \<times> sa_state \<Rightarrow> bool" where
  "contained_as c th s \<longleftrightarrow> containment_of (snd (fst s)) = c \<and> sa_thresholds (snd s) = th"

named_theorems contained_intros \<open>an action leaves the tracker and the thresholds alone\<close>

lemma contained_object [contained_intros]:
  "keeps (\<lambda>s. containment_of (snd s) = c) m \<Longrightarrow> keeps (contained_as c th) (on_fst m)"
  by (auto simp: keeps_def contained_as_def on_fst_def split: prod.split) (metis fst_conv snd_conv)

lemma contained_get [contained_intros]: "keeps (contained_as c th) (pol_get f)"
  by (auto simp: keeps_def act_defs)

lemma contained_upd [contained_intros]:
  "(\<And>p. sa_thresholds (g p) = sa_thresholds p) \<Longrightarrow> keeps (contained_as c th) (pol_upd g)"
  by (auto simp: keeps_def contained_as_def act_defs)

lemma contained_ctl [contained_intros]:
  "keeps (\<lambda>s. containment_of (snd s) = c) (ctl f)" "keeps (\<lambda>s. containment_of (snd s) = c) (am_get h)"
  "(\<And>am. containment_of (g am) = containment_of am) \<Longrightarrow> keeps (\<lambda>s. containment_of (snd s) = c) (am_upd g)"
  by (auto simp: keeps_def act_defs split: prod.split)

lemma contained_mapping [contained_intros]:
  "keeps (\<lambda>s. containment_of (snd s) = c) (getPuVector pf)" "keeps (\<lambda>s. containment_of (snd s) = c) (setPuVector pf v)"
  "keeps (\<lambda>s. containment_of (snd s) = c) (getCpuMax pf)" "keeps (\<lambda>s. containment_of (snd s) = c) (setCpuMax pf n)"
  "keeps (\<lambda>s. containment_of (snd s) = c) (getCurrentPids pf)" "keeps (\<lambda>s. containment_of (snd s) = c) (setMaxPids pf n)"
  by (auto simp: getPuVector_def setPuVector_def getCpuMax_def setCpuMax_def getCurrentPids_def setMaxPids_def
      intro!: keeps_bnd keeps_if keeps_ret contained_intros)

lemma contained_quota [contained_intros]:
  "keeps (\<lambda>s. containment_of (snd s) = c) (increaseCPUquota pf r)"
  "keeps (\<lambda>s. containment_of (snd s) = c) (decreaseCPUquota pf r)"
  by (auto simp: increaseCPUquota_def decreaseCPUquota_def Let_def
      intro!: keeps_bnd keeps_if keeps_ret keeps_lift_result contained_intros)

lemma contained_applyState: "keeps (contained_as c th) (applyState pf topology st)"
  by (cases st)
    (auto simp: apply_observe_def apply_throttle_def apply_restrict_def apply_quarantine_def Let_def
      intro!: keeps_bnd keeps_if keeps_ret keeps_lift_result contained_intros)

lemma contained_policy:
  "keeps (contained_as c th) (sa_addApp pf apps)" "keeps (contained_as c th) (sa_removeApp pf)"
  "keeps (contained_as c th) (sa_feedback pf fb)"
  by (auto simp: sa_addApp_def sa_removeApp_def sa_feedback_def sa_grow_def sa_assign_def sa_count_up_def Let_def
      intro!: keeps_bnd keeps_if keeps_ret keeps_throw keeps_try_catch keeps_lift_result keeps_prod contained_intros)

text \<open>An alert makes one step of the tracker, and a clear resets it, whatever happens to the control files.\<close>

lemma contained_alert:
  "contained_as (securityLevel am, step sai (sa_thresholds p) (tolOffset (securityLevel am)) (secState am)) (sa_thresholds p)
     (snd (sa_securityAlert pf topology sai factors labels ((k, am), p)))"
proof -
  define tr where "tr = step sai (sa_thresholds p) (tolOffset (securityLevel am)) (secState am)"
  let ?am = "am\<lparr>am_sai := sai, secState := tr\<rparr>"
  let ?c = "contained_as (securityLevel am, tr) (sa_thresholds p)"
  define rest where "rest = (if st_state tr \<noteq> st_state (secState am) then applyState pf topology (st_state tr) else ret ())"
  have "sa_securityAlert pf topology sai factors labels ((k, am), p) = rest ((k, ?am), p)"
    by (simp add: sa_securityAlert_def act_defs rest_def flip: tr_def del: applyState.simps)
  moreover have "keeps ?c rest" unfolding rest_def by (intro keeps_if contained_applyState keeps_ret)
  moreover have "?c ((k, ?am), p)" by (simp add: contained_as_def containment_of_def)
  ultimately show ?thesis using keepsD [of ?c rest "((k, ?am), p)"] by (simp add: tr_def)
qed

lemma contained_clear:
  "contained_as (securityLevel am, clear (secState am)) (sa_thresholds p) (snd (sa_clearApp pf topology ((k, am), p)))"
proof -
  let ?am = "secState_update clear am"
  let ?c = "contained_as (containment_of ?am) (sa_thresholds p)"
  define rest where "rest = bnd (on_fst (ctl (setFreeze pf False))) (\<lambda>_.
     bnd (on_fst (am_upd (\<lambda>am. am\<lparr>quarantine := False, am_sai := Fin 0\<rparr>))) (\<lambda>_. applyState pf topology OBSERVE))"
  have "sa_clearApp pf topology ((k, am), p) = rest ((k, ?am), p)"
    by (simp add: sa_clearApp_def rest_def act_defs del: applyState.simps)
  moreover have "keeps ?c rest"
    unfolding rest_def by (intro keeps_bnd contained_applyState contained_intros) (simp add: containment_of_def)
  ultimately have "?c (snd (sa_clearApp pf topology ((k, am), p)))"
    using keepsD [of ?c rest "((k, ?am), p)"] by (simp add: contained_as_def)
  then show ?thesis by (simp add: containment_of_def)
qed

section \<open>The policy manager, event by event\<close>

lemma sa_calls:
  "pol_addApp (sa_pol pf topology) = sa_addApp pf" "pol_removeApp (sa_pol pf topology) = sa_removeApp pf"
  "pol_timer (sa_pol pf topology) p = p" "pol_monitor (sa_pol pf topology) = sa_monitor"
  "pol_feedback (sa_pol pf topology) = sa_feedback pf" "pol_clearApp (sa_pol pf topology) = sa_clearApp pf topology"
  "pol_securityAlert (sa_pol pf topology) = sa_securityAlert pf topology"
  by (simp_all add: SecurityAwarePolicy_def)

text \<open>A call of the policy on an entry of the set changes that entry of the abstract state.\<close>

lemma run_pol_containments:
  assumes "pol_ok I m" and "I (pm_policy pm)" and am: "ks_find am_getPid pid (pm_apps pm) = Some old" "am_getPid am = pid"
    and "contained_as c (sa_thresholds (pm_policy pm)) (snd (m ((k, am), pm_policy pm)))"
    and run: "run_pol put_entry am m (k, pm) = (r, (k', pm'))"
  shows "containments pm' = (containments pm)(pid \<mapsto> c) \<and> sa_thresholds (pm_policy pm') = sa_thresholds (pm_policy pm)"
proof -
  obtain am' p' where m: "m ((k, am), pm_policy pm) = (r, ((k', am'), p'))"
    and pm': "pm' = pm\<lparr>pm_policy := p', pm_apps := put_entry am' (pm_apps pm)\<rparr>"
    using run by (auto simp: run_pol_def split: prod.splits)
  have "am_getPid am' = pid" using pol_okD [OF assms(1,2) m] am(2) by (simp add: am_getPid_def)
  then have "ks_find am_getPid j (pm_apps pm') = (if j = pid then Some am' else ks_find am_getPid j (pm_apps pm))" for j
    using am(1) ks_find_None [of am_getPid pid "pm_apps pm"] by (auto simp: pm' put_entry_def ks_find_update simp del: ks_find_None)
  moreover have "containment_of am' = c" "sa_thresholds p' = sa_thresholds (pm_policy pm)"
    using assms(5) by (simp_all add: m contained_as_def)
  ultimately show ?thesis by (simp add: containments_def fun_eq_iff) (simp add: pm')
qed

lemma containments_None: "ks_find am_getPid pid (pm_apps pm) = None \<Longrightarrow> containments pm pid = None"
  by (simp add: containments_def)

lemma containments_Some:
  "ks_find am_getPid pid (pm_apps pm) = Some am \<Longrightarrow> containments pm pid = Some (containment_of am) \<and> am_getPid am = pid"
  using ks_find_Some [of am_getPid pid "pm_apps pm" am] by (simp add: containments_def)

lemma add_refines:
  assumes inv: "pm_inv (sa_inv topology) pm" and run: "processAddEvent (sa_pol pf topology) a (k, pm) = (r, (k', pm'))"
  shows "containments pm' = spec_containment (sa_thresholds (pm_policy pm)) (AddEvent a) (containments pm) \<and>
    sa_thresholds (pm_policy pm') = sa_thresholds (pm_policy pm)"
proof -
  define pm1 where "pm1 = pm\<lparr>pm_apps := ks_insert am_getPid (new_app_mapping a) (pm_apps pm)\<rparr>"
  have i: "ks_inv am_getPid (pm_apps pm)" "sa_inv topology (pm_policy pm1)" using inv by (simp_all add: pm_inv_def pm1_def)
  let ?add = "sa_addApp pf (pm_apps pm1)"
  have add: "contained_as (getAppSecurityLevel a, new_tracker) (sa_thresholds (pm_policy pm1)) (snd (?add ((k, new_app_mapping a), pm_policy pm1)))"
    by (rule keepsD [OF contained_policy(1)]) (simp add: contained_as_def)
  have ok: "pol_ok (sa_inv topology) ?add"
    using sa_policy.addApp_ok [of topology pf "pm_apps pm1"] by (simp add: sa_calls)
  have e: "run_pol (if ks_find am_getPid (getPid a) (pm_apps pm) = None then put_entry else put_nowhere) (new_app_mapping a) ?add (k, pm1)
      = (r, (k', pm'))"
    using run by (simp add: processAddEvent_def find_app_def upd_apps_def act_defs pm1_def Let_def sa_calls)
  have th: "sa_thresholds (pm_policy pm1) = sa_thresholds (pm_policy pm)" by (simp add: pm1_def)
  show ?thesis
  proof (cases "ks_find am_getPid (getPid a) (pm_apps pm) = None")
    case True
    then have "ks_find am_getPid (getPid a) (pm_apps pm1) = Some (new_app_mapping a)"
      by (simp add: pm1_def ks_find_insert [OF i(1)])
    from run_pol_containments [OF ok i(2) this _ add, of r k' pm'] e True
    have "containments pm' = (containments pm1)(getPid a \<mapsto> (getAppSecurityLevel a, new_tracker))"
      "sa_thresholds (pm_policy pm') = sa_thresholds (pm_policy pm)" by (simp_all add: th del: ks_find_None)
    moreover have "containments pm1 j = containments pm j" if "j \<noteq> getPid a" for j
      using that by (simp add: containments_def pm1_def ks_find_insert [OF i(1)])
    ultimately show ?thesis using True by (auto simp: containments_None simp del: ks_find_None)
  next
    case False
    have "containments pm1 = containments pm"
      using False by (auto simp: containments_def pm1_def ks_find_insert [OF i(1)] fun_eq_iff)
    moreover have "containments pm' = containments pm1 \<and> sa_thresholds (pm_policy pm') = sa_thresholds (pm_policy pm1)"
      using e False add by (auto simp: run_pol_def put_nowhere_def containments_def contained_as_def split: prod.splits)
    ultimately show ?thesis using False by (auto simp: th containments_def simp del: ks_find_None)
  qed
qed

text \<open>The handlers that look their application up.\<close>

lemma lookup_refines:
  assumes inv: "pm_inv (sa_inv topology) pm"
    and run: "bnd (find_app pid) (\<lambda>it. case it of None \<Rightarrow> ret () | Some am \<Rightarrow> run_pol put_entry (g am) m) (k, pm) = (r, (k', pm'))"
    and "pol_ok (sa_inv topology) m" and "\<And>am. am_getPid (g am) = am_getPid am"
    and "\<And>am. contained_as (f (containment_of am)) (sa_thresholds (pm_policy pm)) (snd (m ((k, g am), pm_policy pm)))"
  shows "containments pm' = (containments pm)(pid := map_option f (containments pm pid)) \<and>
    sa_thresholds (pm_policy pm') = sa_thresholds (pm_policy pm)"
proof (cases "ks_find am_getPid pid (pm_apps pm)")
  case None
  with run show ?thesis by (auto simp: find_app_def act_defs containments_None fun_eq_iff simp del: ks_find_None)
next
  case (Some am)
  then have "run_pol put_entry (g am) m (k, pm) = (r, (k', pm'))" using run by (simp add: find_app_def act_defs)
  with run_pol_containments [OF assms(3) _ Some _ assms(5), of am r k' pm'] inv containments_Some [OF Some] assms(4)
  show ?thesis by (simp add: pm_inv_def)
qed

lemma remove_refines:
  assumes inv: "pm_inv (sa_inv topology) pm" and run: "processRemoveEvent (sa_pol pf topology) a (k, pm) = (Inr x, (k', pm'))"
  shows "containments pm' = (containments pm)(getPid a := None) \<and> sa_thresholds (pm_policy pm') = sa_thresholds (pm_policy pm)"
proof (cases "ks_find am_getPid (getPid a) (pm_apps pm)")
  case None
  with run show ?thesis
    by (auto simp: processRemoveEvent_def find_app_def act_defs containments_None fun_eq_iff simp del: ks_find_None)
next
  case (Some am)
  obtain r k1 pm1 where m: "run_pol put_entry am (sa_removeApp pf) (k, pm) = (r, (k1, pm1))" by (metis prod.collapse)
  have pm': "pm' = pm1\<lparr>pm_apps := ks_erase am_getPid (getPid a) (pm_apps pm1)\<rparr>"
    using run Some m by (cases r) (simp_all add: processRemoveEvent_def find_app_def upd_apps_def act_defs sa_calls)
  have "contained_as (containment_of am) (sa_thresholds (pm_policy pm)) (snd (sa_removeApp pf ((k, am), pm_policy pm)))"
    by (rule keepsD [OF contained_policy(2)]) (simp add: contained_as_def)
  from run_pol_containments [OF pol_ok_sa_removeApp _ Some _ this m, of topology] inv containments_Some [OF Some]
  have "containments pm1 = (containments pm)(getPid a \<mapsto> containment_of am)" "sa_thresholds (pm_policy pm1) = sa_thresholds (pm_policy pm)"
    by (simp_all add: pm_inv_def)
  then show ?thesis by (auto simp: containments_def pm' ks_find_erase fun_eq_iff)
qed

lemma handle_refines:
  assumes inv: "pm_inv (sa_inv topology) pm" and run: "pm_handle (sa_pol pf topology) ev (k, pm) = (Inr x, (k', pm'))"
  shows "containments pm' = spec_containment (sa_thresholds (pm_policy pm)) ev (containments pm) \<and>
    sa_thresholds (pm_policy pm') = sa_thresholds (pm_policy pm)"
proof (cases ev)
  case (AddEvent a)
  with add_refines [OF inv, of pf a k "Inr x" k' pm'] run show ?thesis by simp
next
  case (RemoveEvent a)
  with remove_refines [OF inv, of pf a k x k' pm'] run show ?thesis by simp
next
  case (FeedbackEvent a fb)
  have "contained_as (containment_of am) (sa_thresholds (pm_policy pm)) (snd (sa_feedback pf fb ((k, am), pm_policy pm)))" for am
    by (rule keepsD [OF contained_policy(3)]) (simp add: contained_as_def)
  with lookup_refines [OF inv, of "getPid a" "\<lambda>am. am" "sa_feedback pf fb" k "Inr x" k' pm' "\<lambda>c. c"] run [unfolded FeedbackEvent pm_handle.simps processFeedbackEvent_def sa_calls] FeedbackEvent
    sa_policy.feedback_ok [of topology pf fb]
  show ?thesis by (simp add: sa_calls option.map_ident)
next
  case (SecurityEvent a sai factors labels)
  have "contained_as (case containment_of am of (level, tr) \<Rightarrow> (level, step sai (sa_thresholds (pm_policy pm)) (tolOffset level) tr))
      (sa_thresholds (pm_policy pm)) (snd (sa_securityAlert pf topology sai factors labels ((k, am\<lparr>am_sai := sai\<rparr>), pm_policy pm)))" for am
    using contained_alert [of "am\<lparr>am_sai := sai\<rparr>" sai "pm_policy pm" pf topology factors labels k] by (simp add: containment_of_def)
  with lookup_refines [OF inv, of "getPid a" "\<lambda>am. am\<lparr>am_sai := sai\<rparr>" "sa_securityAlert pf topology sai factors labels" k "Inr x" k' pm'
      "\<lambda>(level, tr). (level, step sai (sa_thresholds (pm_policy pm)) (tolOffset level) tr)"] run [unfolded SecurityEvent pm_handle.simps processSecurityEvent_def sa_calls] SecurityEvent
    sa_policy.securityAlert_ok [of topology pf sai factors labels]
  show ?thesis by (simp add: sa_calls)
next
  case (ClearEvent pid)
  have "contained_as (case containment_of am of (level, tr) \<Rightarrow> (level, clear tr))
      (sa_thresholds (pm_policy pm)) (snd (sa_clearApp pf topology ((k, am), pm_policy pm)))" for am
    using contained_clear [of am "pm_policy pm" pf topology k] by (simp add: containment_of_def)
  with lookup_refines [OF inv, of pid "\<lambda>am. am" "sa_clearApp pf topology" k "Inr x" k' pm' "\<lambda>(level, tr). (level, clear tr)"] run [unfolded ClearEvent pm_handle.simps processClearEvent_def sa_calls] ClearEvent
    sa_policy.clearApp_ok [of topology pf]
  show ?thesis by (simp add: sa_calls)
qed (use run in \<open>auto simp: processTimerEvent_def processMonitorEvent_def act_defs containments_def sa_calls sa_monitor_def\<close>)

section \<open>The running program\<close>

text \<open>What the security monitor has published, where there is one.\<close>

definition monitor_published :: "('k, 'p) konro_system \<Rightarrow> event list" where
  "monitor_published s = (case sys_sm s of None \<Rightarrow> [] | Some sm \<Rightarrow> sm_published sm)"

fun is_alert :: "event \<Rightarrow> bool" where
  "is_alert (SecurityEvent a sai factors labels) = True"
| "is_alert _ = False"

text \<open>
  The events that the policy manager has handled, with those in its queue behind them, are
  what the workload manager and the security monitor have published, each in order, and the
  clears that came from outside; and its state is that of the specification after the events
  handled.
\<close>

definition explained_by :: "thresholds \<Rightarrow> event list \<Rightarrow> event list \<Rightarrow> ('k, sa_state) konro_system \<Rightarrow> bool" where
  "explained_by th handled asked s \<longleftrightarrow>
     filter told_event (handled @ sys_pmQueue s) = wm_published (sys_wm s) \<and>
     filter is_alert (handled @ sys_pmQueue s) = monitor_published s \<and>
     filter is_clear (handled @ sys_pmQueue s) = filter is_clear asked \<and>
     containments (sys_pm s) = fold (spec_containment th) handled Map.empty \<and>
     sa_thresholds (pm_policy (sys_pm s)) = th"

lemma published_receive: "sm_published (fold sm_receive evs sm) = sm_published sm"
proof (induction evs arbitrary: sm)
  case (Cons ev evs)
  have "sm_published (sm_receive ev sm) = sm_published sm"
    by (cases ev)
      (simp_all add: sm_processAddEvent_def sm_processRemoveEvent_def put_baseline_def Let_def split: option.split)
  with Cons show ?case by simp
qed simp

lemma outside_quiet: "from_outside ev \<Longrightarrow> \<not> told_event ev \<and> \<not> is_alert ev"
  by (cases ev) simp_all

lemma told_quiet: "list_all told_event evs \<Longrightarrow> filter is_alert evs = [] \<and> filter is_clear evs = [] \<and> filter told_event evs = evs"
  by (induction evs) (auto elim!: told_event.elims)

lemma scan_quiet: "list_all scan_event evs \<Longrightarrow> filter is_alert evs = evs \<and> filter is_clear evs = [] \<and> filter told_event evs = []"
  by (induction evs) (auto elim!: scan_event.elims)

lemma clear_for_policy: "is_clear ev \<Longrightarrow> for_policy ev"
  by (cases ev) (simp_all add: for_policy_def)

lemma explained_delivered:
  assumes "explained_by th handled asked s" and "delivered new u t"
    and "sys_pmQueue u = sys_pmQueue s" "sys_pm u = sys_pm s"
    and "wm_published (sys_wm u) = wm_published (sys_wm s) @ filter told_event (filter for_policy new)"
    and "monitor_published u = monitor_published s @ filter is_alert (filter for_policy new)"
    and "filter is_clear asked' = filter is_clear (filter for_policy new)"
  shows "explained_by th handled (asked @ asked') t"
  using assms by (auto simp: explained_by_def delivered_def monitor_published_def published_receive split: option.splits)

text \<open>One turn of the schedule, with the event it handles and the one that comes in.\<close>

lemma explained_turn:
  assumes do: "sys_do (threads_world (SecurityAwarePolicy pf topology) pf abi expf) c s = Some t"
    and inv: "sys_inv (sa_inv topology) s" and ex: "explained_by th handled asked s" and live: "\<not> sys_dead t"
  shows "explained_by th (handled @ turn_handles c s) (asked @ turn_asks c) t"
proof (cases c)
  case (KernelTurn k)
  with do ex show ?thesis by (auto simp: explained_by_def monitor_published_def split: if_splits)
next
  case (OutsideTurn ev)
  with do have o: "from_outside ev" "t = sys_publish ev s" by (auto split: if_splits)
  have "explained_by th handled (asked @ [ev]) t"
    by (rule explained_delivered [OF ex, of "[ev]" s])
      (use o inv publish_delivers [of s ev] outside_quiet [of ev] clear_for_policy [of ev] in \<open>auto simp: sys_inv_def\<close>)
  with OutsideTurn show ?thesis by simp
next
  case WorkloadTurn
  with do obtain ev q r k w where step_workload:
    "queue_tryPop (sys_wmQueue s) = (Some ev, q)"
    "wm_processEvent (world_platform (threads_world (SecurityAwarePolicy pf topology) pf abi expf))
      (world_control (threads_world (SecurityAwarePolicy pf topology) pf abi expf))
      (world_abi (threads_world (SecurityAwarePolicy pf topology) pf abi expf)) ev (sys_kernel s, sys_wm s) = (r, (k, w))"
    "t = sys_publish_all (drop (length (wm_published (sys_wm s))) (wm_published w))
      (s\<lparr>sys_kernel := k, sys_wm := w, sys_wmQueue := q, sys_dead := isl r\<rparr>)"
    by (auto split: if_splits prod.splits option.splits)
  let ?u = "s\<lparr>sys_kernel := k, sys_wm := w, sys_wmQueue := q, sys_dead := isl r\<rparr>"
  note new = appendsD [OF workload_appends step_workload(2)]
  have "explained_by th handled (asked @ []) t"
    by (rule explained_delivered [OF ex, of "drop (length (wm_published (sys_wm s))) (wm_published w)" ?u])
      (use step_workload inv publish_all_delivers [of ?u] new told_quiet told_events_policy in
        \<open>auto simp: sys_inv_def routed_def monitor_published_def\<close>)
  with WorkloadTurn show ?thesis by simp
next
  case PolicyTurn
  with do obtain ev q r k pm where step_policy: "queue_tryPop (sys_pmQueue s) = (Some ev, q)"
    "pm_processEvent (SecurityAwarePolicy pf topology) ev (sys_kernel s, sys_pm s) = (r, (k, pm))"
    "t = s\<lparr>sys_kernel := k, sys_pm := pm, sys_pmQueue := q, sys_dead := isl r\<rparr>"
    by (auto split: if_splits prod.splits option.splits)
  have q: "sys_pmQueue s = ev # q" using step_policy by (simp add: queue_tryPop_def split: list.splits)
  have "pm_handle (SecurityAwarePolicy pf topology) ev (sys_kernel s, sys_pm s) = (Inr (), (k, pm))"
    using step_policy live by (auto simp: pm_processEvent_def act_defs split: prod.splits sum.splits)
  with handle_refines [OF _ this] inv ex q step_policy PolicyTurn show ?thesis
    by (simp add: explained_by_def sys_inv_def monitor_published_def)
next
  case ScanTurn
  with do obtain sm r k sm' where step_scan: "sys_sm s = Some sm"
    "scan_all (world_exp (threads_world (SecurityAwarePolicy pf topology) pf abi expf))
      (world_platform (threads_world (SecurityAwarePolicy pf topology) pf abi expf)) (sys_kernel s, sm) = (r, (k, sm'))"
    "t = sys_publish_all (drop (length (sm_published sm)) (sm_published sm'))
      (s\<lparr>sys_kernel := k, sys_sm := Some sm', sys_dead := isl r\<rparr>)"
    by (auto split: if_splits prod.splits option.splits)
  let ?u = "s\<lparr>sys_kernel := k, sys_sm := Some sm', sys_dead := isl r\<rparr>"
  note new = appendsD [OF scan_appends step_scan(2)]
  have "explained_by th handled (asked @ []) t"
    by (rule explained_delivered [OF ex, of "drop (length (sm_published sm)) (sm_published sm')" ?u])
      (use step_scan inv publish_all_delivers [of ?u] new scan_quiet scan_events_quiet in
        \<open>auto simp: sys_inv_def routed_def monitor_published_def\<close>)
  with ScanTurn show ?thesis by simp
qed

text \<open>A state that the program has started in has no history.\<close>

lemma explained_start:
  "explained_by (kp_thresholds (construct c)) [] [] (secure_start pf topology c k)"
  by (auto simp: explained_by_def sys_start_def construct_def Let_def new_workload_manager_def new_security_monitor_def
      setSaiConfig_def containments_def setPolicyThresholds_def new_policy_manager_def monitor_published_def
      SecurityAwarePolicy_def sa_setThresholds_def)

lemma schedule_alive: "sys_schedule e cs s = Some t \<Longrightarrow> \<not> sys_dead t \<Longrightarrow> \<not> sys_dead s"
  by (induction cs arbitrary: s) (auto split: option.splits dest!: sys_do_sound elim: sys_step.cases)

lemma explained_schedule:
  assumes "sys_schedule (threads_world (SecurityAwarePolicy pf topology) pf abi expf) cs s = Some t" and "\<not> sys_dead t"
    and "sys_inv (sa_inv topology) s" and "explained_by th handled asked s"
  shows "explained_by th (handled @ handled_events (threads_world (SecurityAwarePolicy pf topology) pf abi expf) cs s)
    (asked @ outside_events cs) t"
  using assms(1,3,4)
proof (induction cs arbitrary: s handled asked)
  case Nil
  then show ?case by (simp add: outside_events_def)
next
  case (Cons c cs)
  let ?e = "threads_world (SecurityAwarePolicy pf topology) pf abi expf"
  obtain u where u: "sys_do ?e c s = Some u" "sys_schedule ?e cs u = Some t"
    using Cons.prems(1) by (auto split: option.splits)
  have "\<not> sys_dead u" using schedule_alive [OF u(2) assms(2)] .
  from explained_turn [OF u(1) Cons.prems(2,3) this]
  have "explained_by th (handled @ turn_handles c s) (asked @ turn_asks c) u" .
  moreover have "sys_inv (sa_inv topology) u" using sa_threads.step_inv [OF sys_do_sound [OF u(1)] Cons.prems(2)] .
  ultimately show ?case using Cons.IH [OF u(2)] u(1) by (fastforce simp: outside_events_def)
qed

lemma explained_run:
  assumes "sys_schedule (threads_world (SecurityAwarePolicy pf topology) pf abi expf) cs (secure_start pf topology c k) = Some s"
    and "\<not> sys_dead s"
  shows "explained_by (kp_thresholds (construct c))
    (handled_events (threads_world (SecurityAwarePolicy pf topology) pf abi expf) cs (secure_start pf topology c k)) (outside_events cs) s"
  using explained_schedule [OF assms secure_inv [OF rtranclp.rtrancl_refl] explained_start] by simp

section \<open>No containment without an alert\<close>

definition justified :: "thresholds \<Rightarrow> event list \<Rightarrow> containment \<Rightarrow> bool" where
  "justified th evs m \<longleftrightarrow>
     (\<forall>pid level tr. m pid = Some (level, tr) \<longrightarrow> st_state tr \<noteq> OBSERVE \<longrightarrow>
        (\<exists>a sai factors labels. SecurityEvent a sai factors labels \<in> set evs \<and> getPid a = pid \<and>
           st_state tr \<le> target sai th (tolOffset level)))"

lemma justified_step: "justified th evs m \<Longrightarrow> justified th (evs @ [ev]) (spec_containment th ev m)"
proof (cases ev)
  case (SecurityEvent a sai factors labels)
  assume j: "justified th evs m"
  have "\<exists>a' sai' f' l'. SecurityEvent a' sai' f' l' \<in> set (evs @ [ev]) \<and> getPid a' = pid \<and> st_state tr \<le> target sai' th (tolOffset level)"
    if m: "spec_containment th ev m pid = Some (level, tr)" and st: "st_state tr \<noteq> OBSERVE" for pid level tr
  proof (cases "pid = getPid a")
    case True
    then obtain tr0 where tr0: "m (getPid a) = Some (level, tr0)" "tr = step sai th (tolOffset level) tr0"
      using m SecurityEvent by auto
    consider "st_state tr \<le> st_state tr0" | "st_state tr \<le> target sai th (tolOffset level)"
      using step_at_most [of sai th "tolOffset level" tr0] tr0(2) by (auto simp: max_def split: if_splits)
    then show ?thesis
    proof cases
      case 1
      then have "st_state tr0 \<noteq> OBSERVE" using st by (cases "st_state tr") (auto simp: sec_order)
      with j tr0(1) 1 True show ?thesis unfolding justified_def by (metis UnCI order.trans set_append)
    next
      case 2
      with SecurityEvent True show ?thesis by auto
    qed
  next
    case False
    then have "m pid = Some (level, tr)" using m SecurityEvent by simp
    then show ?thesis using j st unfolding justified_def by (metis UnCI set_append)
  qed
  then show ?thesis unfolding justified_def by blast
next
  case (ClearEvent pid)
  then show "justified th evs m \<Longrightarrow> ?thesis" by (auto simp: justified_def clear_def split: if_splits) 
qed (auto simp: justified_def new_tracker_def split: if_splits)

lemma justified_run: "justified th evs (fold (spec_containment th) evs Map.empty)"
proof (induction evs rule: rev_induct)
  case Nil
  show ?case by (simp add: justified_def)
next
  case (snoc ev evs)
  from justified_step [OF this] show ?case by simp
qed

section \<open>A program that quarantines\<close>

text \<open>
  The program of \<open>SystemProperties\<close> goes on: the security monitor scans the process, then the
  policy manager handles the addition, on a kernel that shows it no control files, and the
  alert.
\<close>

definition no_files :: ram where
  "no_files = \<lparr> ram_files = [], ram_dirs = [] \<rparr>"

definition demo_policy_manager :: "sa_state policy_manager" where
  "demo_policy_manager =
     \<lparr> pm_apps = [], pm_policy = (new_sa_state ram_topology)\<lparr>sa_thresholds := default_thresholds\<lparr>t3 := f32 (- 1) 1\<rparr>\<rparr> \<rparr>"

definition demo_scan :: "(cpp_error + unit) \<times> ram \<times> security_monitor" where
  "demo_scan = scan_all (\<lambda>_. f32 1 1) ram_linked (ram_start, sm_processAddEvent demo_app (new_security_monitor 10))"

definition demo_handles :: "ram \<Rightarrow> event \<Rightarrow> sa_state policy_manager \<Rightarrow> (cpp_error + bool) \<times> ram \<times> sa_state policy_manager" where
  "demo_handles k ev pm = pm_processEvent (SecurityAwarePolicy ram_linked ram_topology) ev (k, pm)"

definition state_of_42 :: "sa_state policy_manager \<Rightarrow> sec_state option" where
  "state_of_42 pm = map_option (st_state \<circ> secState) (ks_find am_getPid 42 (pm_apps pm))"

definition demo_ending :: "bool \<times> bool \<times> (bool \<times> bool \<times> sec_state option) list" where
  "demo_ending =
     (case demo_scan of (r, k, sm) \<Rightarrow>
      case demo_handles no_files (AddEvent demo_app) demo_policy_manager of (r1, k1, pm1) \<Rightarrow>
        (isl r, isl r1, map (\<lambda>ev. case demo_handles ram_start ev pm1 of (r2, k2, pm2) \<Rightarrow> (is_alert ev, isl r2, state_of_42 pm2))
          (sm_published sm)))"

lemma demo_ending_value: "demo_ending = (False, False, [(True, False, Some QUARANTINE)])"
  by code_simp

text \<open>The end of the run, in three turns of the threads with the kernel changed before each.\<close>

definition demo_turns :: "ram turn list" where
  "demo_turns = [KernelTurn ram_start, ScanTurn, KernelTurn no_files, PolicyTurn, KernelTurn ram_start, PolicyTurn]"

lemma demo_start_pm: "sys_pm demo_start = demo_policy_manager"
  by (simp add: demo_start_def sys_start_def Let_def strict_parts setPolicyThresholds_def new_policy_manager_def
      demo_policy_manager_def SecurityAwarePolicy_def sa_setThresholds_def)

lemma demo_quarantines:
  "\<exists>t. sys_runs demo_world demo_start t \<and> \<not> sys_dead t \<and> state_of_42 (sys_pm t) = Some QUARANTINE"
proof -
  note facts = demo_noted_facts demo_start_pm
  obtain r k sm where scan: "demo_scan = (r, (k, sm))" by (metis prod_cases3)
  obtain r1 k1 pm1 where add: "demo_handles no_files (AddEvent demo_app) demo_policy_manager = (r1, (k1, pm1))" by (metis prod_cases3)
  obtain ev where ev: "sm_published sm = [ev]" "is_alert ev" "\<not> isl r" "\<not> isl r1"
      "\<not> isl (fst (demo_handles ram_start ev pm1))" "state_of_42 (snd (snd (demo_handles ram_start ev pm1))) = Some QUARANTINE"
    using demo_ending_value by (auto simp: demo_ending_def scan add split: prod.splits)
  obtain r2 k2 pm2 where alert: "demo_handles ram_start ev pm1 = (r2, (k2, pm2))" by (metis prod_cases3)
  let ?sm = "sm_processAddEvent demo_app (new_security_monitor 10)"
  have new: "sm_published ?sm = []"
    by (simp add: sm_processAddEvent_def put_baseline_def new_security_monitor_def Let_def)
  let ?u = "demo_noted\<lparr>sys_kernel := k, sys_sm := Some sm, sys_dead := False\<rparr>"
  define v where "v = sys_publish_all [ev] ?u"
  have "routed demo_noted"
    using secure_inv [OF demo_run [unfolded demo_world_def demo_start_def]] by (simp add: sys_inv_def)
  then have "routed ?u" using facts(5) by (simp add: routed_def)
  from publish_all_delivers [OF this, of "[ev]"]
  have v: "\<not> sys_dead v" "sys_pmQueue v = [AddEvent demo_app, ev]" "sys_pm v = demo_policy_manager"
    using ev facts by (cases ev; simp add: v_def delivered_def for_policy_def)+
  let ?w = "v\<lparr>sys_kernel := k1, sys_pm := pm1, sys_pmQueue := [ev], sys_dead := isl r1\<rparr>"
  let ?t = "v\<lparr>sys_kernel := k2, sys_pm := pm2, sys_pmQueue := [], sys_dead := isl r2\<rparr>"
  have "sys_do demo_world ScanTurn (demo_noted\<lparr>sys_kernel := ram_start\<rparr>) = Some v"
    using scan ev facts new by (simp add: v_def demo_world_def demo_scan_def)
  moreover have "sys_do demo_world PolicyTurn (v\<lparr>sys_kernel := no_files\<rparr>) = Some ?w"
    using add v by (simp add: demo_world_def demo_handles_def queue_tryPop_def)
  moreover have "sys_do demo_world PolicyTurn (?w\<lparr>sys_kernel := ram_start\<rparr>) = Some ?t"
    using alert ev by (simp add: demo_world_def demo_handles_def queue_tryPop_def)
  ultimately have "sys_schedule demo_world demo_turns demo_noted = Some ?t"
    using v ev facts by (simp add: demo_turns_def del: sys_do.simps(3-5))
  then have "sys_runs demo_world demo_noted (v\<lparr>sys_kernel := k2, sys_pm := pm2, sys_pmQueue := [], sys_dead := isl r2\<rparr>)"
    unfolding schedule_runs ..
  from rtranclp_trans [OF demo_run this] ev(5,6) alert show ?thesis by auto
qed

section \<open>Properties\<close>

text \<open>
  C8: Containment is a function of the events: on every schedule of the threads, whatever the
  kernel answers, the level and the state of every application the policy manager holds are
  those the specification computes from the events that the schedule made it handle. These,
  with the events still queued behind them, are what the workload manager and the security
  monitor have published and the clears that came from outside, each in its order and none lost
  or doubled. Only an exception that has ended the process breaks this. The states at the end
  of a schedule are exactly those that the program can reach.
\<close>

theorem containment_refines:
  assumes "sys_schedule (threads_world (SecurityAwarePolicy pf topology) pf abi expf) turns (secure_start pf topology c k) = Some s"
    and "\<not> sys_dead s"
  shows "let handled = handled_events (threads_world (SecurityAwarePolicy pf topology) pf abi expf) turns (secure_start pf topology c k) in
    filter told_event (handled @ sys_pmQueue s) = wm_published (sys_wm s) \<and>
    filter is_alert (handled @ sys_pmQueue s) = monitor_published s \<and>
    filter is_clear (handled @ sys_pmQueue s) = filter is_clear (outside_events turns) \<and>
    containments (sys_pm s) = fold (spec_containment (kp_thresholds (construct c))) handled Map.empty"
  using explained_run [OF assms] unfolding explained_by_def Let_def by blast

theorem containment_refines_witness:
  "\<exists>turns (t :: (ram, sa_state) konro_system). sys_schedule demo_world turns demo_start = Some t \<and> state_of_42 (sys_pm t) = Some QUARANTINE \<and>
     filter told_event (handled_events demo_world turns demo_start @ sys_pmQueue t) = wm_published (sys_wm t) \<and>
     containments (sys_pm t)
       = fold (spec_containment (default_thresholds\<lparr>t3 := f32 (- 1) 1\<rparr>)) (handled_events demo_world turns demo_start) Map.empty"
proof -
  from demo_quarantines obtain t where t: "sys_runs demo_world demo_start t" "\<not> sys_dead t" "state_of_42 (sys_pm t) = Some QUARANTINE"
    by blast
  then obtain turns where turns: "sys_schedule demo_world turns demo_start = Some t" unfolding schedule_runs by blast
  from containment_refines [OF turns [unfolded demo_world_def demo_start_def] t(2)]
  have "filter told_event (handled_events demo_world turns demo_start @ sys_pmQueue t) = wm_published (sys_wm t)"
    "containments (sys_pm t)
       = fold (spec_containment (default_thresholds\<lparr>t3 := f32 (- 1) 1\<rparr>)) (handled_events demo_world turns demo_start) Map.empty"
    unfolding strict_parts Let_def demo_world_def [symmetric] demo_start_def [symmetric] by blast+
  with turns t(3) show ?thesis by blast
qed

text \<open>
  C9: No application is contained without cause: in every reachable state, an application that
  is throttled, restricted or in quarantine has had an alert of its own, published by the
  security monitor, whose index called for at least that state under the configured thresholds
  and the tolerance of its level.
\<close>

theorem containment_justified:
  assumes "sys_runs (threads_world (SecurityAwarePolicy pf topology) pf abi expf) (secure_start pf topology c k) s"
    and "\<not> sys_dead s" and "ks_find am_getPid pid (pm_apps (sys_pm s)) = Some am" and "st_state (secState am) \<noteq> OBSERVE"
  shows "\<exists>a sai factors labels. SecurityEvent a sai factors labels \<in> set (monitor_published s) \<and> getPid a = pid \<and>
    st_state (secState am) \<le> target sai (kp_thresholds (construct c)) (tolOffset (securityLevel am))"
proof -
  obtain turns where "sys_schedule (threads_world (SecurityAwarePolicy pf topology) pf abi expf) turns (secure_start pf topology c k) = Some s"
    using assms(1) unfolding schedule_runs by blast
  from explained_run [OF this assms(2)] obtain handled where ex: "explained_by (kp_thresholds (construct c)) handled (outside_events turns) s"
    by blast
  have "containments (sys_pm s) pid = Some (securityLevel am, secState am)"
    using assms(3) by (simp add: containments_def containment_of_def)
  with ex justified_run [of "kp_thresholds (construct c)" handled] assms(4)
  obtain a sai f l where "SecurityEvent a sai f l \<in> set handled" "getPid a = pid"
      "st_state (secState am) \<le> target sai (kp_thresholds (construct c)) (tolOffset (securityLevel am))"
    unfolding explained_by_def justified_def by metis
  moreover from this(1) have "SecurityEvent a sai f l \<in> set (filter is_alert (handled @ sys_pmQueue s))" by simp
  ultimately show ?thesis using ex unfolding explained_by_def by metis
qed

theorem containment_justified_witness:
  "\<exists>(t :: (ram, sa_state) konro_system) sai factors labels a. SecurityEvent a sai factors labels \<in> set (monitor_published t) \<and> getPid a = 42 \<and>
     (\<exists>level. target sai (default_thresholds\<lparr>t3 := f32 (- 1) 1\<rparr>) (tolOffset level) = QUARANTINE) \<and> state_of_42 (sys_pm t) = Some QUARANTINE"
proof -
  from demo_quarantines obtain t where t: "sys_runs demo_world demo_start t" "\<not> sys_dead t" "state_of_42 (sys_pm t) = Some QUARANTINE"
    by blast
  then obtain am where am: "ks_find am_getPid 42 (pm_apps (sys_pm t)) = Some am" "st_state (secState am) = QUARANTINE"
    by (auto simp: state_of_42_def)
  then have "st_state (secState am) \<noteq> OBSERVE" by simp
  from containment_justified [OF t(1) [unfolded demo_world_def demo_start_def] t(2) am(1) this]
  obtain a sai f l where al: "SecurityEvent a sai f l \<in> set (monitor_published t)" "getPid a = 42"
      "QUARANTINE \<le> target sai (default_thresholds\<lparr>t3 := f32 (- 1) 1\<rparr>) (tolOffset (securityLevel am))"
    unfolding strict_parts am(2) by blast
  from al(3) have "target sai (default_thresholds\<lparr>t3 := f32 (- 1) 1\<rparr>) (tolOffset (securityLevel am)) = QUARANTINE"
    by (simp add: order.antisym)
  with al t(3) show ?thesis by blast
qed

end
