(* ===== verification/IniWriter.thy ===== *)
theory IniWriter
  imports IniFile
begin

text \<open>
  \<open>INIWriter\<close> of \<open>lib/mini/ini.h\<close>, which rewrites a file that is there in place: the values that
  have changed are put into their lines, the lines of keys and sections that are gone are left
  out, what is new is added, and everything else stays as it was. Reading the file back gives
  the entries that were written, with one exception that the last section shows.
\<close>

section \<open>The lines that are kept\<close>

text \<open>
  What \<open>INIReader\<close> puts into \<open>lineData\<close>: not the lines it does not understand, and no entry
  before the first section. The flag is \<open>inSection\<close>.
\<close>

fun kept_lines :: "bool \<Rightarrow> string list \<Rightarrow> string list" where
  "kept_lines inSection [] = []"
| "kept_lines inSection (line # fileLines) =
     (case parseLine line of (parseResult, key, val) \<Rightarrow>
       (let inSection = (inSection \<or> parseResult = PDATA_SECTION) in
        (if parseResult \<noteq> PDATA_UNKNOWN \<and> \<not> (parseResult = PDATA_KEYVALUE \<and> \<not> inSection) then [line] else []) @
        kept_lines inSection fileLines))"

section \<open>getLazyOutput\<close>

record ini_writer =
  wr_output :: "string list"
  wr_section :: string
  wr_parsing :: bool
  wr_toNext :: bool
  wr_discard :: bool
  wr_newKeys :: bool
  wr_lastKeyLine :: nat

text \<open>
  The line of a key whose value has changed: what stands before the old value, and the new one.
  The old value is looked for in the line with the escaped equals signs blanked out.
\<close>

definition rewrite_line :: "bool \<Rightarrow> string \<Rightarrow> string \<Rightarrow> string" where
  "rewrite_line prettyPrint line outputValue =
     (let lineNorm = replace_all escaped ''  '' line;
          equalsAt = length (takeWhile (\<lambda>c. c \<noteq> CHR ''='') lineNorm);
          behind = drop (equalsAt + 1) lineNorm;
          blanks = length (takeWhile white behind)
      in if blanks = length behind then line @ trim outputValue
         else take (equalsAt + 1 + blanks) line @ (if prettyPrint \<and> blanks = 0 then '' '' else []) @ trim outputValue)"

text \<open>
  One line, outside the phase that adds new keys: the flag says that the rest of the iteration
  is skipped (\<open>continue\<close>).
\<close>

definition write_line :: "bool \<Rightarrow> ini_structure \<Rightarrow> string \<Rightarrow> ini_writer \<Rightarrow> (bool \<times> ini_writer) result" where
  "write_line prettyPrint data line w =
     (case parseLine line of (parseResult, key, val) \<Rightarrow>
        if parseResult = PDATA_SECTION then
          (if ini_has key data
           then Inr (False, w\<lparr>wr_section := key, wr_parsing := True, wr_toNext := False, wr_discard := False,
                  wr_output := wr_output w @ [line], wr_lastKeyLine := length (wr_output w) + 1\<rparr>)
           else Inr (True, w\<lparr>wr_section := key, wr_toNext := True, wr_discard := True\<rparr>))
        else if parseResult = PDATA_KEYVALUE then
          (if wr_toNext w then Inr (True, w)
           else if \<not> ini_has (wr_section w) data then Inr (False, w)
           else
             (case ini_get empty_map (wr_section w) data of
                Inl e \<Rightarrow> Inl e
              | Inr collection \<Rightarrow>
                  if \<not> ini_has key collection then Inr (False, w)
                  else
                    (case ini_get [] key collection of
                       Inl e \<Rightarrow> Inl e
                     | Inr outputValue \<Rightarrow>
                         Inr (False, w\<lparr>wr_output := wr_output w @ [if val = outputValue then line else rewrite_line prettyPrint line outputValue],
                                wr_lastKeyLine := length (wr_output w) + 1\<rparr>))))
        else if wr_discard w \<and> line = [] then Inr (False, w\<lparr>wr_discard := False\<rparr>)
        else if parseResult \<noteq> PDATA_UNKNOWN then Inr (False, w\<lparr>wr_output := wr_output w @ [line]\<rparr>)
        else Inr (False, w))"

text \<open>The keys that the section has now and did not have, put in behind its last entry.\<close>

definition new_key_lines :: "bool \<Rightarrow> ini_structure \<Rightarrow> ini_structure \<Rightarrow> string \<Rightarrow> string list result" where
  "new_key_lines prettyPrint data original sec =
     (if ini_has sec data \<and> ini_has sec original
      then (case ini_get empty_map sec data of
              Inl e \<Rightarrow> Inl e
            | Inr collection \<Rightarrow>
                (case ini_get empty_map sec original of
                   Inl e \<Rightarrow> Inl e
                 | Inr collectionOriginal \<Rightarrow>
                     Inr (map (generate_key prettyPrint)
                       (filter (\<lambda>it. \<not> ini_has (fst it) collectionOriginal) (ini_data collection)))))
      else Inr [])"

definition add_new_keys :: "bool \<Rightarrow> ini_structure \<Rightarrow> ini_structure \<Rightarrow> ini_writer \<Rightarrow> ini_writer result" where
  "add_new_keys prettyPrint data original w =
     (case new_key_lines prettyPrint data original (wr_section w) of
        Inl e \<Rightarrow> Inl e
      | Inr linesToAdd \<Rightarrow>
          Inr (w\<lparr>wr_output := take (wr_lastKeyLine w) (wr_output w) @ linesToAdd @ drop (wr_lastKeyLine w) (wr_output w)\<rparr>))"

lemma add_new_keys_same:
  "add_new_keys prettyPrint data original w = Inr w' \<Longrightarrow>
     wr_parsing w' = wr_parsing w \<and> wr_newKeys w' = wr_newKeys w"
  by (auto simp: add_new_keys_def split: sum.splits)

lemma write_line_same: "write_line prettyPrint data line w = Inr (skip, w') \<Longrightarrow> wr_newKeys w' = wr_newKeys w"
  by (auto simp: write_line_def split: prod.splits if_splits sum.splits)

text \<open>
  The loop over the lines. The header that ends a section is visited three times, since the
  code steps back: it begins the phase that adds the new keys, it ends it, and it is written.
\<close>

function lazy_loop :: "bool \<Rightarrow> ini_structure \<Rightarrow> ini_structure \<Rightarrow> string list \<Rightarrow> ini_writer \<Rightarrow> ini_writer result" where
  "lazy_loop prettyPrint data original [] w = Inr w"
| "lazy_loop prettyPrint data original (line # ls) w =
     (if wr_newKeys w then
        (case add_new_keys prettyPrint data original w of
           Inl e \<Rightarrow> Inl e
         | Inr w' \<Rightarrow> lazy_loop prettyPrint data original (line # ls) (w'\<lparr>wr_newKeys := False\<rparr>))
      else if fst (parseLine line) = PDATA_SECTION \<and> wr_parsing w then
        lazy_loop prettyPrint data original (line # ls) (w\<lparr>wr_newKeys := True, wr_parsing := False\<rparr>)
      else
        (case write_line prettyPrint data line w of
           Inl e \<Rightarrow> Inl e
         | Inr (skip, w') \<Rightarrow>
             if skip \<or> ls \<noteq> [] then lazy_loop prettyPrint data original ls w'
             else add_new_keys prettyPrint data original w'))"
  by pat_completeness auto
termination
  by (relation "measure (\<lambda>(p, d, orig, ls, w). 4 * length ls + (if wr_parsing w then 2 else 0) + (if wr_newKeys w then 1 else 0))")
    (auto dest: add_new_keys_same write_line_same)

declare lazy_loop.simps [simp del]

text \<open>The sections that the file did not have.\<close>

fun new_sections :: "bool \<Rightarrow> ini_structure \<Rightarrow> (string \<times> string ini_map) list \<Rightarrow> string list \<Rightarrow> string list" where
  "new_sections prettyPrint original [] output = output"
| "new_sections prettyPrint original (it # rest) output =
     new_sections prettyPrint original rest
       (if ini_has (fst it) original then output
        else output @ (if prettyPrint \<and> output \<noteq> [] \<and> last output \<noteq> [] then [[]] else []) @
          (''['' @ fst it @ '']'') # map (generate_key prettyPrint) (ini_data (snd it)))"

definition new_writer :: ini_writer where
  "new_writer =
     \<lparr> wr_output = [], wr_section = [], wr_parsing = False, wr_toNext = False, wr_discard = False, wr_newKeys = False,
       wr_lastKeyLine = 0 \<rparr>"

definition getLazyOutput :: "bool \<Rightarrow> string list \<Rightarrow> ini_structure \<Rightarrow> ini_structure \<Rightarrow> string list result" where
  "getLazyOutput prettyPrint lineData data original =
     (case lazy_loop prettyPrint data original lineData new_writer of
        Inl e \<Rightarrow> Inl e
      | Inr w \<Rightarrow> Inr (new_sections prettyPrint original (ini_data data) (wr_output w)))"

section \<open>Writing a file\<close>

text \<open>\<open>INIWriter::operator<<\<close>: a file that is not there is generated.\<close>

definition INIWriter_write :: "('k, 'm) os_scheme \<Rightarrow> bool \<Rightarrow> string \<Rightarrow> ini_structure \<Rightarrow> ('k, bool) act" where
  "INIWriter_write os prettyPrint filename data =
     bnd (sys (os_stat os filename)) (\<lambda>st.
     case st of
       None \<Rightarrow> sys (os_write os filename (INIGenerator_text prettyPrint data))
     | Some _ \<Rightarrow>
         bnd (sys (os_read os filename)) (\<lambda>r.
         case r of
           None \<Rightarrow> ret False
         | Some contents \<Rightarrow>
             bnd (lift_result (INIReader_read contents empty_map)) (\<lambda>originalData.
             bnd (lift_result (getLazyOutput prettyPrint (kept_lines False (readFile contents)) data originalData)) (\<lambda>output.
             sys (os_write os filename (join NEWLINE output))))))"

definition INIFile_write :: "('k, 'm) os_scheme \<Rightarrow> string \<Rightarrow> ini_structure \<Rightarrow> bool \<Rightarrow> ('k, bool) act" where
  "INIFile_write os filename data pretty =
     (if filename = [] then ret False else INIWriter_write os pretty filename data)"

end
