(* ===== verification/IniWritten.thy ===== *)
theory IniWritten
  imports IniWriter
begin

text \<open>
  What \<open>INIWriter\<close> leaves in the file, as \<open>INIReader\<close> sees it. A list of lines is reduced to the
  entries it makes, in order; a text is read as a structure exactly when its entries are sound
  and complete for it. The loop over the lines keeps both.
\<close>

section \<open>White space\<close>

abbreviation whites :: "string \<Rightarrow> bool" where
  "whites w \<equiv> list_all white w"

definition rtrim :: "string \<Rightarrow> string" where
  "rtrim s = rev (dropWhile white (rev s))"

lemma trim_rtrim: "trim s = dropWhile white (rtrim s)"
  by (simp add: trim_def rtrim_def)

lemma dropWhile_whites: "whites w \<Longrightarrow> dropWhile white (w @ s) = dropWhile white s"
  by (induction w) simp_all

lemma rtrim_whites: "whites w \<Longrightarrow> rtrim (s @ w) = rtrim s"
  by (simp add: rtrim_def dropWhile_whites list_all_iff)

lemma rtrim_append: "s \<noteq> [] \<Longrightarrow> \<not> whites s \<Longrightarrow> rtrim (w @ s) = w @ rtrim s"
  by (simp add: rtrim_def dropWhile_append list_all_iff) blast

lemma rtrim_mark: "\<not> white c \<Longrightarrow> rtrim (w @ c # s) = w @ c # rtrim s"
  by (cases "whites s") (auto simp: rtrim_def dropWhile_append list_all_iff)

lemma rtrim_split: "\<exists>t. whites t \<and> s = rtrim s @ t"
proof (intro exI conjI)
  have "rev (takeWhile white (rev s) @ dropWhile white (rev s)) = s" by simp
  then show "s = rtrim s @ rev (takeWhile white (rev s))" by (simp only: rev_append rtrim_def)
  show "whites (rev (takeWhile white (rev s)))" by (auto simp: list_all_iff dest: set_takeWhileD)
qed

lemma trim_split: "\<exists>w t. whites w \<and> whites t \<and> s = w @ trim s @ t"
proof -
  obtain t where t: "whites t" "s = rtrim s @ t" using rtrim_split by blast
  have "rtrim s = takeWhile white (rtrim s) @ trim s" by (simp add: trim_rtrim)
  moreover have "whites (takeWhile white (rtrim s))" by (auto simp: list_all_iff dest: set_takeWhileD)
  ultimately show ?thesis using t by (metis append.assoc)
qed

lemma trim_whites_left: "whites w \<Longrightarrow> trim (w @ s) = trim s"
proof (cases "whites s")
  case True
  then have r: "rtrim s = []" "rtrim (w @ s) = rtrim w" using rtrim_whites [of s "[]"] rtrim_whites [of s w] by (simp_all add: rtrim_def)
  assume "whites w"
  then have "rtrim w = []" using rtrim_whites [of w "[]"] by (simp add: rtrim_def)
  with r show ?thesis by (simp add: trim_rtrim)
next
  case False
  then show "whites w \<Longrightarrow> ?thesis"
    by (cases "s = []") (simp_all add: trim_rtrim rtrim_append dropWhile_whites)
qed

lemma trim_whites_right: "whites w \<Longrightarrow> trim (s @ w) = trim s"
  by (simp add: trim_rtrim rtrim_whites)

lemma trim_trim: "trim (trim s) = trim s"
  using trim_split [of s] by (metis trim_whites_left trim_whites_right)

lemma trim_rtrim_same: "trim (rtrim s) = trim s"
  using rtrim_split [of s] by (metis trim_whites_right)

lemma white_facts [simp]: "\<not> white (CHR ''='')" "\<not> white (CHR 0x5C)" "\<not> white (CHR '';'')" "\<not> white (CHR ''['')" "white (CHR '' '')"
  by (simp_all add: white_def whitespaceDelimiters_def NEWLINE_def)

section \<open>A line with a key and a value\<close>

abbreviation nrm :: "string \<Rightarrow> string" where
  "nrm \<equiv> replace_all escaped ''  ''"

text \<open>A text of a key, with the text it becomes when escaped equals signs are blanked out.\<close>

definition key_part :: "string \<Rightarrow> string \<Rightarrow> bool" where
  "key_part kk b \<longleftrightarrow>
     length b = length kk \<and> CHR ''='' \<notin> set b \<and> (\<forall>z. nrm (kk @ CHR ''='' # z) = b @ CHR ''='' # nrm z)"

lemma nrm_cases:
  obtains (esc) t where "s = CHR 0x5C # CHR ''='' # t" "nrm s = CHR '' '' # CHR '' '' # nrm t"
    | (plain) c t where "s = c # t" "nrm s = c # nrm t" "c = CHR 0x5C \<Longrightarrow> t = [] \<or> hd t \<noteq> CHR ''=''"
    | (none) "s = []"
proof (cases s)
  case (Cons c t)
  show ?thesis
  proof (cases "c = CHR 0x5C \<and> t \<noteq> [] \<and> hd t = CHR ''=''")
    case True
    then show ?thesis using esc [of "tl t"] Cons by (cases t) (simp_all add: replace_escaped)
  next
    case False
    then show ?thesis using plain [of c t] Cons replace_backslash [of t] replace_other [of escaped c]
      by (cases "c = CHR 0x5C") auto
  qed
qed (rule none)

lemma nrm_plain: "(c = CHR 0x5C \<Longrightarrow> t = [] \<or> hd t \<noteq> CHR ''='') \<Longrightarrow> nrm (c # t) = c # nrm t"
  using replace_backslash [of t] replace_other [of escaped c] by (cases "c = CHR 0x5C") auto

lemma nrm_split:
  assumes "nrm s = b @ CHR ''='' # c" and "CHR ''='' \<notin> set b"
  shows "\<exists>kk z. s = kk @ CHR ''='' # z \<and> key_part kk b"
  using assms
proof (induction "length s" arbitrary: s b rule: less_induct)
  case less
  show ?case
  proof (cases s rule: nrm_cases)
    case (esc t)
    then obtain b' where b: "b = CHR '' '' # CHR '' '' # b'" "nrm t = b' @ CHR ''='' # c"
      using less.prems by (cases b; cases "tl b") auto
    with less.hyps [of t b'] less.prems esc obtain kk z where "t = kk @ CHR ''='' # z" "key_part kk b'" by auto
    with esc b have "s = (CHR 0x5C # CHR ''='' # kk) @ CHR ''='' # z" "key_part (CHR 0x5C # CHR ''='' # kk) b"
      by (simp_all add: key_part_def replace_escaped)
    then show ?thesis by blast
  next
    case (plain d t)
    show ?thesis
    proof (cases b)
      case Nil
      with less.prems plain have "d = CHR ''=''" by simp
      with plain(1) Nil have "s = [] @ CHR ''='' # t" "key_part [] b" by (simp_all add: key_part_def replace_other)
      then show ?thesis by blast
    next
      case (Cons d' b')
      then have b: "d' = d" "nrm t = b' @ CHR ''='' # c" "CHR ''='' \<notin> set b'" "d \<noteq> CHR ''=''"
        using less.prems plain by auto
      with less.hyps [of t b'] plain obtain kk z where k: "t = kk @ CHR ''='' # z" "key_part kk b'" by auto
      have "nrm (d # kk @ CHR ''='' # z') = d # nrm (kk @ CHR ''='' # z')" for z'
        using plain(3) k(1) by (intro nrm_plain) (cases kk; auto)
      with k plain b Cons have "s = (d # kk) @ CHR ''='' # z" "key_part (d # kk) b" by (simp_all add: key_part_def)
      then show ?thesis by blast
    qed
  next
    case none
    with less.prems show ?thesis by simp
  qed
qed

text \<open>White space, the text of a key, and what follows the equals sign.\<close>

definition pair_line :: "string \<Rightarrow> string \<Rightarrow> string \<Rightarrow> string \<Rightarrow> bool" where
  "pair_line w kk b line \<longleftrightarrow>
     whites w \<and> kk \<noteq> [] \<and> \<not> white (hd kk) \<and> hd kk \<noteq> CHR '';'' \<and> hd kk \<noteq> CHR ''['' \<and> key_part kk b \<and>
     (\<exists>rest. line = w @ kk @ CHR ''='' # rest)"

lemma take_pair: "key_part kk b \<Longrightarrow> takeWhile (\<lambda>c. c \<noteq> CHR ''='') (nrm (kk @ CHR ''='' # rest)) = b"
  by (auto simp: key_part_def takeWhile_tail takeWhile_eq_all_conv)

lemma parse_pair:
  assumes "pair_line w kk b (w @ kk @ CHR ''='' # rest)"
  shows "parseLine (w @ kk @ CHR ''='' # rest) = (PDATA_KEYVALUE, replace_all escaped ''='' (trim kk), trim rest)"
proof -
  have p: "whites w" "kk \<noteq> []" "\<not> white (hd kk)" "hd kk \<noteq> CHR '';''" "hd kk \<noteq> CHR ''[''" "key_part kk b"
    using assms by (auto simp: pair_line_def)
  have t: "trim (w @ kk @ CHR ''='' # rest) = kk @ CHR ''='' # rtrim rest"
    using p rtrim_mark [of "CHR ''=''" "w @ kk" rest] by (simp add: trim_rtrim dropWhile_whites dropWhile_hd)
  have n: "nrm (kk @ CHR ''='' # rtrim rest) = b @ CHR ''='' # nrm (rtrim rest)" "length b = length kk"
    using p by (simp_all add: key_part_def)
  show ?thesis
    using p take_pair [OF p(6), of "rtrim rest"]
    by (simp add: parseLine_def Let_def t n trim_rtrim_same)
qed

lemma hd_replace: "s \<noteq> [] \<Longrightarrow> hd s \<noteq> CHR 0x5C \<Longrightarrow> replace_all escaped x s \<noteq> [] \<and> hd (replace_all escaped x s) = hd s"
  by (cases s) (simp_all add: replace_other)

lemma norm_hd: "s \<noteq> [] \<Longrightarrow> \<not> white (hd s) \<Longrightarrow> norm_key s \<noteq> [] \<and> hd (norm_key s) = lower (hd s)"
proof -
  assume s: "s \<noteq> []" "\<not> white (hd s)"
  then obtain c s' where cs: "s = c # s'" "\<not> white c" by (cases s) auto
  then have "trim s = c # rtrim s'" using rtrim_mark [of c "[]" s'] by (simp add: trim_rtrim)
  then show ?thesis by (simp add: norm_key_def toLower_def cs)
qed

lemma parse_pairD:
  assumes "parseLine line = (PDATA_KEYVALUE, key, val)" and "key_ok (norm_key key)"
  shows "\<exists>w kk b rest. line = w @ kk @ CHR ''='' # rest \<and> pair_line w kk b line \<and> trim rest = val \<and> key = replace_all escaped ''='' (trim kk)"
proof -
  define l where "l = trim line"
  have l: "l \<noteq> []" "hd l \<noteq> CHR '';''" using assms(1) by (auto simp: parseLine_def l_def Let_def split: if_splits)
  have nw: "\<not> white (hd l)" using trim_ends [of l] l by (simp add: l_def trim_trim)
  have br: "hd l \<noteq> CHR ''[''"
  proof
    assume h: "hd l = CHR ''[''"
    define m where "m = takeWhile (\<lambda>c. c \<noteq> CHR '';'') l"
    have m: "m = CHR ''['' # tl m" using l h by (cases l) (simp_all add: m_def)
    define e where "e = length (takeWhile (\<lambda>c. c \<noteq> CHR ''='') (nrm m))"
    have "key = replace_all escaped ''='' (trim (take e m))"
      using assms(1) h l by (auto simp: parseLine_def l_def [symmetric] m_def [symmetric] e_def Let_def split: if_splits)
    moreover have "e \<noteq> 0" unfolding e_def by (subst m) (simp add: replace_other)
    then have "take e m = CHR ''['' # take (e - 1) (tl m)" by (subst m) (cases e; simp)
    then have "trim (take e m) = CHR ''['' # rtrim (take (e - 1) (tl m))"
      using rtrim_mark [of "CHR ''[''" "[]"] by (simp add: trim_rtrim)
    ultimately have "key \<noteq> [] \<and> hd key = CHR ''[''" using hd_replace [of "trim (take e m)" "''=''"] by simp
    then have "hd (norm_key key) = lower (CHR ''['')" using norm_hd [of key] by simp
    moreover have "lower (CHR ''['') = CHR ''[''" by code_simp
    ultimately show False using assms(2) by (simp add: key_ok_def)
  qed
  define b where "b = takeWhile (\<lambda>c. c \<noteq> CHR ''='') (nrm l)"
  have k: "CHR ''='' \<in> set (nrm l)" "key = replace_all escaped ''='' (trim (take (length b) l))" "val = trim (drop (length b + 1) l)"
    using assms(1) br l by (auto simp: parseLine_def l_def [symmetric] b_def Let_def split: if_splits)
  have "nrm l = b @ CHR ''='' # tl (dropWhile (\<lambda>c. c \<noteq> CHR ''='') (nrm l))"
    using k(1) hd_dropWhile [of "\<lambda>c. c \<noteq> CHR ''=''" "nrm l"] takeWhile_dropWhile_id [of "\<lambda>c. c \<noteq> CHR ''=''" "nrm l"]
    unfolding b_def by (cases "dropWhile (\<lambda>c. c \<noteq> CHR ''='') (nrm l)") auto
  moreover have "CHR ''='' \<notin> set b" unfolding b_def by (auto dest: set_takeWhileD)
  ultimately obtain kk z where kk: "l = kk @ CHR ''='' # z" "key_part kk b" using nrm_split by blast
  have len: "length b = length kk" using kk(2) by (simp add: key_part_def)
  have ne: "kk \<noteq> []"
  proof
    assume "kk = []"
    then have "key = []" using k(2) len by (simp add: trim_def)
    with assms(2) show False by (simp add: key_ok_def norm_key_def toLower_def trim_def)
  qed
  obtain w t where wt: "whites w" "whites t" "line = w @ l @ t" using trim_split [of line] unfolding l_def by blast
  have "line = w @ kk @ CHR ''='' # (z @ t)" using wt(3) kk(1) by simp
  moreover have "pair_line w kk b line"
    using wt kk ne nw l br calculation by (auto simp: pair_line_def)
  moreover have "trim (z @ t) = val" using k(3) kk(1) len by (simp add: trim_whites_right [OF wt(2)])
  moreover have "key = replace_all escaped ''='' (trim kk)" using k(2) kk(1) len by simp
  ultimately show ?thesis by blast
qed

text \<open>
  A line with a new value: the key is still there, and the new value is read, unless the old one
  begins with an escaped equals sign.
\<close>

lemma nrm_whites: "whites w \<Longrightarrow> nrm (w @ s) = w @ nrm s"
proof (induction w)
  case (Cons c w)
  then have "c \<noteq> CHR 0x5C" by auto
  with Cons show ?case by (simp add: replace_other)
qed simp

lemma nrm_begin: "s \<noteq> [] \<Longrightarrow> \<not> white (hd s) \<Longrightarrow> take 2 s \<noteq> escaped \<Longrightarrow> nrm s \<noteq> [] \<and> \<not> white (hd (nrm s))"
  by (cases s rule: nrm_cases) (auto simp: escaped_def)

lemma clean_trim: "clean v \<Longrightarrow> clean (trim v)"
  by (auto simp: clean_def trim_def dest!: set_dropWhileD)

lemma rewrite_pair:
  assumes p: "pair_line w kk b (w @ kk @ CHR ''='' # rest)" and v: "take 2 (trim rest) \<noteq> escaped"
  shows "\<exists>rest'. rewrite_line pretty (w @ kk @ CHR ''='' # rest) v = w @ kk @ CHR ''='' # rest' \<and> trim rest' = trim v \<and>
    (clean rest \<longrightarrow> clean v \<longrightarrow> clean rest')"
proof -
  have kp: "key_part kk b" "whites w" using p by (simp_all add: pair_line_def)
  define u where "u = takeWhile white rest"
  define x where "x = dropWhile white rest"
  have ux: "rest = u @ x" "whites u" by (auto simp: u_def x_def list_all_iff dest: set_takeWhileD)
  have n: "nrm (w @ kk @ CHR ''='' # rest) = (w @ b) @ CHR ''='' # nrm rest" "length b = length kk" "CHR ''='' \<notin> set b"
    using kp nrm_whites by (simp_all add: key_part_def)
  have "CHR ''='' \<notin> set w" using kp(2) by (auto simp: list_all_iff)
  then have tw: "takeWhile (\<lambda>c. c \<noteq> CHR ''='') (nrm (w @ kk @ CHR ''='' # rest)) = w @ b"
    unfolding n(1) using n(3) by (subst takeWhile_tail) (auto simp: takeWhile_eq_all_conv)
  then have len: "length (takeWhile (\<lambda>c. c \<noteq> CHR ''='') (nrm (w @ kk @ CHR ''='' # rest))) = length w + length kk" using n(2) by simp
  have behind: "drop (length w + length kk + 1) (nrm (w @ kk @ CHR ''='' # rest)) = nrm rest" using n(2) by (simp add: n(1))
  have front: "take (length w + length kk + 1 + length u) (w @ kk @ CHR ''='' # rest) = w @ kk @ CHR ''='' # u" by (simp add: ux(1))
  have nr: "nrm rest = u @ nrm x" using ux nrm_whites by simp
  have cl: "clean rest \<Longrightarrow> clean u" "clean v \<Longrightarrow> clean (trim v)"
    using ux(1) clean_trim by simp_all
  show ?thesis
  proof (cases "x = []")
    case True
    then have "nrm rest = u" using nr by simp
    moreover have "takeWhile white u = u" using ux(2) by (simp add: list_all_iff)
    ultimately have "length (takeWhile white (nrm rest)) = length (nrm rest)" by (simp only:)
    then have "rewrite_line pretty (w @ kk @ CHR ''='' # rest) v = w @ kk @ CHR ''='' # (rest @ trim v)"
      unfolding rewrite_line_def Let_def len behind by simp
    moreover have "trim (rest @ trim v) = trim v" using ux True by (simp add: trim_whites_left trim_trim)
    ultimately show ?thesis using cl by (intro exI [of _ "rest @ trim v"]) simp
  next
    case False
    have x: "\<not> white (hd x)" using False hd_dropWhile unfolding x_def by blast
    then obtain c x' where c: "x = c # x'" "\<not> white c" using False by (cases x) auto
    have "trim rest = c # rtrim x'"
      using ux c rtrim_mark [of c "[]" x'] by (simp add: trim_whites_left) (simp add: trim_rtrim)
    then have "take 2 x \<noteq> escaped"
      using v c(1) rtrim_mark [of "CHR ''=''" "[]"] by (cases x') (auto simp: escaped_def)
    from nrm_begin [OF False x this] have nx: "nrm x \<noteq> []" "\<not> white (hd (nrm x))" by blast+
    then have "takeWhile white (nrm rest) = u"
      unfolding nr using ux(2) by (cases "nrm x") (auto simp: takeWhile_append list_all_iff)
    then have "rewrite_line pretty (w @ kk @ CHR ''='' # rest) v
        = w @ kk @ CHR ''='' # (u @ (if pretty \<and> length u = 0 then '' '' else []) @ trim v)"
      using nx(1) nr unfolding rewrite_line_def Let_def len behind by (simp add: front [simplified])
    moreover have "trim (u @ (if pretty \<and> length u = 0 then '' '' else []) @ trim v) = trim v"
      using ux trim_whites_left [of "'' ''"] by (simp add: trim_whites_left trim_trim)
    ultimately show ?thesis using cl
      by (intro exI [of _ "u @ (if pretty \<and> length u = 0 then '' '' else []) @ trim v"]) (simp add: NEWLINE_def NUL_def)
  qed
qed

lemma rewrite_parses:
  assumes "parseLine line = (PDATA_KEYVALUE, key, val)" and "key_ok (norm_key key)" and "take 2 val \<noteq> escaped"
  shows "parseLine (rewrite_line pretty line v) = (PDATA_KEYVALUE, key, trim v)"
    and "clean line \<Longrightarrow> clean v \<Longrightarrow> clean (rewrite_line pretty line v)"
proof -
  obtain w kk b rest where l: "line = w @ kk @ CHR ''='' # rest" "pair_line w kk b line" "trim rest = val"
      "key = replace_all escaped ''='' (trim kk)"
    using parse_pairD [OF assms(1,2)] by blast
  obtain rest' where r: "rewrite_line pretty line v = w @ kk @ CHR ''='' # rest'" "trim rest' = trim v"
      "clean rest \<longrightarrow> clean v \<longrightarrow> clean rest'"
    using rewrite_pair [of w kk b rest pretty v] l assms(3) by blast
  have "pair_line w kk b (w @ kk @ CHR ''='' # rest')" using l(2) by (auto simp: pair_line_def)
  from parse_pair [OF this] r l(4) show "parseLine (rewrite_line pretty line v) = (PDATA_KEYVALUE, key, trim v)" by simp
  show "clean line \<Longrightarrow> clean v \<Longrightarrow> clean (rewrite_line pretty line v)" using l(1) r by simp
qed

end
