(* ===== verification/IniEntries.thy ===== *)
theory IniEntries
  imports IniWritten
begin

text \<open>
  What a list of lines says, as a map of maps: the headers and entries it makes, in order, and
  the structure that is read from them. Two facts carry the proofs about \<open>INIWriter\<close>: lines that
  are sound and complete for a structure are read as it, and entries append.
\<close>

section \<open>Structures as maps\<close>

type_synonym ini_view = "string \<Rightarrow> (string \<Rightarrow> string option) option"

definition view_abs :: "(string \<times> (string \<times> string) list) list \<Rightarrow> ini_view" where
  "view_abs a = (\<lambda>s. map_option map_of (map_of a s))"

definition ini_view :: "ini_structure \<Rightarrow> ini_view" where
  "ini_view s = view_abs (ini_abs s)"

lemma view_data: "ini_view s k = map_option (\<lambda>sub. map_of (ini_data sub)) (map_of (ini_data s) k)"
  by (simp add: ini_view_def view_abs_def ini_abs_def map_of_abs option.map_comp comp_def)

lemma map_of_some: "(map_of xs k \<noteq> None) = (k \<in> fst ` set xs)"
  by (simp add: map_of_eq_None_iff)

lemma has_view: "struct_inv s \<Longrightarrow> ini_has sec s \<longleftrightarrow> ini_view s (norm_key sec) \<noteq> None"
  by (simp add: ini_has_refines struct_inv_def view_data map_of_eq_None_iff)

lemma get_view:
  assumes "struct_inv s" and "ini_view s (norm_key sec) = Some m"
  shows "\<exists>sub. ini_get empty_map sec s = Inr sub \<and> ini_inv sub \<and> map_of (ini_data sub) = m"
proof -
  obtain sub where sub: "map_of (ini_data s) (norm_key sec) = Some sub" "map_of (ini_data sub) = m"
    using assms(2) by (auto simp: view_data)
  have "sub \<in> snd ` set (ini_data s)" using sub(1) by (metis image_eqI map_of_SomeD snd_conv)
  with assms(1) have "ini_inv sub" by (auto simp: struct_inv_def)
  moreover have "ini_get empty_map sec s = Inr sub"
    using ini_get_refines [of s empty_map sec] assms(1) sub(1) by (simp add: struct_inv_def)
  ultimately show ?thesis using sub(2) by blast
qed

lemma has_sub: "ini_inv sub \<Longrightarrow> ini_has key sub \<longleftrightarrow> map_of (ini_data sub) (norm_key key) \<noteq> None"
  by (simp add: ini_has_refines map_of_eq_None_iff)

lemma get_sub: "ini_inv sub \<Longrightarrow> map_of (ini_data sub) (norm_key key) = Some v \<Longrightarrow> ini_get [] key sub = Inr v"
  by (simp add: ini_get_refines)

section \<open>The entries of a list of lines\<close>

type_synonym ini_entry = "string \<times> (string \<times> string) option"

fun line_entries :: "string option \<Rightarrow> string list \<Rightarrow> ini_entry list" where
  "line_entries cur [] = []"
| "line_entries cur (l # ls) =
     (case parseLine l of (ty, key, val) \<Rightarrow>
        if ty = PDATA_SECTION then (norm_key key, None) # line_entries (Some (norm_key key)) ls
        else if ty = PDATA_KEYVALUE then
          (case cur of None \<Rightarrow> [] | Some s \<Rightarrow> [(s, Some (norm_key key, val))]) @ line_entries cur ls
        else line_entries cur ls)"

fun line_section :: "string option \<Rightarrow> string list \<Rightarrow> string option" where
  "line_section cur [] = cur"
| "line_section cur (l # ls) =
     (case parseLine l of (ty, key, val) \<Rightarrow> line_section (if ty = PDATA_SECTION then Some (norm_key key) else cur) ls)"

lemma entries_append: "line_entries cur (xs @ ys) = line_entries cur xs @ line_entries (line_section cur xs) ys"
  by (induction cur xs rule: line_entries.induct) (simp_all split: prod.splits)

lemma section_append: "line_section cur (xs @ ys) = line_section (line_section cur xs) ys"
  by (induction cur xs rule: line_section.induct) (simp_all split: prod.splits)

definition quiet :: "string \<Rightarrow> bool" where
  "quiet l \<longleftrightarrow> fst (parseLine l) \<noteq> PDATA_SECTION \<and> fst (parseLine l) \<noteq> PDATA_KEYVALUE"

lemma quiet_lines: "list_all quiet ls \<Longrightarrow> line_entries cur ls = [] \<and> line_section cur ls = cur"
  by (induction ls) (auto simp: quiet_def split: prod.splits)

lemma section_header: "line_section cur ls = Some s \<Longrightarrow> cur = Some s \<or> (s, None) \<in> set (line_entries cur ls)"
proof (induction cur ls rule: line_section.induct)
  case (2 cur l ls)
  obtain ty key val where p: "parseLine l = (ty, key, val)" by (metis prod.collapse)
  with 2 show ?case by (cases "ty = PDATA_SECTION") (auto split: if_splits)
qed simp

text \<open>The lines that are kept make the same entries.\<close>

lemma entries_kept:
  "line_entries (if ins then Some s else None) (kept_lines ins ls) = line_entries (if ins then Some s else None) ls"
proof (induction ls arbitrary: ins s)
  case (Cons l ls)
  obtain ty key val where p: "parseLine l = (ty, key, val)" by (metis prod.collapse)
  show ?case
    using Cons.IH [of True "norm_key key"] Cons.IH [of ins s] by (cases ty; cases ins) (simp_all add: p)
qed simp

section \<open>Reading entries\<close>

fun put_entry_view :: "ini_entry \<Rightarrow> ini_view \<Rightarrow> ini_view" where
  "put_entry_view (s, e) m =
     m(s \<mapsto> (case e of None \<Rightarrow> \<lambda>x. x | Some (k, v) \<Rightarrow> \<lambda>x. x(k \<mapsto> v)) (case m s of None \<Rightarrow> Map.empty | Some x \<Rightarrow> x))"

definition view_of :: "ini_entry list \<Rightarrow> ini_view" where
  "view_of es = fold put_entry_view es Map.empty"

lemma view_update: "view_abs (AList.update s c a) = (view_abs a)(s \<mapsto> map_of c)"
  by (simp add: view_abs_def update_conv' fun_eq_iff)

lemma view_section: "map_of (spec_section sec a) = (case view_abs a (norm_key sec) of None \<Rightarrow> Map.empty | Some x \<Rightarrow> x)"
  by (simp add: spec_section_def view_abs_def split: option.split)

lemma view_read:
  "view_abs (fst (fold spec_line ls (a, sec, ins)))
     = fold put_entry_view (line_entries (if ins then Some (norm_key sec) else None) ls) (view_abs a)"
proof (induction ls arbitrary: a sec ins)
  case (Cons l ls)
  obtain ty key val where p: "parseLine l = (ty, key, val)" by (metis prod.collapse)
  consider "ty = PDATA_SECTION" | "ty = PDATA_KEYVALUE" "ins" | "ty \<noteq> PDATA_SECTION" "ty = PDATA_KEYVALUE \<Longrightarrow> \<not> ins" by blast
  then show ?case
  proof cases
    case 1
    then show ?thesis using Cons.IH [of _ key True] by (simp add: p view_update view_section fun_upd_def)
  next
    case 2
    then show ?thesis using Cons.IH [of _ sec True] by (simp add: p view_update view_section update_conv' fun_upd_def)
  next
    case 3
    then show ?thesis using Cons.IH [of a sec ins] by (cases ins; cases ty) (simp_all add: p)
  qed
qed simp

lemma read_view: "view_abs (spec_read contents) = view_of (line_entries None (readFile contents))"
  using view_read [of "readFile contents" "[]" "[]" False] by (simp add: spec_read_def view_of_def view_abs_def)

lemma view_of_snoc: "view_of (es @ [e]) = put_entry_view e (view_of es)"
  by (simp add: view_of_def)

text \<open>What is in the view of a list of entries: the sections and keys that occur.\<close>

lemma view_of_section: "view_of es s \<noteq> None \<longleftrightarrow> s \<in> fst ` set es"
proof (induction es rule: rev_induct)
  case (snoc e es)
  then show ?case by (cases e) (auto simp: view_of_snoc)
qed (simp add: view_of_def)

lemma view_of_key: "view_of es s = Some m \<Longrightarrow> m k \<noteq> None \<longleftrightarrow> (\<exists>v. (s, Some (k, v)) \<in> set es)"
proof (induction es arbitrary: m rule: rev_induct)
  case (snoc e es)
  obtain s' x where e: "e = (s', x)" by (cases e)
  show ?case
  proof (cases "s' = s")
    case True
    have "view_of es s = None \<Longrightarrow> (s, y) \<notin> set es" for y using view_of_section [of es s] by force
    with True snoc show ?thesis
      by (cases x; cases "view_of es s") (auto simp: e view_of_snoc split: if_splits)
  next
    case False
    with snoc show ?thesis by (simp add: e view_of_snoc)
  qed
qed (simp add: view_of_def)

definition sound_entries :: "ini_view \<Rightarrow> ini_entry list \<Rightarrow> bool" where
  "sound_entries D es \<longleftrightarrow> (\<forall>(s, e)\<in>set es. \<exists>m. D s = Some m \<and> (\<forall>k v. e = Some (k, v) \<longrightarrow> m k = Some v))"

definition complete_entries :: "ini_view \<Rightarrow> ini_entry list \<Rightarrow> bool" where
  "complete_entries D es \<longleftrightarrow>
     (\<forall>s m. D s = Some m \<longrightarrow> (s, None) \<in> set es \<and> (\<forall>k v. m k = Some v \<longrightarrow> (s, Some (k, v)) \<in> set es))"

lemma sound_append [simp]: "sound_entries D (xs @ ys) \<longleftrightarrow> sound_entries D xs \<and> sound_entries D ys" "sound_entries D []"
  by (simp_all add: sound_entries_def ball_Un)

lemma sound_value:
  assumes "sound_entries D es" and "view_of es s = Some m" and "m k = Some v"
  shows "\<exists>d. D s = Some d \<and> d k = Some v"
  using assms
proof (induction es arbitrary: m rule: rev_induct)
  case (snoc e es)
  obtain s' x where e: "e = (s', x)" by (cases e)
  have se: "sound_entries D es" "sound_entries D [(s', x)]" using snoc.prems(1) e by simp_all
  have m: "put_entry_view (s', x) (view_of es) s = Some m"
    using snoc.prems(2) by (simp add: e view_of_snoc)
  show ?case
  proof (cases "s' = s \<and> (\<exists>v'. x = Some (k, v'))")
    case True
    with m snoc.prems(3) have "x = Some (k, v)" by auto
    with se(2) True show ?thesis by (auto simp: sound_entries_def)
  next
    case False
    then obtain m' where "view_of es s = Some m'" "m' k = Some v"
      using m snoc.prems(3) by (cases x; cases "view_of es s") (auto split: if_splits)
    with snoc.IH [OF se(1)] show ?thesis by blast
  qed
qed (simp add: view_of_def)

lemma entries_exact:
  assumes s: "sound_entries D es" and c: "complete_entries D es"
  shows "view_of es = D"
proof
  fix s
  show "view_of es s = D s"
  proof (cases "D s")
    case None
    then have "s \<notin> fst ` set es" using s by (auto simp: sound_entries_def)
    with None view_of_section [of es s] show ?thesis by simp
  next
    case (Some d)
    then have "(s, None) \<in> set es" using c by (simp add: complete_entries_def)
    then obtain m where m: "view_of es s = Some m" using view_of_section [of es s] by (metis fst_conv image_eqI not_None_eq)
    have "m k = d k" for k
    proof (cases "d k")
      case None
      then show ?thesis using sound_value [OF s m, of k] Some by (cases "m k") auto
    next
      case (Some v)
      then have "(s, Some (k, v)) \<in> set es" using c \<open>D s = Some d\<close> by (simp add: complete_entries_def)
      then obtain v' where "m k = Some v'" using view_of_key [OF m, of k] by blast
      with sound_value [OF s m this] \<open>D s = Some d\<close> show ?thesis by simp
    qed
    with m Some show ?thesis by (simp add: fun_eq_iff)
  qed
qed

end
