(* ===== verification/IniWriteBack.thy ===== *)
theory IniWriteBack
  imports IniEntries
begin

text \<open>
  The loop of \<open>INIWriter\<close> keeps its output sound for the new structure and complete for what of
  it the lines so far can hold; when the new sections have been added it is complete. Comments
  are passed on one by one.
\<close>

section \<open>What the loop maintains\<close>

definition is_comment :: "string \<Rightarrow> bool" where
  "is_comment l \<longleftrightarrow> fst (parseLine l) = PDATA_COMMENT"

abbreviation ents :: "string list \<Rightarrow> ini_entry set" where
  "ents ls \<equiv> set (line_entries None ls)"

text \<open>The entries of a section that the file did not have are all there.\<close>

definition section_done :: "ini_view \<Rightarrow> ini_view \<Rightarrow> string list \<Rightarrow> string \<Rightarrow> bool" where
  "section_done D orig out s \<longleftrightarrow>
     (\<forall>m orig_m k v. D s = Some m \<longrightarrow> orig s = Some orig_m \<longrightarrow> m k = Some v \<longrightarrow> orig_m k = None \<longrightarrow> (s, Some (k, v)) \<in> ents out)"

definition section_at :: "ini_view \<Rightarrow> string \<Rightarrow> string list \<Rightarrow> bool" where
  "section_at D sec p \<longleftrightarrow>
     (case line_section None p of None \<Rightarrow> D (norm_key sec) = None | Some s \<Rightarrow> s = norm_key sec)"

definition lazy_inv :: "ini_view \<Rightarrow> ini_view \<Rightarrow> string list \<Rightarrow> ini_writer \<Rightarrow> bool" where
  "lazy_inv D orig p w \<longleftrightarrow>
     sound_entries D (line_entries None (wr_output w)) \<and>
     (D (norm_key (wr_section w)) \<noteq> None \<longrightarrow>
        line_section None (wr_output w) = Some (norm_key (wr_section w)) \<and> \<not> wr_toNext w) \<and>
     section_at D (wr_section w) p \<and>
     (\<forall>s e. (s, e) \<in> ents p \<longrightarrow> D s \<noteq> None \<longrightarrow> (s, None) \<in> ents (wr_output w)) \<and>
     (\<forall>s k v0 m v. (s, Some (k, v0)) \<in> ents p \<longrightarrow> D s = Some m \<longrightarrow> m k = Some v \<longrightarrow> (s, Some (k, v)) \<in> ents (wr_output w)) \<and>
     (\<forall>s e. (s, e) \<in> ents p \<longrightarrow> s \<noteq> norm_key (wr_section w) \<longrightarrow> section_done D orig (wr_output w) s) \<and>
     filter is_comment (wr_output w) = filter is_comment p \<and> list_all clean (wr_output w)"

text \<open>
  Behind the position for new keys nothing is said. This holds while a section is open; after
  its new keys have been added the position is out of date until the next header.
\<close>

definition position_ok :: "ini_writer \<Rightarrow> bool" where
  "position_ok w \<longleftrightarrow>
     wr_lastKeyLine w \<le> length (wr_output w) \<and> list_all quiet (drop (wr_lastKeyLine w) (wr_output w))"

lemma done_mono: "section_done D orig out s \<Longrightarrow> ents out \<subseteq> ents out' \<Longrightarrow> section_done D orig out' s"
  unfolding section_done_def by (meson subsetD)

text \<open>The structure to be written, and the one that was read, as the loop asks for them.\<close>

definition writes :: "ini_structure \<Rightarrow> ini_structure \<Rightarrow> bool" where
  "writes data original \<longleftrightarrow>
     struct_inv data \<and> writable data \<and> struct_inv original \<and> \<not> ini_has [] data"

lemma writes_ok:
  assumes "writes data original" and "ini_view data s = Some m"
  shows "section_ok s" and "m k = Some v \<Longrightarrow> key_ok k \<and> value_ok v"
proof -
  obtain coll where c: "map_of (ini_abs data) s = Some coll" "m = map_of coll"
    using assms(2) by (auto simp: ini_view_def view_abs_def)
  then have "(s, coll) \<in> set (ini_abs data)" by (simp add: map_of_SomeD)
  then have w: "section_ok s" "list_all (\<lambda>(k, v). key_ok k \<and> value_ok v) coll"
    using assms(1) by (auto simp: writes_def writable_def list_all_iff)
  then show "section_ok s" by simp
  show "m k = Some v \<Longrightarrow> key_ok k \<and> value_ok v"
    using w(2) c(2) by (auto simp: list_all_iff dest: map_of_SomeD)
qed

section \<open>Adding the new keys of a section\<close>

text \<open>Lines of entries put before a tail that says nothing.\<close>

lemma key_lines_entries:
  assumes "list_all (\<lambda>(k, v). key_ok k \<and> value_ok v) coll"
  shows "line_entries (Some s) (map (generate_key pretty) coll) = map (\<lambda>kv. (s, Some kv)) coll"
    and "line_section cur (map (generate_key pretty) coll) = cur"
    and "filter is_comment (map (generate_key pretty) coll) = []"
    and "list_all clean (map (generate_key pretty) coll)"
  using assms by (induction coll) (auto simp: parse_key is_comment_def clean_key key_ok_def)

lemma insert_entries:
  assumes "n \<le> length out" and "list_all quiet (drop n out)"
  shows "line_entries None (take n out @ new @ drop n out) = line_entries None out @ line_entries (line_section None out) new"
    and "line_section None (take n out @ new @ drop n out) = line_section (line_section None out) new"
proof -
  have "line_entries None out = line_entries None (take n out)" "line_section None out = line_section None (take n out)"
    using entries_append [of None "take n out" "drop n out"] section_append [of None "take n out" "drop n out"]
      quiet_lines [OF assms(2)] by simp_all
  then show "line_entries None (take n out @ new @ drop n out) = line_entries None out @ line_entries (line_section None out) new"
    "line_section None (take n out @ new @ drop n out) = line_section (line_section None out) new"
    using quiet_lines [OF assms(2)] by (simp_all add: entries_append section_append)
qed

lemma add_keys_inv:
  assumes wr: "writes data original" and inv: "lazy_inv (ini_view data) (ini_view original) p w"
    and pos: "ini_view data (norm_key (wr_section w)) \<noteq> None \<Longrightarrow> position_ok w"
  shows "\<exists>w'. add_new_keys pretty data original w = Inr w' \<and> lazy_inv (ini_view data) (ini_view original) p w' \<and>
    section_done (ini_view data) (ini_view original) (wr_output w') (norm_key (wr_section w')) \<and>
    wr_section w' = wr_section w \<and> wr_parsing w' = wr_parsing w \<and> wr_newKeys w' = wr_newKeys w"
proof -
  let ?D = "ini_view data" and ?O = "ini_view original" and ?s = "norm_key (wr_section w)"
  have si: "struct_inv data" "struct_inv original" using wr by (simp_all add: writes_def)
  show ?thesis
  proof (cases "?D ?s = None \<or> ?O ?s = None")
    case True
    then have "add_new_keys pretty data original w = Inr w"
      using has_view [OF si(1)] has_view [OF si(2)] by (auto simp: add_new_keys_def new_key_lines_def)
    moreover have "section_done ?D ?O (wr_output w) ?s" using True by (auto simp: section_done_def)
    ultimately show ?thesis using inv by auto
  next
    case False
    then obtain m o1 where m: "?D ?s = Some m" "?O ?s = Some o1" by auto
    from get_view [OF si(1) m(1)] obtain coll where coll: "ini_get empty_map (wr_section w) data = Inr coll" "ini_inv coll"
      "map_of (ini_data coll) = m" by blast
    from get_view [OF si(2) m(2)] obtain oc where oc: "ini_get empty_map (wr_section w) original = Inr oc" "ini_inv oc"
      "map_of (ini_data oc) = o1" by blast
    define new where "new = filter (\<lambda>it. \<not> ini_has (fst it) oc) (ini_data coll)"
    have dc: "distinct (map fst (ini_data coll))" using coll(2) by (simp add: ini_inv_def)
    have ok: "list_all (\<lambda>(k, v). key_ok k \<and> value_ok v) (ini_data coll)"
      using writes_ok(2) [OF wr m(1)] coll(3) dc by (auto simp: list_all_iff)
    then have okn: "list_all (\<lambda>(k, v). key_ok k \<and> value_ok v) new" by (auto simp: new_def list_all_iff)
    let ?out = "wr_output w" and ?n = "wr_lastKeyLine w"
    let ?w = "w\<lparr>wr_output := take ?n ?out @ map (generate_key pretty) new @ drop ?n ?out\<rparr>"
    have "ini_has (wr_section w) data" "ini_has (wr_section w) original" using m has_view si by auto
    then have "add_new_keys pretty data original w = Inr ?w"
      by (simp add: add_new_keys_def new_key_lines_def coll(1) oc(1) new_def)
    moreover have e: "line_entries None (wr_output ?w) = line_entries None ?out @ map (\<lambda>kv. (?s, Some kv)) new"
      "line_section None (wr_output ?w) = line_section None ?out"
      using inv m(1) pos insert_entries [of ?n ?out "map (generate_key pretty) new"] key_lines_entries [OF okn]
      by (simp_all add: lazy_inv_def position_ok_def)
    have mono: "ents ?out \<subseteq> ents (wr_output ?w)" using e(1) by simp
    have "section_done ?D ?O (wr_output ?w) ?s"
      unfolding section_done_def
    proof (intro allI impI)
      fix m' o' k v assume a: "?D ?s = Some m'" "?O ?s = Some o'" "m' k = Some v" "o' k = None"
      then have mk: "(k, v) \<in> set (ini_data coll)" using m coll(3) by (auto dest: map_of_SomeD)
      then have "norm_key k = k" using ok by (auto simp: list_all_iff key_ok_def)
      then have "(k, v) \<in> set new" using a m oc(3) mk has_sub [OF oc(2), of k] by (simp add: new_def)
      then show "(?s, Some (k, v)) \<in> ents (wr_output ?w)" using e(1) by auto
    qed
    moreover have "lazy_inv ?D ?O p ?w"
    proof -
      have "sound_entries ?D (map (\<lambda>kv. (?s, Some kv)) new)"
        using m(1) coll(3) dc by (auto simp: sound_entries_def new_def)
      moreover have "filter is_comment (wr_output ?w) = filter is_comment ?out"
        using key_lines_entries(3) [OF okn, of pretty] filter_append [of is_comment "take ?n ?out" "drop ?n ?out"] by simp
      moreover have "list_all clean (wr_output ?w)"
        using inv key_lines_entries(4) [OF okn, of pretty]
        by (auto simp: lazy_inv_def list_all_iff dest: in_set_takeD in_set_dropD)
      ultimately show ?thesis
        using inv mono e done_mono [of ?D ?O ?out _ "wr_output ?w"] unfolding lazy_inv_def by auto
    qed
    ultimately show ?thesis by auto
  qed
qed

section \<open>One line\<close>

lemma ents_snoc: "line_entries None (ls @ [l]) = line_entries None ls @ line_entries (line_section None ls) [l]"
  by (rule entries_append)

lemma section_snoc: "line_section None (ls @ [l]) = line_section (line_section None ls) [l]"
  by (rule section_append)

lemma header_inv:
  assumes wr: "writes data original" and inv: "lazy_inv (ini_view data) (ini_view original) p w"
    and fin: "section_done (ini_view data) (ini_view original) (wr_output w) (norm_key (wr_section w))"
    and l: "parseLine line = (PDATA_SECTION, key, val)" "clean line" and "\<not> wr_parsing w"
  shows "\<exists>skip w'. write_line pretty data line w = Inr (skip, w') \<and> lazy_inv (ini_view data) (ini_view original) (p @ [line]) w' \<and>
    wr_newKeys w' = wr_newKeys w \<and> (wr_parsing w' \<longleftrightarrow> ini_view data (norm_key (wr_section w')) \<noteq> None) \<and>
    (wr_parsing w' \<longrightarrow> position_ok w') \<and> (skip \<longrightarrow> \<not> wr_parsing w')"
proof -
  let ?D = "ini_view data" and ?O = "ini_view original" and ?out = "wr_output w"
  have has: "ini_has key data \<longleftrightarrow> ?D (norm_key key) \<noteq> None" using wr has_view by (simp add: writes_def)
  have old: "section_done ?D ?O ?out s" if "(s, x) \<in> ents p" for s x
    using that inv fin by (cases "s = norm_key (wr_section w)") (auto simp: lazy_inv_def)
  have nc: "\<not> is_comment line" by (simp add: is_comment_def l(1))
  have at: "section_at ?D key (p @ [line])" by (simp add: section_at_def section_snoc l(1))
  show ?thesis
  proof (cases "?D (norm_key key)")
    case None
    let ?w = "w\<lparr>wr_section := key, wr_toNext := True, wr_discard := True\<rparr>"
    have "write_line pretty data line w = Inr (True, ?w)" using None has by (simp add: write_line_def l(1))
    moreover have "lazy_inv ?D ?O (p @ [line]) ?w"
      using inv old None nc at unfolding lazy_inv_def by (auto simp: ents_snoc l(1))
    ultimately show ?thesis using None assms(6) by auto
  next
    case (Some m)
    let ?w = "w\<lparr>wr_section := key, wr_parsing := True, wr_toNext := False, wr_discard := False,
                  wr_output := ?out @ [line], wr_lastKeyLine := length ?out + 1\<rparr>"
    have "write_line pretty data line w = Inr (False, ?w)" using Some has by (simp add: write_line_def l(1))
    moreover have "lazy_inv ?D ?O (p @ [line]) ?w"
    proof -
      have "sound_entries ?D [(norm_key key, None)]" using Some by (simp add: sound_entries_def)
      moreover have "section_done ?D ?O (?out @ [line]) s" if "(s, x) \<in> ents p" for s x
        using old [OF that] by (rule done_mono) (simp add: ents_snoc)
      ultimately show ?thesis
        using inv nc at l(2) unfolding lazy_inv_def by (auto simp: ents_snoc section_snoc l(1))
    qed
    moreover have "position_ok ?w" by (simp add: position_ok_def)
    ultimately show ?thesis using Some by auto
  qed
qed

text \<open>A line that changes neither the section nor what has been said of it.\<close>

lemma quiet_inv:
  assumes inv: "lazy_inv D orig p w" and l: "quiet line" "clean line" and new: "new = [] \<and> \<not> is_comment line \<or> new = [line]"
    and w': "wr_output w' = wr_output w @ new" "wr_section w' = wr_section w" "wr_toNext w' = wr_toNext w"
      "wr_lastKeyLine w' = wr_lastKeyLine w"
  shows "lazy_inv D orig (p @ [line]) w'" and "position_ok w \<Longrightarrow> position_ok w'"
proof -
  have q: "list_all quiet [line]" "list_all quiet new" using l(1) new by auto
  have e: "line_entries None (p @ [line]) = line_entries None p" "line_section None (p @ [line]) = line_section None p"
    "line_entries None (wr_output w') = line_entries None (wr_output w)" "line_section None (wr_output w') = line_section None (wr_output w)"
    using quiet_lines [OF q(1)] quiet_lines [OF q(2)] by (simp_all add: entries_append section_append w'(1))
  have c: "filter is_comment new = filter is_comment [line]" "list_all clean new" using new l(2) by auto
  have d: "section_done D orig (wr_output w') = section_done D orig (wr_output w)"
    by (intro ext) (simp add: section_done_def e)
  show "lazy_inv D orig (p @ [line]) w'"
    using inv c unfolding lazy_inv_def section_at_def e d w'(2,3) by (simp add: w'(1))
  show "position_ok w \<Longrightarrow> position_ok w'"
    using q(2) by (simp add: position_ok_def w'(1,4))
qed

lemma other_inv:
  assumes wr: "writes data original" and inv: "lazy_inv (ini_view data) (ini_view original) p w"
    and l: "parseLine line = (ty, key, val)" "ty \<noteq> PDATA_SECTION" "clean line"
    and plain: "ty = PDATA_KEYVALUE \<Longrightarrow> take 2 val \<noteq> escaped"
    and open': "wr_parsing w \<longleftrightarrow> ini_view data (norm_key (wr_section w)) \<noteq> None" "wr_parsing w \<Longrightarrow> position_ok w"
  shows "\<exists>skip w'. write_line pretty data line w = Inr (skip, w') \<and> lazy_inv (ini_view data) (ini_view original) (p @ [line]) w' \<and>
    wr_newKeys w' = wr_newKeys w \<and> wr_parsing w' = wr_parsing w \<and> wr_section w' = wr_section w \<and>
    (wr_parsing w' \<longrightarrow> position_ok w') \<and> (skip \<longrightarrow> \<not> wr_parsing w')"
proof (cases "ty = PDATA_KEYVALUE")
  case False
  have q: "quiet line" using False l by (simp add: quiet_def)
  have e: "ty = PDATA_COMMENT \<Longrightarrow> line \<noteq> []" using l(1) by (auto simp: parseLine_def trim_def)
  have "\<exists>w' new. write_line pretty data line w = Inr (False, w') \<and> (new = [] \<and> \<not> is_comment line \<or> new = [line]) \<and>
      wr_output w' = wr_output w @ new \<and> wr_section w' = wr_section w \<and> wr_toNext w' = wr_toNext w \<and>
      wr_lastKeyLine w' = wr_lastKeyLine w \<and> wr_newKeys w' = wr_newKeys w \<and> wr_parsing w' = wr_parsing w"
    using False l(1,2) e by (cases "wr_discard w \<and> line = []"; cases "ty = PDATA_UNKNOWN") (auto simp: write_line_def is_comment_def)
  then obtain w' new where w': "write_line pretty data line w = Inr (False, w')" "new = [] \<and> \<not> is_comment line \<or> new = [line]"
    "wr_output w' = wr_output w @ new" "wr_section w' = wr_section w" "wr_toNext w' = wr_toNext w"
    "wr_lastKeyLine w' = wr_lastKeyLine w" "wr_newKeys w' = wr_newKeys w" "wr_parsing w' = wr_parsing w" by blast
  from quiet_inv [OF inv q l(3) w'(2,3-6)] w' open'(2) show ?thesis by auto
next
  case True
  let ?D = "ini_view data" and ?O = "ini_view original" and ?s = "norm_key (wr_section w)" and ?out = "wr_output w"
  have si: "struct_inv data" using wr by (simp add: writes_def)
  have nc: "\<not> is_comment line" using True l(1) by (simp add: is_comment_def)
  have sec: "line_section None (p @ [line]) = line_section None p" using l by (simp add: section_append)
  then have at: "section_at ?D (wr_section w) (p @ [line])" using inv by (simp add: lazy_inv_def section_at_def)
  have same: ?thesis if "write_line pretty data line w = Inr (skip, w)" and "skip \<longrightarrow> ?D ?s = None"
    and k: "\<And>m. ?D ?s = Some m \<Longrightarrow> m (norm_key key) = None" for skip
  proof -
    have new: "(s, x) \<in> ents p \<or> s = ?s \<and> x = Some (norm_key key, val)" if "?D s \<noteq> None" "(s, x) \<in> ents (p @ [line])" for s x
      using that inv l(1) True by (auto simp: entries_append lazy_inv_def section_at_def split: option.splits)
    have "(?s, None) \<in> ents ?out" if "?D ?s \<noteq> None"
      using that inv section_header [of None ?out ?s] by (simp add: lazy_inv_def)
    then have "\<forall>s x. (s, x) \<in> ents (p @ [line]) \<longrightarrow> ?D s \<noteq> None \<longrightarrow> (s, None) \<in> ents ?out"
      using inv new unfolding lazy_inv_def by blast
    moreover have "(s, Some (k', v)) \<in> ents ?out"
      if a: "(s, Some (k', v0)) \<in> ents (p @ [line])" "?D s = Some m" "m k' = Some v" for s k' v0 m v
    proof -
      from a(2) have "?D s \<noteq> None" by simp
      from new [OF this a(1)] k [of m] a have "(s, Some (k', v0)) \<in> ents p" by auto
      with inv a(2,3) show ?thesis unfolding lazy_inv_def by blast
    qed
    moreover have "section_done ?D ?O ?out s" if "(s, x) \<in> ents (p @ [line])" "s \<noteq> ?s" for s x
    proof (cases "?D s = None")
      case False
      with new [OF False that(1)] that(2) inv show ?thesis unfolding lazy_inv_def by blast
    qed (simp add: section_done_def)
    moreover have "filter is_comment (p @ [line]) = filter is_comment p" using nc by simp
    ultimately have "lazy_inv ?D ?O (p @ [line]) w"
      using inv at unfolding lazy_inv_def by simp
    with that open' show ?thesis by auto
  qed
  show ?thesis
  proof (cases "?D ?s")
    case None
    then have "\<not> ini_has (wr_section w) data" using has_view [OF si] by simp
    then have "write_line pretty data line w = Inr (wr_toNext w, w)" using True l(1) by (simp add: write_line_def)
    from same [OF this] None show ?thesis by simp
  next
    case (Some m)
    then have has: "ini_has (wr_section w) data" "\<not> wr_toNext w" "line_section None ?out = Some ?s" "line_section None p = Some ?s"
      using has_view [OF si] inv by (auto simp: lazy_inv_def section_at_def split: option.splits)
    from get_view [OF si Some] obtain coll where coll: "ini_get empty_map (wr_section w) data = Inr coll" "ini_inv coll"
      "map_of (ini_data coll) = m" by blast
    show ?thesis
    proof (cases "m (norm_key key)")
      case None
      then have "write_line pretty data line w = Inr (False, w)"
        using True l(1) has coll has_sub [OF coll(2), of key] by (simp add: write_line_def)
      from same [OF this] None Some show ?thesis by simp
    next
      case (Some v)
      define l' where "l' = (if val = v then line else rewrite_line pretty line v)"
      have ok: "key_ok (norm_key key)" "value_ok v" using writes_ok(2) [OF wr \<open>?D ?s = Some m\<close> Some] by simp_all
      have p': "parseLine l' = (PDATA_KEYVALUE, key, v)"
        using l(1) True ok plain rewrite_parses(1) [of line key val pretty v] by (simp add: l'_def value_ok_def)
      have c': "clean l'" using l True ok plain rewrite_parses(2) [of line key val v pretty] by (simp add: l'_def value_ok_def)
      let ?w = "w\<lparr>wr_output := ?out @ [l'], wr_lastKeyLine := length ?out + 1\<rparr>"
      have "write_line pretty data line w = Inr (False, ?w)"
        using True l(1) has coll has_sub [OF coll(2), of key] get_sub [OF coll(2), of key v] Some by (simp add: write_line_def l'_def)
      moreover have "lazy_inv ?D ?O (p @ [line]) ?w"
      proof -
        have e: "line_entries None (?out @ [l']) = line_entries None ?out @ [(?s, Some (norm_key key, v))]"
          "line_section None (?out @ [l']) = Some ?s"
          using p' has(3) by (simp_all add: entries_append section_append)
        have ep: "ents (p @ [line]) = insert (?s, Some (norm_key key, val)) (ents p)"
          using l(1) True has(4) by (simp add: entries_append)
        have "sound_entries ?D [(?s, Some (norm_key key, v))]"
          using \<open>?D ?s = Some m\<close> Some by (simp add: sound_entries_def)
        moreover have "(?s, None) \<in> ents ?out" using section_header [OF has(3)] by simp
        moreover have "(s, Some (k, v')) \<in> ents (?out @ [l'])"
          if a: "(s, Some (k, v0)) \<in> ents (p @ [line])" "?D s = Some m'" "m' k = Some v'" for s k v0 m' v'
        proof (cases "(s, Some (k, v0)) \<in> ents p")
          case True
          with inv a(2,3) have "(s, Some (k, v')) \<in> ents ?out" unfolding lazy_inv_def by blast
          then show ?thesis by (simp add: e)
        next
          case False
          with a(1) have "s = ?s" "k = norm_key key" by (simp_all add: ep)
          with a \<open>?D ?s = Some m\<close> Some show ?thesis by (simp add: e)
        qed
        moreover have "filter is_comment (?out @ [l']) = filter is_comment (p @ [line])"
          using inv nc by (simp add: is_comment_def p' lazy_inv_def)
        moreover have "(s, None) \<in> ents (?out @ [l'])" if "(s, x) \<in> ents (p @ [line])" "?D s \<noteq> None" for s x
          using that inv \<open>(?s, None) \<in> ents ?out\<close> unfolding lazy_inv_def ep e by auto
        moreover have "section_done ?D ?O (?out @ [l']) s" if "(s, x) \<in> ents (p @ [line])" "s \<noteq> ?s" for s x
        proof -
          have "(s, x) \<in> ents p" using that by (simp add: ep)
          then have "section_done ?D ?O ?out s" using inv that(2) unfolding lazy_inv_def by blast
          then show ?thesis by (rule done_mono) (auto simp: e)
        qed
        ultimately show ?thesis
          using inv at c' has(2) e(2) unfolding lazy_inv_def by (simp add: e(1))
      qed
      moreover have "position_ok ?w" by (simp add: position_ok_def)
      ultimately show ?thesis using open'(1) by auto
    qed
  qed
qed

section \<open>The loop\<close>

definition plain_line :: "string \<Rightarrow> bool" where
  "plain_line line \<longleftrightarrow> clean line \<and> (case parseLine line of (ty, key, val) \<Rightarrow> ty = PDATA_KEYVALUE \<longrightarrow> take 2 val \<noteq> escaped)"

text \<open>The state between two lines.\<close>

definition between :: "ini_view \<Rightarrow> ini_view \<Rightarrow> string list \<Rightarrow> ini_writer \<Rightarrow> bool" where
  "between D orig p w \<longleftrightarrow>
     lazy_inv D orig p w \<and> \<not> wr_newKeys w \<and> (wr_parsing w \<longleftrightarrow> D (norm_key (wr_section w)) \<noteq> None) \<and>
     (wr_parsing w \<longrightarrow> position_ok w)"

lemma line_step:
  assumes wr: "writes data original" and b: "between (ini_view data) (ini_view original) p w" and l: "plain_line line"
  shows "\<exists>skip w'. lazy_loop pretty data original (line # ls) w
      = (if skip \<or> ls \<noteq> [] then lazy_loop pretty data original ls w' else add_new_keys pretty data original w') \<and>
    between (ini_view data) (ini_view original) (p @ [line]) w' \<and> (skip \<longrightarrow> \<not> wr_parsing w')"
proof -
  let ?D = "ini_view data" and ?O = "ini_view original"
  obtain ty key val where p: "parseLine line = (ty, key, val)" by (metis prod.collapse)
  have inv: "lazy_inv ?D ?O p w" and nk: "\<not> wr_newKeys w" using b by (simp_all add: between_def)
  have cl: "clean line" "ty = PDATA_KEYVALUE \<Longrightarrow> take 2 val \<noteq> escaped" using l p by (simp_all add: plain_line_def)
  show ?thesis
  proof (cases "ty = PDATA_SECTION")
    case False
    from other_inv [OF wr inv p False cl] b obtain skip w' where w': "write_line pretty data line w = Inr (skip, w')"
      "lazy_inv ?D ?O (p @ [line]) w'" "wr_newKeys w' = wr_newKeys w" "wr_parsing w' = wr_parsing w" "wr_section w' = wr_section w"
      "wr_parsing w' \<longrightarrow> position_ok w'" "skip \<longrightarrow> \<not> wr_parsing w'"
      unfolding between_def by blast
    then have "between ?D ?O (p @ [line]) w'" using b by (simp add: between_def)
    moreover have "lazy_loop pretty data original (line # ls) w
        = (if skip \<or> ls \<noteq> [] then lazy_loop pretty data original ls w' else add_new_keys pretty data original w')"
      using nk p False w'(1) by (simp add: lazy_loop.simps)
    ultimately show ?thesis using w'(7) by blast
  next
    case True
    have "\<exists>w1. lazy_loop pretty data original (line # ls) w = lazy_loop pretty data original (line # ls) w1 \<and> lazy_inv ?D ?O p w1 \<and>
        section_done ?D ?O (wr_output w1) (norm_key (wr_section w1)) \<and> \<not> wr_parsing w1 \<and> \<not> wr_newKeys w1"
    proof (cases "wr_parsing w")
      case False
      then have "?D (norm_key (wr_section w)) = None" using b by (simp add: between_def)
      then have "section_done ?D ?O (wr_output w) (norm_key (wr_section w))" by (simp add: section_done_def)
      with False inv nk show ?thesis by blast
    next
      case par: True
      let ?w = "w\<lparr>wr_newKeys := True, wr_parsing := False\<rparr>"
      have "lazy_inv ?D ?O p ?w" "position_ok ?w" using b par by (simp_all add: between_def lazy_inv_def position_ok_def)
      from add_keys_inv [OF wr this, of pretty] obtain w2 where w2: "add_new_keys pretty data original ?w = Inr w2"
        "lazy_inv ?D ?O p w2" "section_done ?D ?O (wr_output w2) (norm_key (wr_section w2))" "\<not> wr_parsing w2" by auto
      have "lazy_loop pretty data original (line # ls) w = lazy_loop pretty data original (line # ls) ?w"
        using nk p True par by (subst lazy_loop.simps) simp
      also have "\<dots> = lazy_loop pretty data original (line # ls) (w2\<lparr>wr_newKeys := False\<rparr>)"
        using w2(1) by (subst lazy_loop.simps) simp
      finally show ?thesis using w2 by (intro exI [of _ "w2\<lparr>wr_newKeys := False\<rparr>"]) (simp add: lazy_inv_def)
    qed
    then obtain w1 where w1: "lazy_loop pretty data original (line # ls) w = lazy_loop pretty data original (line # ls) w1"
      "lazy_inv ?D ?O p w1" "section_done ?D ?O (wr_output w1) (norm_key (wr_section w1))" "\<not> wr_parsing w1" "\<not> wr_newKeys w1"
      by blast
    from header_inv [OF wr w1(2,3) p [unfolded True] cl(1) w1(4)] obtain skip w' where
      w': "write_line pretty data line w1 = Inr (skip, w')" "lazy_inv ?D ?O (p @ [line]) w'" "wr_newKeys w' = wr_newKeys w1"
        "wr_parsing w' \<longleftrightarrow> ?D (norm_key (wr_section w')) \<noteq> None" "wr_parsing w' \<longrightarrow> position_ok w'" "skip \<longrightarrow> \<not> wr_parsing w'"
      by blast
    have "lazy_loop pretty data original (line # ls) w
        = (if skip \<or> ls \<noteq> [] then lazy_loop pretty data original ls w' else add_new_keys pretty data original w')"
      using w1 w'(1) by (simp add: lazy_loop.simps)
    moreover have "between ?D ?O (p @ [line]) w'" using w' w1(5) by (simp add: between_def)
    ultimately show ?thesis using w'(6) by blast
  qed
qed

lemma loop_inv:
  assumes wr: "writes data original"
  shows "between (ini_view data) (ini_view original) p w \<Longrightarrow> list_all plain_line ls \<Longrightarrow>
    \<exists>w'. lazy_loop pretty data original ls w = Inr w' \<and> lazy_inv (ini_view data) (ini_view original) (p @ ls) w' \<and>
      (ls \<noteq> [] \<longrightarrow> section_done (ini_view data) (ini_view original) (wr_output w') (norm_key (wr_section w')))"
proof (induction ls arbitrary: p w)
  case Nil
  then show ?case by (simp add: lazy_loop.simps between_def)
next
  case (Cons line ls)
  have pl: "plain_line line" using Cons.prems(2) by simp
  from line_step [OF wr Cons.prems(1) pl, of pretty ls] obtain skip w' where
    w': "lazy_loop pretty data original (line # ls) w
        = (if skip \<or> ls \<noteq> [] then lazy_loop pretty data original ls w' else add_new_keys pretty data original w')"
      "between (ini_view data) (ini_view original) (p @ [line]) w'" "skip \<longrightarrow> \<not> wr_parsing w'" by blast
  show ?case
  proof (cases "ls = []")
    case False
    with Cons.IH [OF w'(2)] Cons.prems(2) w'(1) show ?thesis by simp
  next
    case True
    show ?thesis
    proof (cases skip)
      case False
      have "ini_view data (norm_key (wr_section w')) \<noteq> None \<Longrightarrow> position_ok w'"
        "lazy_inv (ini_view data) (ini_view original) (p @ [line]) w'" using w'(2) by (simp_all add: between_def)
      from add_keys_inv [OF wr this(2,1), of pretty] True False w'(1) show ?thesis by auto
    next
      case skip: True
      then have "ini_view data (norm_key (wr_section w')) = None" using w'(2,3) by (simp add: between_def)
      then have "section_done (ini_view data) (ini_view original) (wr_output w') (norm_key (wr_section w'))" by (simp add: section_done_def)
      with True skip w' show ?thesis by (simp add: lazy_loop.simps between_def)
    qed
  qed
qed

section \<open>The new sections\<close>

lemma new_sections_inv:
  assumes wr: "writes data original"
  shows "set its \<subseteq> set (ini_data data) \<Longrightarrow> sound_entries (ini_view data) (line_entries None out) \<Longrightarrow> list_all clean out \<Longrightarrow>
    (let out' = new_sections pretty original its out in
      sound_entries (ini_view data) (line_entries None out') \<and> list_all clean out' \<and>
      filter is_comment out' = filter is_comment out \<and> ents out \<subseteq> ents out' \<and>
      (\<forall>(s, sub)\<in>set its. \<not> ini_has s original \<longrightarrow>
        (s, None) \<in> ents out' \<and> (\<forall>kv\<in>set (ini_data sub). (s, Some kv) \<in> ents out')))"
proof (induction its arbitrary: out)
  case Nil
  then show ?case by simp
next
  case (Cons it its)
  obtain s sub where it: "it = (s, sub)" by (cases it)
  have si: "struct_inv data" using wr by (simp add: writes_def)
  then have "map_of (ini_data data) s = Some sub" using Cons.prems(1) it by (simp add: struct_inv_def ini_inv_def)
  then have D: "ini_view data s = Some (map_of (ini_data sub))" by (simp add: view_data)
  have sec: "section_ok s" "norm_key s = s" using writes_ok(1) [OF wr D] by (simp_all add: section_ok_def)
  have "ini_inv sub" using si Cons.prems(1) it by (auto simp: struct_inv_def)
  then have ds: "distinct (map fst (ini_data sub))" by (simp add: ini_inv_def)
  have ok: "list_all (\<lambda>(k, v). key_ok k \<and> value_ok v) (ini_data sub)"
    using writes_ok(2) [OF wr D] ds by (auto simp: list_all_iff)
  show ?case
  proof (cases "ini_has s original")
    case True
    with Cons.IH [of out] Cons.prems show ?thesis by (simp add: it Let_def)
  next
    case False
    define pad where "pad = (if pretty \<and> out \<noteq> [] \<and> last out \<noteq> [] then [[]] else [] :: string list)"
    define out1 where "out1 = out @ pad @ (''['' @ s @ '']'') # map (generate_key pretty) (ini_data sub)"
    have e: "parseLine [] = (PDATA_NONE, [], [])" by (simp add: parseLine_def trim_def)
    have h: "parseLine (''['' @ s @ '']'') = (PDATA_SECTION, s, [])" by (rule parse_section [OF sec(1)])
    have "line_entries c pad = [] \<and> line_section c pad = c" for c using e by (simp add: pad_def)
    then have ent: "line_entries None out1 = line_entries None out @ (s, None) # map (\<lambda>kv. (s, Some kv)) (ini_data sub)"
      using key_lines_entries(1) [OF ok] h sec(2) by (simp add: out1_def entries_append)
    have "sound_entries (ini_view data) ((s, None) # map (\<lambda>kv. (s, Some kv)) (ini_data sub))"
      using D ds by (auto simp: sound_entries_def)
    then have s1: "sound_entries (ini_view data) (line_entries None out1)" using Cons.prems(2) by (simp add: ent)
    have c1: "list_all clean out1" "filter is_comment out1 = filter is_comment out"
      using Cons.prems(3) key_lines_entries(3,4) [OF ok] sec(1) h e
      by (auto simp: out1_def pad_def section_ok_def is_comment_def NEWLINE_def NUL_def)
    have n: "new_sections pretty original (it # its) out = new_sections pretty original its out1"
      using False by (simp add: it out1_def pad_def)
    show ?thesis
      using Cons.IH [of out1] Cons.prems(1) s1 c1 unfolding n Let_def by (auto simp: it ent)
  qed
qed

section \<open>Written and read back\<close>

definition plain_value :: "string \<Rightarrow> bool" where
  "plain_value line \<longleftrightarrow> (case parseLine line of (ty, key, val) \<Rightarrow> ty = PDATA_KEYVALUE \<longrightarrow> take 2 val \<noteq> escaped)"

lemma file_lines_are_clean: "clean b \<Longrightarrow> list_all clean (file_lines b s)"
  by (induction b s rule: file_lines.induct) simp_all

lemma kept_subset: "set (kept_lines ins ls) \<subseteq> set ls"
  by (induction ls arbitrary: ins) (auto simp: Let_def split: prod.splits if_splits)

lemma kept_comments: "filter is_comment (kept_lines ins ls) = filter is_comment ls"
  by (induction ls arbitrary: ins) (auto simp: Let_def is_comment_def split: prod.splits)

lemma join_Nil: "join c ls = [] \<Longrightarrow> ls = [] \<or> ls = [[]]"
  by (cases "(c, ls)" rule: join.cases) simp_all

lemma read_joined:
  assumes "list_all clean ls"
  shows "line_entries None (readFile (join NEWLINE ls)) = line_entries None ls"
    and "filter is_comment (readFile (join NEWLINE ls)) = filter is_comment ls"
proof -
  have e: "parseLine [] = (PDATA_NONE, [], [])" by (simp add: parseLine_def trim_def)
  have "readFile (join NEWLINE ls) = ls \<or> readFile (join NEWLINE ls) = [] \<and> (ls = [] \<or> ls = [[]])"
    using join_Nil [of NEWLINE ls] lines_join [OF _ assms] by (cases "ls = []") (auto simp: readFile_def)
  then show "line_entries None (readFile (join NEWLINE ls)) = line_entries None ls"
    "filter is_comment (readFile (join NEWLINE ls)) = filter is_comment ls"
    using e by (auto simp: is_comment_def)
qed

lemma lazy_output:
  assumes wr: "writes data original" and O: "ini_view original = view_of (line_entries None (readFile contents))"
    and plain: "list_all plain_value (readFile contents)"
  shows "\<exists>out. getLazyOutput pretty (kept_lines False (readFile contents)) data original = Inr out \<and>
    view_of (line_entries None (readFile (join NEWLINE out))) = ini_view data \<and>
    filter is_comment (readFile (join NEWLINE out)) = filter is_comment (readFile contents)"
proof -
  let ?D = "ini_view data" and ?O = "ini_view original"
  define ls where "ls = kept_lines False (readFile contents)"
  have ents: "line_entries None ls = line_entries None (readFile contents)"
    using entries_kept [of False "[]"] by (simp add: ls_def)
  have "list_all clean (readFile contents)" by (simp add: readFile_def file_lines_are_clean)
  then have pl: "list_all plain_line ls"
    using plain kept_subset [of False "readFile contents"]
    by (auto simp: list_all_iff plain_line_def plain_value_def ls_def split: prod.splits)
  have si: "struct_inv data" "struct_inv original" "\<not> ini_has [] data" using wr by (simp_all add: writes_def)
  have "between ?D ?O [] new_writer"
    using has_view [OF si(1), of "[]"] si(3)
    by (simp add: between_def lazy_inv_def new_writer_def section_at_def)
  from loop_inv [OF wr this pl, of pretty] obtain w where w: "lazy_loop pretty data original ls new_writer = Inr w"
    "lazy_inv ?D ?O ls w" "ls \<noteq> [] \<Longrightarrow> section_done ?D ?O (wr_output w) (norm_key (wr_section w))" by auto
  define out where "out = new_sections pretty original (ini_data data) (wr_output w)"
  have so: "sound_entries ?D (line_entries None (wr_output w))" "list_all clean (wr_output w)"
    "filter is_comment (wr_output w) = filter is_comment ls" using w(2) by (simp_all add: lazy_inv_def)
  from new_sections_inv [OF wr order.refl so(1,2), of pretty]
  have new: "sound_entries ?D (line_entries None out)" "list_all clean out" "filter is_comment out = filter is_comment (wr_output w)"
    "ents (wr_output w) \<subseteq> ents out"
    and sects: "\<And>s sub. (s, sub) \<in> set (ini_data data) \<Longrightarrow> \<not> ini_has s original \<Longrightarrow>
        (s, None) \<in> ents out \<and> (\<forall>kv\<in>set (ini_data sub). (s, Some kv) \<in> ents out)"
    by (auto simp: Let_def out_def)
  have "complete_entries ?D (line_entries None out)"
    unfolding complete_entries_def
  proof (intro allI impI)
    fix s m assume m: "?D s = Some m"
    have ns: "norm_key s = s" using writes_ok(1) [OF wr m] by (simp add: section_ok_def)
    show "(s, None) \<in> ents out \<and> (\<forall>k v. m k = Some v \<longrightarrow> (s, Some (k, v)) \<in> ents out)"
    proof (cases "?O s")
      case None
      obtain sub where "map_of (ini_data data) s = Some sub" "m = map_of (ini_data sub)" using m by (auto simp: view_data)
      moreover have "\<not> ini_has s original" using None has_view [OF si(2), of s] ns by simp
      ultimately show ?thesis using sects [of s sub] by (auto dest!: map_of_SomeD)
    next
      case (Some om)
      then have "s \<in> fst ` ents ls" using view_of_section [of "line_entries None ls" s] O ents by simp
      then obtain x where x: "(s, x) \<in> ents ls" by force
      then have "(s, None) \<in> ents (wr_output w)" using w(2) m unfolding lazy_inv_def by blast
      moreover have "(s, Some (k, v)) \<in> ents (wr_output w)" if kv: "m k = Some v" for k v
      proof (cases "om k")
        case None
        have "ls \<noteq> []" using x by auto
        then have "section_done ?D ?O (wr_output w) s"
          using w(2,3) x unfolding lazy_inv_def by (cases "s = norm_key (wr_section w)") auto
        with m Some None kv show ?thesis unfolding section_done_def by blast
      next
        case (Some v')
        then obtain v0 where "(s, Some (k, v0)) \<in> ents ls"
          using view_of_key [of "line_entries None ls" s om k] \<open>?O s = Some om\<close> O ents by auto
        with w(2) m kv show ?thesis unfolding lazy_inv_def by blast
      qed
      ultimately show ?thesis using new(4) by blast
    qed
  qed
  from entries_exact [OF new(1) this] read_joined [OF new(2)] new(3) so(3) kept_comments [of False "readFile contents"]
  have "view_of (line_entries None (readFile (join NEWLINE out))) = ?D"
    "filter is_comment (readFile (join NEWLINE out)) = filter is_comment (readFile contents)" by (simp_all add: ls_def)
  moreover have "getLazyOutput pretty ls data original = Inr out" by (simp add: getLazyOutput_def w(1) out_def)
  ultimately show ?thesis unfolding ls_def by blast
qed

end
