(* ===== verification/ConfigProperties.thy ===== *)
theory ConfigProperties
  imports KonroConfig IniWriteBack RamKernel
begin

text \<open>
  The properties of the configuration reader: the map refines an association list over every
  sequence of calls, whatever is read is well formed, what is generated is read back, and
  loading a configuration file gives what its text says.
\<close>

section \<open>Sequences of calls on a map\<close>

datatype 'a ini_call = CallAt string 'a | CallSet string 'a | CallRemove string | CallClear

fun ini_do :: "'a \<Rightarrow> 'a ini_call \<Rightarrow> 'a ini_map \<Rightarrow> 'a ini_map result" where
  "ini_do dflt (CallAt key x) m = ini_at dflt key (\<lambda>_. Inr x) m"
| "ini_do dflt (CallSet key x) m = ini_set key x m"
| "ini_do dflt (CallRemove key) m = Inr (snd (ini_remove key m))"
| "ini_do dflt CallClear m = Inr (ini_clear m)"

fun ini_run :: "'a \<Rightarrow> 'a ini_call list \<Rightarrow> 'a ini_map \<Rightarrow> 'a ini_map result" where
  "ini_run dflt [] m = Inr m"
| "ini_run dflt (c # cs) m = (case ini_do dflt c m of Inl e \<Rightarrow> Inl e | Inr m' \<Rightarrow> ini_run dflt cs m')"

fun spec_do :: "'a ini_call \<Rightarrow> (string \<times> 'a) list \<Rightarrow> (string \<times> 'a) list" where
  "spec_do (CallAt key x) xs = AList.update (norm_key key) x xs"
| "spec_do (CallSet key x) xs = AList.update (norm_key key) x xs"
| "spec_do (CallRemove key) xs = AList.delete (norm_key key) xs"
| "spec_do CallClear xs = []"

lemma ini_do_refines: "ini_inv m \<Longrightarrow> \<exists>m'. ini_do dflt c m = Inr m' \<and> ini_inv m' \<and> ini_data m' = spec_do c (ini_data m)"
proof (cases c)
  case (CallAt key x)
  moreover assume "ini_inv m"
  ultimately show ?thesis using ini_at_refines [where f = "\<lambda>_. Inr x" and y = x] by simp
next
  case CallClear
  then show ?thesis by (simp add: ini_clear_def) (simp add: empty_map_def)
qed (simp_all add: ini_set_refines ini_remove_refines)

lemma ini_run_refines: "ini_inv m \<Longrightarrow> \<exists>m'. ini_run dflt cs m = Inr m' \<and> ini_inv m' \<and> ini_data m' = fold spec_do cs (ini_data m)"
proof (induction cs arbitrary: m)
  case (Cons c cs)
  from ini_do_refines [OF Cons.prems, of dflt c] obtain m1 where
    "ini_do dflt c m = Inr m1" "ini_inv m1" "ini_data m1 = spec_do c (ini_data m)" by blast
  with Cons.IH [of m1] show ?case by simp
qed simp

text \<open>
  C39: The map of the configuration reader refines an association list. After any sequence of
  subscripts, assignments, removals and clears, none of which is out of range, its entries are
  those of the list after the same sequence, in the same order; and it answers every key,
  however it is padded and capitalised, as the list does.
\<close>

theorem ini_map_refines_list:
  "\<exists>m. ini_run dflt calls empty_map = Inr m \<and> ini_data m = fold spec_do calls [] \<and>
     ini_get dflt key m = Inr (case map_of (fold spec_do calls []) (norm_key key) of None \<Rightarrow> dflt | Some x \<Rightarrow> x) \<and>
     (ini_has key m \<longleftrightarrow> norm_key key \<in> fst ` set (fold spec_do calls []))"
proof -
  obtain m where "ini_run dflt calls empty_map = Inr m" "ini_inv m" "ini_data m = fold spec_do calls []"
    using ini_run_refines [OF ini_inv_empty, of dflt calls] by (auto simp: empty_map_def)
  then show ?thesis using ini_get_refines [of m dflt key] ini_has_refines [of m key] by auto
qed

section \<open>What is read is well formed\<close>

lemma white_code: "white c \<longleftrightarrow> code c \<in> {32, 9, 10, 13, 12, 11}"
proof -
  have "white c \<longleftrightarrow> code c \<in> code ` set whitespaceDelimiters" by (auto simp: white_def code_def)
  then show ?thesis by (simp add: whitespaceDelimiters_def code_def NEWLINE_def)
qed

lemma lower_code: "code (lower c) = (if 65 \<le> code c \<and> code c \<le> 90 then code c + 32 else code c)"
  by (simp add: lower_def code_def)

lemma lower_idem [simp]: "lower (lower c) = lower c" "white (lower c) = white c"
proof -
  show "lower (lower c) = lower c"
    by (cases "65 \<le> code c \<and> code c \<le> 90") (auto simp: lower_def [of "lower c"] lower_code)
qed (auto simp: white_code lower_code)

lemma dropWhile_idem: "dropWhile P (dropWhile P xs) = dropWhile P xs"
  by (induction xs) simp_all

lemma trim_idem [simp]: "trim (trim s) = trim s"
proof (cases "trim s = []")
  case True
  have "trim [] = []" by (simp add: trim_def)
  with True show ?thesis by (simp only:)
next
  case False
  define u where "u = rev (dropWhile white (rev s))"
  have t: "trim s = dropWhile white u" by (simp add: trim_def u_def)
  have ne: "u \<noteq> []" using False t by (metis dropWhile.simps(1))
  then have "dropWhile white (rev s) \<noteq> []" unfolding u_def by (simp only: rev_is_Nil_conv not_False_eq_True)
  from hd_dropWhile [OF this] have "\<not> white (last u)" unfolding u_def last_rev .
  moreover have "u = takeWhile white u @ dropWhile white u" by simp
  then have "last u = last (dropWhile white u)" using False t by (metis last_appendR)
  ultimately have "\<not> white (last (trim s))" by (simp add: t)
  moreover have "\<not> white (hd (trim s))" using hd_dropWhile [of white u] False by (simp add: t)
  ultimately show ?thesis by (intro trim_id) simp
qed

lemma trim_lower: "trim (map lower s) = map lower (trim s)"
  by (simp add: trim_def rev_map dropWhile_map comp_def)

lemma norm_key_idem [simp]: "norm_key (norm_key k) = norm_key k"
  by (simp add: norm_key_def toLower_def trim_lower comp_def)

definition normal_entries :: "(string \<times> (string \<times> string) list) list \<Rightarrow> bool" where
  "normal_entries a \<longleftrightarrow>
     list_all (\<lambda>(sec, c). norm_key sec = sec \<and> list_all (\<lambda>(k, v). norm_key k = k \<and> trim v = v) c) a"

lemma list_all_update: "list_all P xs \<Longrightarrow> P (k, y) \<Longrightarrow> list_all P (AList.update k y xs)"
  by (induction xs) auto

lemma parse_value_trimmed: "parseLine l = (ty, key, val) \<Longrightarrow> trim val = val"
  by (auto simp: parseLine_def Let_def trim_def [of "[]"] split: if_splits)

lemma spec_line_normal: "normal_entries (fst st) \<Longrightarrow> normal_entries (fst (spec_line l st))"
proof -
  assume n: "normal_entries (fst st)"
  obtain a sec ins where st: "st = (a, sec, ins)" by (cases st)
  obtain ty key val where p: "parseLine l = (ty, key, val)" by (metis prod.collapse)
  have s: "list_all (\<lambda>(k, v). norm_key k = k \<and> trim v = v) (spec_section x a)" for x
    using n by (cases "map_of a (norm_key x)")
      (auto simp: st normal_entries_def spec_section_def list_all_iff dest!: map_of_SomeD)
  have v: "trim val = val" by (rule parse_value_trimmed [OF p])
  have "list_all (\<lambda>(k, v). norm_key k = k \<and> trim v = v) (AList.update (norm_key key) val (spec_section sec a))"
    using s v by (intro list_all_update) simp_all
  with n s show ?thesis
    by (simp add: st p normal_entries_def) (intro conjI impI list_all_update; simp)
qed

text \<open>
  C33: Whatever the bytes of a file, reading it ends in a structure, with no subscript out of
  range: its index of positions is exact, no section is there twice and no key twice in a
  section, every name is trimmed and in lower case, and every value is trimmed.
\<close>

theorem reader_well_formed:
  "\<exists>s. INIReader_read contents empty_map = Inr s \<and> struct_inv s \<and> normal_entries (ini_abs s)"
proof -
  have "normal_entries (fst (fold spec_line ls st))" if "normal_entries (fst st)" for ls st
    using that by (induction ls arbitrary: st) (simp_all del: spec_line.simps add: spec_line_normal)
  then have "normal_entries (spec_read contents)" by (simp add: spec_read_def normal_entries_def)
  with reader_refines [of contents] show ?thesis by metis
qed

section \<open>What is generated is read back\<close>

text \<open>
  C38: A structure whose names and values hold no line ends, no zero bytes and nothing that
  would start a comment or a section is read back exactly as it was, from the text the
  generator makes of it, in both of its layouts; equals signs in keys are escaped and come back.
\<close>

theorem generated_read_back:
  assumes "struct_inv s" and "writable s"
  shows "INIReader_read (INIGenerator_text prettyPrint s) empty_map = Inr s"
  using assms by (rule generated_read)

definition demo_ini :: string where
  "demo_ini = join NEWLINE [''; thresholds'', '' [SecurityPolicy] ; of the policy'', ''Dwell_Periods = 5'', ''a'' @ escaped @ ''b=c=d'', ''t1 ='', '''', ''[http]'']"

lemma demo_ini_entries:
  "spec_read demo_ini = [(''securitypolicy'', [(''dwell_periods'', ''5''), (''a=b'', ''c=d''), (''t1'', [])]), (''http'', [])]"
  by code_simp

theorem generated_read_back_witness:
  "\<exists>s. INIReader_read demo_ini empty_map = Inr s \<and> INIReader_read (INIGenerator_text True s) empty_map = Inr s"
proof -
  obtain s where s: "INIReader_read demo_ini empty_map = Inr s" "struct_inv s" "ini_abs s = spec_read demo_ini"
    using reader_refines by blast
  have "writable s" unfolding writable_def s(3) demo_ini_entries by code_simp
  from s(1) generated_read_back [OF s(2) this, of True] show ?thesis by blast
qed

section \<open>What is rewritten is read back\<close>

text \<open>
  C34: Writing a structure over a file that is there rewrites the file once, and reading it then
  gives exactly the sections, keys and values of the structure: changed values are replaced,
  keys and sections that are gone are left out, new ones are added; and every comment of the
  file is still there, in its order. The names and values must be such that the generator's
  text can be read back, no section is without a name, and no value in the file begins with an
  escaped equals sign, which \<open>escaped_value_stays\<close> shows to be necessary.
\<close>

theorem rewritten_read_back:
  assumes "struct_inv data" and "writable data" and "\<not> ini_has [] data" and "filename \<noteq> []"
    and "os_stat os filename k = (Some kind, k1)" and "os_read os filename k1 = (Some contents, k2)"
    and "list_all plain_value (readFile contents)"
  shows "\<exists>txt s. INIFile_write os filename data prettyPrint k = sys (os_write os filename txt) k2 \<and>
    INIReader_read txt empty_map = Inr s \<and> ini_view s = ini_view data \<and>
    filter is_comment (readFile txt) = filter is_comment (readFile contents)"
proof -
  obtain original where o: "INIReader_read contents empty_map = Inr original" "struct_inv original"
    "ini_abs original = spec_read contents" using reader_refines by blast
  then have "writes data original" "ini_view original = view_of (line_entries None (readFile contents))"
    using assms(1-3) by (simp_all add: writes_def ini_view_def read_view)
  from lazy_output [OF this assms(7), of prettyPrint] obtain out where
    out: "getLazyOutput prettyPrint (kept_lines False (readFile contents)) data original = Inr out"
      "view_of (line_entries None (readFile (join NEWLINE out))) = ini_view data"
      "filter is_comment (readFile (join NEWLINE out)) = filter is_comment (readFile contents)" by blast
  obtain s where "INIReader_read (join NEWLINE out) empty_map = Inr s" "ini_view s = view_of (line_entries None (readFile (join NEWLINE out)))"
    using reader_refines [of "join NEWLINE out"] by (auto simp: ini_view_def read_view)
  moreover have "INIFile_write os filename data prettyPrint k = sys (os_write os filename (join NEWLINE out)) k2"
    using assms(4-6) o(1) out(1) by (simp add: INIFile_write_def INIWriter_write_def act_defs)
  ultimately show ?thesis using out(2,3) by auto
qed

definition demo_wanted :: string where
  "demo_wanted = join NEWLINE [''[http]'', ''port=8080'', ''[securitypolicy]'', ''a'' @ escaped @ ''b=x'', ''dwell_periods=7'']"

definition demo_ini_kernel :: ram where
  "demo_ini_kernel = ram_start\<lparr>ram_files := (''konro.ini'', demo_ini) # ram_files ram_start\<rparr>"

lemma demo_wanted_entries:
  "spec_read demo_wanted = [(''http'', [(''port'', ''8080'')]), (''securitypolicy'', [(''a=b'', ''x''), (''dwell_periods'', ''7'')])]"
  by code_simp

theorem rewritten_read_back_witness:
  "\<exists>data txt s. INIReader_read demo_wanted empty_map = Inr data \<and>
     INIFile_write ram_os ''konro.ini'' data True demo_ini_kernel = sys (os_write ram_os ''konro.ini'' txt) demo_ini_kernel \<and>
     INIReader_read txt empty_map = Inr s \<and> ini_view s = ini_view data \<and> ini_view s ''securitypolicy'' \<noteq> None \<and>
     filter is_comment (readFile txt) = [''; thresholds'']"
proof -
  obtain data where d: "INIReader_read demo_wanted empty_map = Inr data" "struct_inv data" "ini_abs data = spec_read demo_wanted"
    using reader_refines by blast
  have "writable data" unfolding writable_def d(3) demo_wanted_entries by code_simp
  moreover have v: "ini_view data = view_abs (spec_read demo_wanted)" by (simp add: ini_view_def d(3))
  then have "\<not> ini_has [] data" "ini_view data ''securitypolicy'' \<noteq> None"
    using has_view [OF d(2), of "[]"] by (simp_all add: view_abs_def demo_wanted_entries norm_key_def toLower_def trim_def)
  moreover have "os_stat ram_os ''konro.ini'' demo_ini_kernel = (Some Regular, demo_ini_kernel)"
    "os_read ram_os ''konro.ini'' demo_ini_kernel = (Some demo_ini, demo_ini_kernel)"
    by (simp_all add: ram_os_def ram_stat_def ram_read_def demo_ini_kernel_def)
  moreover have "list_all plain_value (readFile demo_ini)" "filter is_comment (readFile demo_ini) = [''; thresholds'']" by code_simp+
  ultimately show ?thesis
    using rewritten_read_back [OF d(2), of "''konro.ini''" ram_os demo_ini_kernel Regular demo_ini_kernel demo_ini demo_ini_kernel True] d(1)
    by auto
qed

text \<open>
  A value that begins with an escaped equals sign: the writer takes the escape for a part of the
  name, and the new value is read with the escape in front.
\<close>

definition one_value :: "string \<Rightarrow> string" where
  "one_value v = join NEWLINE [''[a]'', ''x='' @ v]"

lemma escaped_value_stays:
  "case (INIReader_read (one_value ''5'') empty_map, INIReader_read (one_value (escaped @ ''1'')) empty_map) of
     (Inr data, Inr original) \<Rightarrow>
       getLazyOutput False (kept_lines False (readFile (one_value (escaped @ ''1'')))) data original
         = Inr [''[a]'', ''x='' @ escaped @ ''5'']
   | _ \<Rightarrow> False"
  by code_simp

section \<open>Loading a configuration\<close>

text \<open>
  C32: Loading a configuration file that is there never fails, whatever it holds: the members
  are read from the map of its text, where the last value of a key under any heading of its
  section counts, and the file is read once.
\<close>

theorem file_configures:
  assumes "os_stat os path k = (Some Regular, k')" and "os_read os path k' = (Some contents, k'')"
    and "path = (if configFile = [] then defaultConfigFilePath home else configFile)"
  shows "loadConfiguration os home configFile k = (Inr (Some (read_configuration (text_map contents))), k'')"
  using assms by (rule load_text)

text \<open>The file of \<open>evaldocker/konro.ini\<close>.\<close>

definition shipped_lines :: "string list" where
  "shipped_lines =
     [''[policy]'', ''policy=SecurityAwarePolicy'', '''', ''[policytimer]'', ''timerseconds=30'', '''',
      ''[platformmonitor]'', ''monitorperiod=20'', ''kernelcpumodulenames=coretemp,k10temp,k8temp,cputemp'',
      ''kernelbatterymodulenames=BAT'', '''', ''[http]'', ''listenhost=0.0.0.0'', ''listenport=8080'', '''',
      ''[securitymonitor]'', ''securityperiod=3'', ''weight_fanout=0.30'', ''weight_halfopen=0.25'', ''weight_forkrate=0.15'',
      ''weight_newexec=0.20'', ''weight_cpuburst=0.10'', ''weight_egress=0.15'', ''weight_mem=0.10'', ''weight_rawsocket=0.20'',
      ''ewma_alpha=0.30'', ''publish_threshold=0.30'', '''', ''[securitypolicy]'', ''threshold_t1=0.40'', ''threshold_t2=0.60'',
      ''threshold_t3=0.80'', ''dwell_periods=3'', '''', ''[container]'', ''changecontainercgroup=0'', '''',
      ''[kubernetes]'', ''changekubernetescgroup=0'', '''']"

definition shipped_ini :: string where
  "shipped_ini = join NEWLINE shipped_lines"

definition shipped_kernel :: ram where
  "shipped_kernel = ram_start\<lparr>ram_files := (''konro.ini'', shipped_ini) # ram_files ram_start\<rparr>"

lemma shipped_read: "spec_read shipped_ini = fst (fold spec_line shipped_lines ([], [], False))"
proof -
  have "list_all clean shipped_lines" by code_simp
  then have "file_lines [] shipped_ini = shipped_lines"
    unfolding shipped_ini_def by (rule lines_join [rotated]) (simp add: shipped_lines_def)
  moreover have "shipped_ini \<noteq> []" unfolding shipped_ini_def by (rule join_not_Nil) (simp_all add: shipped_lines_def)
  ultimately show ?thesis by (simp add: spec_read_def readFile_def)
qed

lemma shipped_entries:
  "fst (fold spec_line shipped_lines ([], [], False)) =
     [(''policy'', [(''policy'', ''SecurityAwarePolicy'')]),
      (''policytimer'', [(''timerseconds'', ''30'')]),
      (''platformmonitor'', [(''monitorperiod'', ''20''), (''kernelcpumodulenames'', ''coretemp,k10temp,k8temp,cputemp''),
        (''kernelbatterymodulenames'', ''BAT'')]),
      (''http'', [(''listenhost'', ''0.0.0.0''), (''listenport'', ''8080'')]),
      (''securitymonitor'', [(''securityperiod'', ''3''), (''weight_fanout'', ''0.30''), (''weight_halfopen'', ''0.25''),
        (''weight_forkrate'', ''0.15''), (''weight_newexec'', ''0.20''), (''weight_cpuburst'', ''0.10''), (''weight_egress'', ''0.15''),
        (''weight_mem'', ''0.10''), (''weight_rawsocket'', ''0.20''), (''ewma_alpha'', ''0.30''), (''publish_threshold'', ''0.30'')]),
      (''securitypolicy'', [(''threshold_t1'', ''0.40''), (''threshold_t2'', ''0.60''), (''threshold_t3'', ''0.80''), (''dwell_periods'', ''3'')]),
      (''container'', [(''changecontainercgroup'', ''0'')]), (''kubernetes'', [(''changekubernetescgroup'', ''0'')])]"
  by code_simp

lemma shipped_map:
  "text_map shipped_ini (''policy'', ''policy'') = Some ''SecurityAwarePolicy''"
  "text_map shipped_ini (''securitymonitor'', ''securityperiod'') = Some ''3''"
  "text_map shipped_ini (''container'', ''changecontainercgroup'') = Some ''0''"
  "text_map shipped_ini (''securitypolicy'', ''dwell_periods'') = Some ''3''"
  unfolding text_map_def shipped_read shipped_entries by code_simp+

theorem file_configures_witness:
  "\<exists>c. loadConfiguration ram_os None [] shipped_kernel = (Inr (Some c), shipped_kernel) \<and>
     getPolicyByName (cfgPolicyName c) = SecurityAwarePolicyName \<and> cfgSecurityPeriod c = 3 \<and>
     \<not> cfgChangeContainerCgroup c \<and> cfgDwell c = 3"
proof -
  have "os_stat ram_os ''konro.ini'' shipped_kernel = (Some Regular, shipped_kernel)"
    "os_read ram_os ''konro.ini'' shipped_kernel = (Some shipped_ini, shipped_kernel)"
    by (simp_all add: ram_os_def ram_stat_def ram_read_def shipped_kernel_def)
  from file_configures [OF this, of "[]" None] have
    "loadConfiguration ram_os None [] shipped_kernel = (Inr (Some (read_configuration (text_map shipped_ini))), shipped_kernel)"
    by (simp add: defaultConfigFilePath_def)
  moreover have "stoi ''3'' = Inr 3" "stoi ''0'' = Inr 0" by code_simp+
  ultimately show ?thesis
    by (simp add: read_configuration_def configRead_def read_string_def read_as_def shipped_map getPolicyByName_def)
qed

end
