(* ===== verification/ClientPrograms.thy ===== *)
theory ClientPrograms
  imports KonroLib RamKernel
begin

text \<open>
  The programs of the repository that link \<open>konrolib\<close>: \<open>testkonrolib/testkonrolib.cpp\<close>, which
  registers itself and sends ten feedback messages, and \<open>peopledetect/peopledetect.cpp\<close>, which
  looks for people in a video and reports its frame rate. The HTTP client, the OpenCV library
  and the pauses are arguments; a loop over a camera need not end, so the loop over the frames is
  a partial function.
\<close>

section \<open>Requests\<close>

text \<open>
  The process id, the namespace and the program name, which the library asks the kernel for.
\<close>

record client =
  cl_pid :: int
  cl_ns :: "64 word"
  cl_name :: string

text \<open>\<open>Client::Post\<close> of a path and a body: the body of the reply, or \<open>None\<close> without a reply.\<close>

type_synonym 'w http_post = "string \<Rightarrow> string \<Rightarrow> 'w \<Rightarrow> string option \<times> 'w"

definition sendPost :: "'w http_post \<Rightarrow> string \<times> string \<Rightarrow> ('w, string) act" where
  "sendPost cli req =
     bnd (sys (cli (fst req) (snd req))) (\<lambda>reply. ret (case reply of None \<Rightarrow> [] | Some body \<Rightarrow> body))"

definition add_request :: "'d json_lib \<Rightarrow> client \<Rightarrow> string \<times> string" where
  "add_request lib cl = sendAddMessage lib (cl_pid cl) (cl_ns cl) (cl_name cl) 0"

definition feedback_request :: "'d json_lib \<Rightarrow> client \<Rightarrow> int \<Rightarrow> string \<times> string" where
  "feedback_request lib cl feedback = sendFeedbackMessage lib (cl_pid cl) (cl_ns cl) feedback"

section \<open>The test of the library\<close>

text \<open>The state is the world and the lines printed.\<close>

type_synonym ('w, 'a) console_act = "('w \<times> string list, 'a) act"

definition say :: "string \<Rightarrow> ('w, unit) console_act" where
  "say l = on_snd (modify (\<lambda>ls. ls @ [l]))"

definition no_reply :: string where
  "no_reply = ''Received empty reply (invalid server address?)''"

definition say_reply :: "string \<Rightarrow> ('w, unit) console_act" where
  "say_reply reply = say (if reply = [] then no_reply else ''Received reply: '' @ reply)"

text \<open>The rounds that are left, and \<open>val\<close>, which is sent as an \<open>int\<close>. The world moves during \<open>pause\<close>.\<close>

fun feedback_rounds :: "'d json_lib \<Rightarrow> 'w http_post \<Rightarrow> ('w \<Rightarrow> 'w) \<Rightarrow> client \<Rightarrow> nat \<Rightarrow> bool \<Rightarrow> ('w, unit) console_act" where
  "feedback_rounds lib cli pause cl 0 val = ret ()"
| "feedback_rounds lib cli pause cl (Suc n) val =
     bnd (say ''Sending message'') (\<lambda>_.
     bnd (on_fst (sendPost cli (feedback_request lib cl (of_bool val)))) (\<lambda>reply.
     bnd (say_reply reply) (\<lambda>_.
     bnd (say ''Sleeping'') (\<lambda>_.
     bnd (on_fst (modify pause)) (\<lambda>_.
     feedback_rounds lib cli pause cl n (\<not> val))))))"

definition testkonrolib :: "'d json_lib \<Rightarrow> 'w http_post \<Rightarrow> ('w \<Rightarrow> 'w) \<Rightarrow> client \<Rightarrow> ('w, unit) console_act" where
  "testkonrolib lib cli pause cl =
     bnd (on_fst (sendPost cli (add_request lib cl))) (\<lambda>reply.
     bnd (say_reply reply) (\<lambda>_.
     feedback_rounds lib cli pause cl 10 True))"

section \<open>The people detector\<close>

datatype detector_mode = DefaultMode | DaimlerMode

fun toggleMode :: "detector_mode \<Rightarrow> detector_mode" where
  "toggleMode m = (if m = DefaultMode then DaimlerMode else DefaultMode)"

fun modeName :: "detector_mode \<Rightarrow> string" where
  "modeName m = (if m = DefaultMode then ''Default'' else ''Daimler'')"

record rect =
  r_x :: int
  r_y :: int
  r_width :: int
  r_height :: int

text \<open>
  What the program uses of OpenCV. \<open>cv_scaled a c\<close> is \<open>cvRound\<close> of \<open>a\<close> times \<open>c\<close> hundredths,
  \<open>cv_rate t\<close> the quotient of the tick frequency and \<open>t\<close> without its fraction, and \<open>cv_show\<close> gets
  the rectangles drawn and the mode printed into the frame.
\<close>

record ('w, 'f) vision =
  open_camera :: "int \<Rightarrow> 'w \<Rightarrow> bool \<times> 'w"
  open_video :: "string \<Rightarrow> 'w \<Rightarrow> bool \<times> 'w"
  next_frame :: "'w \<Rightarrow> 'f option \<times> 'w"
  tick_count :: "'w \<Rightarrow> int \<times> 'w"
  default_hog :: "'f \<Rightarrow> 'w \<Rightarrow> rect list \<times> 'w"
  daimler_hog :: "'f \<Rightarrow> 'w \<Rightarrow> rect list \<times> 'w"
  cv_show :: "'f \<Rightarrow> string \<Rightarrow> rect list \<Rightarrow> 'w \<Rightarrow> unit \<times> 'w"
  wait_key :: "'w \<Rightarrow> int \<times> 'w"
  cv_scaled :: "int \<Rightarrow> int \<Rightarrow> int"
  cv_rate :: "int \<Rightarrow> int"

definition detect :: "('w, 'f) vision \<Rightarrow> detector_mode \<Rightarrow> 'f \<Rightarrow> 'w \<Rightarrow> rect list \<times> 'w" where
  "detect cv m = (if m = DefaultMode then default_hog cv else daimler_hog cv)"

definition adjustRect :: "('w, 'f) vision \<Rightarrow> rect \<Rightarrow> rect" where
  "adjustRect cv r =
     \<lparr> r_x = r_x r + cv_scaled cv (r_width r) 10, r_y = r_y r + cv_scaled cv (r_height r) 7,
       r_width = cv_scaled cv (r_width r) 80, r_height = cv_scaled cv (r_height r) 80 \<rparr>"

text \<open>The state: the world, the mode of the detector, \<open>count\<close>, and the requests sent.\<close>

record 'w detector_run =
  dr_world :: 'w
  dr_mode :: detector_mode
  dr_count :: int
  dr_posts :: "(string \<times> string) list"

definition vis :: "('w \<Rightarrow> 'a \<times> 'w) \<Rightarrow> ('w detector_run, 'a) act" where
  "vis f s = (case f (dr_world s) of (x, w) \<Rightarrow> (Inr x, s\<lparr>dr_world := w\<rparr>))"

definition post_request :: "string \<times> string \<Rightarrow> ('w detector_run, unit) act" where
  "post_request req = modify (\<lambda>s. s\<lparr>dr_posts := dr_posts s @ [req]\<rparr>)"

text \<open>
  The report of the rate after a detection of \<open>t\<close> ticks. For \<open>t = 0\<close> the quotient is infinite,
  and a conversion out of the range of \<open>int\<close> is undefined.
\<close>

definition report_rate :: "('w, 'f) vision \<Rightarrow> 'd json_lib \<Rightarrow> client \<Rightarrow> int \<Rightarrow> ('w detector_run, unit) act" where
  "report_rate cv lib cl t =
     (if t = 0 \<or> \<not> is_int32 (cv_rate cv t) then throw (Undefined ''float conversion out of range'')
      else bnd (lift_result (computeFeedback (cv_rate cv t) 30)) (\<lambda>feedback.
        post_request (feedback_request lib cl feedback)))"

definition count_frame :: "('w detector_run, unit) act" where
  "count_frame =
     bnd (gets dr_count) (\<lambda>n.
     if is_int32 (n + 1) then modify (\<lambda>s. s\<lparr>dr_count := n + 1\<rparr>)
     else throw (Undefined ''signed integer overflow''))"

text \<open>The cast of the key to \<open>char\<close>: escape and \<open>q\<close> end the loop, the space bar toggles the mode.\<close>

definition handle_key :: "int \<Rightarrow> ('w detector_run, bool) act" where
  "handle_key key =
     (if key mod 256 = 27 \<or> key mod 256 = 113 then ret False
      else if key mod 256 = 32 then bnd (modify (\<lambda>s. s\<lparr>dr_mode := toggleMode (dr_mode s)\<rparr>)) (\<lambda>_. ret True)
      else ret True)"

text \<open>A round of the loop; \<open>False\<close> where it is left.\<close>

definition detector_round :: "('w, 'f) vision \<Rightarrow> 'd json_lib \<Rightarrow> client \<Rightarrow> ('w detector_run, bool) act" where
  "detector_round cv lib cl =
     bnd (vis (next_frame cv)) (\<lambda>next.
     case next of
       None \<Rightarrow> ret False
     | Some img \<Rightarrow>
         bnd (vis (tick_count cv)) (\<lambda>t0.
         bnd (gets dr_mode) (\<lambda>m.
         bnd (vis (detect cv m img)) (\<lambda>found.
         bnd (vis (tick_count cv)) (\<lambda>t1.
         bnd (vis (cv_show cv img (modeName m) (map (adjustRect cv) found))) (\<lambda>_.
         bnd count_frame (\<lambda>_.
         bnd (gets dr_count) (\<lambda>n.
         bnd (if n mod 90 = 0 then report_rate cv lib cl (t1 - t0) else ret ()) (\<lambda>_.
         bnd (vis (wait_key cv)) handle_key)))))))))"

partial_function (option) detector_loop ::
  "('w, 'f) vision \<Rightarrow> 'd json_lib \<Rightarrow> client \<Rightarrow> 'w detector_run \<Rightarrow> (unit result \<times> 'w detector_run) option" where
  "detector_loop cv lib cl s =
     (case detector_round cv lib cl s of (r, s') \<Rightarrow>
        (case r of
           Inl e \<Rightarrow> Some (Inl e, s')
         | Inr again \<Rightarrow> (if again then detector_loop cv lib cl s' else Some (Inr (), s'))))"

declare detector_loop.simps [code]

text \<open>The command line as the parser of the library has read it.\<close>

record detector_options =
  opt_help :: bool
  opt_camera :: int
  opt_video :: string
  opt_good :: bool

definition peopledetect ::
  "('w, 'f) vision \<Rightarrow> 'd json_lib \<Rightarrow> client \<Rightarrow> detector_options \<Rightarrow> 'w \<Rightarrow> (int result \<times> 'w detector_run) option" where
  "peopledetect cv lib cl opts w =
     (let s = \<lparr> dr_world = w, dr_mode = DefaultMode, dr_count = 0, dr_posts = [] \<rparr> in
      if opt_help opts then Some (Inr 0, s)
      else if \<not> opt_good opts then Some (Inr 1, s)
      else (case (if opt_video opts = [] then open_camera cv (opt_camera opts) else open_video cv (opt_video opts)) w of
              (opened, w') \<Rightarrow>
                if \<not> opened then Some (Inr 2, s\<lparr>dr_world := w'\<rparr>)
                else Option.bind (detector_loop cv lib cl (s\<lparr>dr_world := w', dr_posts := [add_request lib cl]\<rparr>))
                       (\<lambda>(r, s'). Some (map_sum id (\<lambda>_. 0) r, s'))))"

section \<open>What the test publishes\<close>

text \<open>A client that reaches the server: what a handler of the server answers is the reply.\<close>

definition carries :: "('k, 'm) os_scheme \<Rightarrow> 'd json_lib \<Rightarrow> ('k \<times> event list) http_post \<Rightarrow> bool" where
  "carries os lib cli \<longleftrightarrow> (\<forall>path body s reply s'.
     http_request os lib POST path body s = (Inr (Some reply), s') \<longrightarrow> cli path body s = (Some reply, s'))"

definition quiet_pause :: "('k \<times> event list \<Rightarrow> 'k \<times> event list) \<Rightarrow> bool" where
  "quiet_pause pause \<longleftrightarrow> (\<forall>s. snd (pause s) = snd s)"

definition feedback_event :: "client \<Rightarrow> int \<Rightarrow> event" where
  "feedback_event cl fb = FeedbackRequestEvent (cl_pid cl) (unat (cl_ns cl)) fb"

definition replied :: "string list \<Rightarrow> bool" where
  "replied ls \<longleftrightarrow> no_reply \<notin> set ls"

lemma send_carried:
  assumes "carries os lib cli" and "http_request os lib POST path body s = (Inr (Some reply), s')"
  shows "sendPost cli (path, body) s = (Inr reply, s')"
proof -
  have "cli path body s = (Some reply, s')" using assms unfolding carries_def by blast
  then show ?thesis by (simp add: sendPost_def sys_def act_defs)
qed

lemma feedback_sent:
  assumes "carries os lib cli" and "prints_back lib (feedback_message (cl_pid cl) (cl_ns cl) fb)"
    and "is_int32 (cl_pid cl)" and "is_int32 fb"
  shows "\<exists>reply. reply \<noteq> [] \<and> sendPost cli (feedback_request lib cl fb) (k, evs) = (Inr reply, (k, evs @ [feedback_event cl fb]))"
  using send_carried [OF assms(1)] feedback_arrives [OF assms(2-4), of k evs]
  by (fastforce simp: feedback_request_def sendFeedbackMessage_def http_request_def handleFeedbackPost_def answer_def
      feedback_event_def act_defs)

lemma add_sent:
  assumes "carries os lib cli" and "prints_back lib (add_message (cl_pid cl) (cl_ns cl) (cl_name cl) 0)"
    and "is_int32 (cl_pid cl)" and "integrated_kind os (cl_pid cl) (unat (cl_ns cl)) k = (Inr (ty, p), k')"
  shows "\<exists>reply. reply \<noteq> [] \<and> sendPost cli (add_request lib cl) (k, evs)
    = (Inr reply, (k', evs @ [AddRequestEvent (makeApp p ty (cl_name cl) (cl_pid cl) (unat (cl_ns cl)) UNCLASSIFIED)]))"
  using send_carried [OF assms(1)] assms(4)
  by (fastforce simp: add_request_def sendAddMessage_def http_request_def handleAddPost_def answer_def
      add_arrives [OF assms(2,3)] http_publish_def level_of_int_def act_defs)

lemma replied_say: "replied (ls @ [''Sending message'', ''Sleeping'']) = replied ls"
  "reply \<noteq> [] \<Longrightarrow> replied (ls @ [''Received reply: '' @ reply]) = replied ls"
  by (simp_all add: replied_def no_reply_def)

fun alternating :: "nat \<Rightarrow> bool \<Rightarrow> int list" where
  "alternating 0 val = []"
| "alternating (Suc n) val = of_bool val # alternating n (\<not> val)"

lemma rounds_publish:
  assumes "carries os lib cli" and "\<And>fb. fb \<in> {0, 1} \<Longrightarrow> prints_back lib (feedback_message (cl_pid cl) (cl_ns cl) fb)"
    and "is_int32 (cl_pid cl)" and "quiet_pause pause" and "replied ls"
  shows "\<exists>k' ls'. feedback_rounds lib cli pause cl n val ((k, evs), ls)
    = (Inr (), ((k', evs @ map (feedback_event cl) (alternating n val)), ls')) \<and> replied ls'"
  using assms(5)
proof (induction n arbitrary: val k evs ls)
  case (Suc n)
  obtain reply where r: "reply \<noteq> []" "sendPost cli (feedback_request lib cl (of_bool val)) (k, evs)
      = (Inr reply, (k, evs @ [feedback_event cl (of_bool val)]))"
    using feedback_sent [OF assms(1) assms(2) assms(3), of "of_bool val" k evs] by (cases val) (auto simp: is_int32_def)
  obtain k1 where p: "pause (k, evs @ [feedback_event cl (of_bool val)]) = (k1, evs @ [feedback_event cl (of_bool val)])"
    using assms(4) by (metis quiet_pause_def prod.collapse snd_conv)
  let ?ls = "ls @ [''Sending message'', ''Received reply: '' @ reply, ''Sleeping'']"
  have "replied ?ls" using Suc.prems r(1) by (simp add: replied_def no_reply_def)
  from Suc.IH [OF this, of "\<not> val" k1 "evs @ [feedback_event cl (of_bool val)]"] r p show ?case
    by (simp add: say_def say_reply_def act_defs)
qed (simp add: ret_def)

section \<open>What the detector reports\<close>

text \<open>
  A video of \<open>left w\<close> frames that only reading a frame shortens; and a clock of \<open>freq\<close> ticks in a
  second on which a detection takes at least \<open>d\<close> ticks, where \<open>d\<close> is long enough for the hundredfold
  rate to fit \<open>int\<close>: with the clock of a nanosecond that is 47 ticks. A faster detection before a
  report is undefined behaviour.
\<close>

definition finite_video :: "('w, 'f) vision \<Rightarrow> ('w \<Rightarrow> nat) \<Rightarrow> bool" where
  "finite_video cv left \<longleftrightarrow>
     (\<forall>w. case fst (next_frame cv w) of None \<Rightarrow> left w = 0 | Some _ \<Rightarrow> left w = Suc (left (snd (next_frame cv w)))) \<and>
     (\<forall>w img name rs. left (snd (tick_count cv w)) = left w \<and> left (snd (default_hog cv img w)) = left w \<and>
        left (snd (daimler_hog cv img w)) = left w \<and> left (snd (cv_show cv img name rs w)) = left w \<and>
        left (snd (wait_key cv w)) = left w)"

definition timed_video :: "('w, 'f) vision \<Rightarrow> int \<Rightarrow> int \<Rightarrow> bool" where
  "timed_video cv freq d \<longleftrightarrow> 0 < d \<and> 0 < freq \<and> freq \<le> 21474836 * d \<and> (\<forall>t>0. cv_rate cv t = freq div t) \<and>
     (\<forall>w m img. fst (tick_count cv w) + d \<le> fst (tick_count cv (snd (detect cv m img (snd (tick_count cv w))))))"

definition top_feedback :: "int \<Rightarrow> int \<Rightarrow> int" where
  "top_feedback freq d = min (freq div d * 100 div 30) 200"

definition no_exit_key :: "('w, 'f) vision \<Rightarrow> bool" where
  "no_exit_key cv \<longleftrightarrow> (\<forall>w. fst (wait_key cv w) mod 256 \<notin> {27, 113})"

text \<open>One request to be added, then a feedback for every 90 frames.\<close>

definition reported :: "int \<Rightarrow> 'd json_lib \<Rightarrow> client \<Rightarrow> 'w detector_run \<Rightarrow> bool" where
  "reported hi lib cl s \<longleftrightarrow> 0 \<le> dr_count s \<and> (\<exists>fbs. dr_posts s = add_request lib cl # map (feedback_request lib cl) fbs \<and>
     int (length fbs) = dr_count s div 90 \<and> (\<forall>fb\<in>set fbs. 0 \<le> fb \<and> fb \<le> hi))"

lemma next_report: "(n + 1) div 90 = n div 90 + (if (n + 1) mod 90 = 0 then 1 else (0::int))"
proof -
  have r: "0 \<le> n mod 90" "n mod 90 < 90" by simp_all
  have d: "(n + 1) div 90 = n div 90 + (n mod 90 + 1) div 90" using div_add1_eq [of n 1 90] by simp
  have m: "(n + 1) mod 90 = (n mod 90 + 1) mod 90" by (simp add: mod_simps)
  show ?thesis
  proof (cases "n mod 90 = 89")
    case False
    with r have "(n mod 90 + 1) div 90 = 0" "(n mod 90 + 1) mod 90 = n mod 90 + 1" by simp_all
    with d m r show ?thesis by simp
  qed (use d m in simp)
qed

lemma frames_left:
  assumes "finite_video cv left" and "next_frame cv w = (r, w')"
  shows "case r of None \<Rightarrow> left w = 0 | Some _ \<Rightarrow> left w = Suc (left w')"
  using spec [OF conjunct1 [OF assms(1) [unfolded finite_video_def]], of w] unfolding assms(2) by (cases r) simp_all

lemma left_detect: "finite_video cv left \<Longrightarrow> left (snd (detect cv m img w)) = left w"
  by (simp add: finite_video_def detect_def)

lemma rate_reported:
  assumes "timed_video cv freq d" and "d \<le> t"
  shows "\<exists>fb. 0 \<le> fb \<and> fb \<le> top_feedback freq d \<and>
    report_rate cv lib cl t s = (Inr (), s\<lparr>dr_posts := dr_posts s @ [feedback_request lib cl fb]\<rparr>)"
proof -
  have d: "0 < d" "0 < freq" "freq \<le> 21474836 * d" "cv_rate cv t = freq div t" using assms by (auto simp: timed_video_def)
  have le: "freq div t \<le> freq div d" using d(1,2) assms(2) by (intro zdiv_mono2) simp_all
  have "freq div d \<le> 21474836" using d(1,3) zdiv_mono1 [OF d(3) d(1)] by simp
  then have c: "0 \<le> freq div t" "freq div t \<le> 21474836" using le d assms(2) by (simp_all add: pos_imp_zdiv_nonneg_iff)
  let ?fb = "min (freq div t * 100 div 30) 200"
  have f: "computeFeedback (freq div t) 30 = Inr ?fb" using c by (simp add: computeFeedback_pos)
  have "is_int32 (freq div t)" "t \<noteq> 0" using c assms(2) d(1) by (simp_all add: is_int32_def)
  then have "report_rate cv lib cl t s = (Inr (), s\<lparr>dr_posts := dr_posts s @ [feedback_request lib cl ?fb]\<rparr>)"
    by (simp add: report_rate_def d(4) f post_request_def modify_def)
  moreover have "freq div t * 100 div 30 \<le> freq div d * 100 div 30" using le by (intro zdiv_mono1) simp_all
  then have "?fb \<le> top_feedback freq d" by (simp add: top_feedback_def min.coboundedI1)
  ultimately show ?thesis using computeFeedback_bounds [OF f] by blast
qed

lemma fast_detection_undefined:
  assumes "cv_rate cv t = freq div t" and "0 < t" and "21474837 * t \<le> freq"
  shows "\<exists>msg. fst (report_rate cv lib cl t s) = Inl (Undefined msg)"
proof -
  have "21474837 \<le> freq div t" using zdiv_mono1 [OF assms(3,2)] assms(2) by simp
  then have "\<not> is_int32 (freq div t * 100)" by (simp add: is_int32_def)
  then show ?thesis by (auto simp: report_rate_def assms(1) computeFeedback_def act_defs)
qed

lemma round_ends:
  assumes "finite_video cv left" and "left (dr_world s) = 0"
  shows "\<exists>w. detector_round cv lib cl s = (Inr False, s\<lparr>dr_world := w\<rparr>)"
proof -
  obtain r w where "next_frame cv (dr_world s) = (r, w)" by fastforce
  with frames_left [OF assms(1) this] assms(2) have "next_frame cv (dr_world s) = (None, w)" by (cases r) simp_all
  then show ?thesis by (auto simp: detector_round_def vis_def act_defs)
qed

lemma round_reports:
  assumes "finite_video cv left" and "timed_video cv freq d" and "reported (top_feedback freq d) lib cl s"
    and "left (dr_world s) = Suc n" and "dr_count s + 1 < 2 ^ 31"
  shows "\<exists>again s'. detector_round cv lib cl s = (Inr again, s') \<and> reported (top_feedback freq d) lib cl s' \<and> dr_count s' = dr_count s + 1 \<and>
    left (dr_world s') = n \<and> (no_exit_key cv \<longrightarrow> again)"
proof -
  obtain r w1 where r: "next_frame cv (dr_world s) = (r, w1)" by fastforce
  then obtain img where f: "next_frame cv (dr_world s) = (Some img, w1)" "left w1 = n"
    using frames_left [OF assms(1) r] assms(4) by (cases r) auto
  obtain t0 w2 where t0: "tick_count cv w1 = (t0, w2)" by fastforce
  obtain found w3 where dt: "detect cv (dr_mode s) img w2 = (found, w3)" by fastforce
  obtain t1 w4 where t1: "tick_count cv w3 = (t1, w4)" by fastforce
  let ?rs = "map (adjustRect cv) found"
  obtain w5 where sh: "cv_show cv img (modeName (dr_mode s)) ?rs w4 = ((), w5)"
    by (metis (full_types) old.unit.exhaust surj_pair)
  obtain key w6 where k: "wait_key cv w5 = (key, w6)" by fastforce
  have lefts: "left w2 = left w1" "left w4 = left w3" "left w5 = left w4" "left w6 = left w5"
    using assms(1) t0 t1 sh k unfolding finite_video_def by (metis snd_conv)+
  have l: "left w6 = n" using f(2) lefts left_detect [OF assms(1), of "dr_mode s" img w2] dt by simp
  have "fst (tick_count cv w1) + d \<le> fst (tick_count cv (snd (detect cv (dr_mode s) img (snd (tick_count cv w1)))))"
    using assms(2) unfolding timed_video_def by blast
  then have "d \<le> t1 - t0" using t0 t1 dt by simp
  have i: "is_int32 (dr_count s + 1)" using assms(3,5) by (simp add: reported_def is_int32_def)
  let ?s = "s\<lparr>dr_world := w5, dr_count := dr_count s + 1\<rparr>"
  have "\<exists>s2. (if (dr_count s + 1) mod 90 = 0 then report_rate cv lib cl (t1 - t0) else ret ()) ?s = (Inr (), s2) \<and>
    reported (top_feedback freq d) lib cl s2 \<and> dr_count s2 = dr_count s + 1 \<and> dr_world s2 = w5 \<and> dr_mode s2 = dr_mode s"
  proof (cases "(dr_count s + 1) mod 90 = 0")
    case True
    obtain fb where fb: "0 \<le> fb" "fb \<le> top_feedback freq d"
      "report_rate cv lib cl (t1 - t0) ?s = (Inr (), ?s\<lparr>dr_posts := dr_posts ?s @ [feedback_request lib cl fb]\<rparr>)"
      using rate_reported [OF assms(2) \<open>d \<le> t1 - t0\<close>, of lib cl ?s] by blast
    obtain fbs where "dr_posts s = add_request lib cl # map (feedback_request lib cl) fbs"
      "int (length fbs) = dr_count s div 90" "\<forall>fb\<in>set fbs. 0 \<le> fb \<and> fb \<le> top_feedback freq d" "0 \<le> dr_count s"
      using assms(3) by (auto simp: reported_def)
    with fb True show ?thesis
      by (auto simp: reported_def next_report intro!: exI [of _ "fbs @ [fb]"])
  next
    case False
    then show ?thesis using assms(3) by (auto simp: reported_def next_report ret_def)
  qed
  then obtain s2 where s2: "(if (dr_count s + 1) mod 90 = 0 then report_rate cv lib cl (t1 - t0) else ret ()) ?s = (Inr (), s2)"
    "reported (top_feedback freq d) lib cl s2" "dr_count s2 = dr_count s + 1" "dr_world s2 = w5" "dr_mode s2 = dr_mode s" by blast
  have r: "detector_round cv lib cl s = handle_key key (s2\<lparr>dr_world := w6\<rparr>)"
    using s2(1) i by (simp add: detector_round_def count_frame_def vis_def act_defs f(1) t0 dt t1 sh k s2(4) del: modeName.simps)
  have "no_exit_key cv \<longrightarrow> key mod 256 \<noteq> 27 \<and> key mod 256 \<noteq> 113"
    using k unfolding no_exit_key_def by (metis fst_conv insertCI)
  then show ?thesis
    using s2(2,3) l unfolding r by (auto simp: handle_key_def reported_def act_defs)
qed

lemma loop_reports:
  assumes "finite_video cv left" and "timed_video cv freq d" and "reported (top_feedback freq d) lib cl s"
    and "dr_count s + int (left (dr_world s)) < 2 ^ 31"
  shows "\<exists>s'. detector_loop cv lib cl s = Some (Inr (), s') \<and> reported (top_feedback freq d) lib cl s' \<and>
    dr_count s' \<le> dr_count s + int (left (dr_world s)) \<and>
    (no_exit_key cv \<longrightarrow> dr_count s' = dr_count s + int (left (dr_world s)))"
  using assms(3,4)
proof (induction "left (dr_world s)" arbitrary: s)
  case 0
  obtain w where w: "detector_round cv lib cl s = (Inr False, s\<lparr>dr_world := w\<rparr>)"
    using round_ends [OF assms(1), of s] "0.hyps" by metis
  with "0.prems" "0.hyps" show ?case by (subst detector_loop.simps) (simp add: reported_def)
next
  case (Suc n)
  have "dr_count s + 1 < 2 ^ 31" using Suc.prems(2) Suc.hyps(2) by linarith
  from round_reports [OF assms(1,2) Suc.prems(1) Suc.hyps(2) [symmetric] this]
  obtain again s' where r: "detector_round cv lib cl s = (Inr again, s')" "reported (top_feedback freq d) lib cl s'"
    "dr_count s' = dr_count s + 1" "left (dr_world s') = n" "no_exit_key cv \<longrightarrow> again" by blast
  show ?case
  proof (cases again)
    case True
    have "dr_count s' + int (left (dr_world s')) < 2 ^ 31" using Suc.prems(2) Suc.hyps(2) r(3,4) by linarith
    from Suc.hyps(1) [OF r(4) [symmetric] r(2) this] r True Suc.hyps(2) show ?thesis
      by (subst detector_loop.simps) (auto simp: Suc.hyps(2) [symmetric])
  next
    case False
    with r Suc.hyps(2) show ?thesis by (subst detector_loop.simps) (simp add: Suc.hyps(2) [symmetric])
  qed
qed

text \<open>
  Where \<open>cvRound\<close> rounds to a nearest integer, the rectangle drawn lies within the one found,
  when that is at least ten pixels wide and eight high; smaller ones can stick out.
\<close>

definition rounds_nearest :: "('w, 'f) vision \<Rightarrow> bool" where
  "rounds_nearest cv \<longleftrightarrow> (\<forall>a c. \<bar>100 * cv_scaled cv a c - a * c\<bar> \<le> 50)"

lemma adjusted_inside:
  assumes "rounds_nearest cv" and "10 \<le> r_width r" and "8 \<le> r_height r"
  shows "r_x r \<le> r_x (adjustRect cv r)" "r_y r \<le> r_y (adjustRect cv r)"
    and "r_x (adjustRect cv r) + r_width (adjustRect cv r) \<le> r_x r + r_width r"
    and "r_y (adjustRect cv r) + r_height (adjustRect cv r) \<le> r_y r + r_height r"
proof -
  have n: "\<bar>100 * cv_scaled cv a c - a * c\<bar> \<le> 50" for a c using assms(1) by (simp add: rounds_nearest_def)
  show "r_x r \<le> r_x (adjustRect cv r)" "r_y r \<le> r_y (adjustRect cv r)"
    "r_x (adjustRect cv r) + r_width (adjustRect cv r) \<le> r_x r + r_width r"
    "r_y (adjustRect cv r) + r_height (adjustRect cv r) \<le> r_y r + r_height r"
    using n [of "r_width r" 10] n [of "r_width r" 80] n [of "r_height r" 7] n [of "r_height r" 80] assms(2,3)
    by (simp_all add: adjustRect_def)
qed

section \<open>Properties\<close>

text \<open>
  C27: The test of the library against the server: when the client carries every request to the
  handler of its route, and the JSON library prints what it parses, the eleven requests are
  published as eleven events in their order, one that registers the process and ten of
  feedback that alternate between 1 and 0, and no reply is empty.
\<close>

theorem test_publishes:
  assumes "carries os lib cli" and "prints_back lib (add_message (cl_pid cl) (cl_ns cl) (cl_name cl) 0)"
    and "\<And>fb. fb \<in> {0, 1} \<Longrightarrow> prints_back lib (feedback_message (cl_pid cl) (cl_ns cl) fb)"
    and "is_int32 (cl_pid cl)" and "quiet_pause pause"
    and "integrated_kind os (cl_pid cl) (unat (cl_ns cl)) k = (Inr (ty, p), k')"
  shows "\<exists>k'' ls. testkonrolib lib cli pause cl ((k, evs), []) = (Inr (), ((k'', evs @
      AddRequestEvent (makeApp p ty (cl_name cl) (cl_pid cl) (unat (cl_ns cl)) UNCLASSIFIED) #
      map (feedback_event cl) [1, 0, 1, 0, 1, 0, 1, 0, 1, 0]), ls)) \<and> no_reply \<notin> set ls"
proof -
  let ?evs = "evs @ [AddRequestEvent (makeApp p ty (cl_name cl) (cl_pid cl) (unat (cl_ns cl)) UNCLASSIFIED)]"
  obtain reply where r: "reply \<noteq> []" "sendPost cli (add_request lib cl) (k, evs) = (Inr reply, (k', ?evs))"
    using add_sent [OF assms(1,2,4,6), of evs] by blast
  have "replied [''Received reply: '' @ reply]" by (simp add: replied_def no_reply_def)
  from rounds_publish [OF assms(1) assms(3) assms(4,5) this, of 10 True k' ?evs] r(1)
  show ?thesis by (auto simp: testkonrolib_def say_reply_def say_def act_defs r(2) replied_def numeral_eq_Suc)
qed

text \<open>A JSON library for the documents of a list: the name of a document is its position.\<close>

definition documents :: "unit json list \<Rightarrow> unit json_lib" where
  "documents js =
     \<lparr> json_parse = (\<lambda>s. if length s < length js then Some (reread (js ! length s)) else None),
       json_dump = (\<lambda>j. replicate (length (takeWhile (\<lambda>x. x \<noteq> j) js)) CHR ''a''),
       double_to_int = (\<lambda>_. Inl (Undefined ''no doubles'')), double_to_u64 = (\<lambda>_. Inl (Undefined ''no doubles'')) \<rparr>"

lemma documents_print: "j \<in> set js \<Longrightarrow> prints_back (documents js) j"
proof -
  assume j: "j \<in> set js"
  have l: "length (takeWhile (\<lambda>x. x \<noteq> j) js) < length js"
    using j by (metis (mono_tags, lifting) length_takeWhile_le nat_less_le takeWhile_eq_all_conv takeWhile_eq_take take_all_iff order_refl)
  then show ?thesis using nth_length_takeWhile [OF l] by (simp add: prints_back_def documents_def)
qed

text \<open>A client in the process of the server.\<close>

definition direct_post :: "('k, 'm) os_scheme \<Rightarrow> 'd json_lib \<Rightarrow> ('k \<times> event list) http_post" where
  "direct_post os lib path body s =
     (case http_request os lib POST path body s of
        (Inr (Some reply), s') \<Rightarrow> (Some reply, s')
      | (_, s') \<Rightarrow> (None, s'))"

lemma direct_carries: "carries os lib (direct_post os lib)"
  by (simp add: carries_def direct_post_def)

definition demo_client :: client where
  "demo_client = \<lparr> cl_pid = 42, cl_ns = 7, cl_name = ''demo'' \<rparr>"

definition demo_documents :: "unit json list" where
  "demo_documents = [add_message 42 7 ''demo'' 0, feedback_message 42 7 0, feedback_message 42 7 1]"

theorem test_publishes_witness:
  "\<exists>k'' ls. testkonrolib (documents demo_documents) (direct_post ram_os (documents demo_documents)) id demo_client ((ram_start, []), [])
    = (Inr (), ((k'', AddRequestEvent (makeApp 42 INTEGRATED ''demo'' 42 7 UNCLASSIFIED) #
      map (feedback_event demo_client) [1, 0, 1, 0, 1, 0, 1, 0, 1, 0]), ls)) \<and> no_reply \<notin> set ls"
proof -
  let ?cl = demo_client
  have c: "cl_pid ?cl = 42" "cl_ns ?cl = 7" "cl_name ?cl = ''demo''" by (simp_all add: demo_client_def)
  have k: "integrated_kind ram_os (cl_pid ?cl) (unat (cl_ns ?cl)) ram_start = (Inr (INTEGRATED, 42), ram_start)"
    by (simp add: c integrated_kind_def mapPid_def getSelfPidNamespace_def ram_os_def act_defs)
  have "prints_back (documents demo_documents) (add_message (cl_pid ?cl) (cl_ns ?cl) (cl_name ?cl) 0)"
    by (rule documents_print) (simp add: c demo_documents_def)
  moreover have "prints_back (documents demo_documents) (feedback_message (cl_pid ?cl) (cl_ns ?cl) fb)" if "fb \<in> {0, 1}" for fb
    using that by (intro documents_print) (auto simp: c demo_documents_def)
  ultimately show ?thesis
    using test_publishes [OF direct_carries _ _ _ _ k, of "documents demo_documents" id "[]"]
    by (simp add: c is_int32_def quiet_pause_def)
qed

text \<open>
  C36: The people detector on a video: for a video of finitely many frames, fewer than \<open>int\<close>
  counts, on which no detection is so fast that the rate overflows, the program ends with the
  exit code 0, having sent the request to be added and then one feedback for every 90 frames
  counted, between 0 and what the fastest detection gives, 200 at most; and without a key that
  ends it every frame is counted.
\<close>

theorem detector_reports:
  assumes "finite_video cv left" and "timed_video cv freq d" and "open_video cv (opt_video opts) w = (True, w')"
    and "\<not> opt_help opts" and "opt_good opts" and "opt_video opts \<noteq> []" and "int (left w') < 2 ^ 31"
  shows "\<exists>s' fbs. peopledetect cv lib cl opts w = Some (Inr 0, s') \<and>
    dr_posts s' = add_request lib cl # map (feedback_request lib cl) fbs \<and>
    int (length fbs) = dr_count s' div 90 \<and> set fbs \<subseteq> {0..top_feedback freq d} \<and> dr_count s' \<le> int (left w') \<and>
    (no_exit_key cv \<longrightarrow> dr_count s' = int (left w'))"
proof -
  let ?s = "\<lparr> dr_world = w', dr_mode = DefaultMode, dr_count = 0, dr_posts = [add_request lib cl] \<rparr>"
  have "reported (top_feedback freq d) lib cl ?s" by (simp add: reported_def)
  with loop_reports [OF assms(1,2), of lib cl ?s] assms(7)
  obtain s' where s': "detector_loop cv lib cl ?s = Some (Inr (), s')" "reported (top_feedback freq d) lib cl s'"
    "dr_count s' \<le> int (left w')" "no_exit_key cv \<longrightarrow> dr_count s' = int (left w')" by auto
  have "peopledetect cv lib cl opts w = Some (Inr 0, s')"
    using assms(3-6) s'(1) by (simp add: peopledetect_def)
  with s'(2-4) show ?thesis by (fastforce simp: reported_def)
qed

text \<open>
  A video whose world is the number of the frames left and the time in nanoseconds, and a detector
  that needs 40 milliseconds for a frame.
\<close>

definition demo_video :: "(nat \<times> int, nat) vision" where
  "demo_video =
     \<lparr> open_camera = (\<lambda>_ w. (False, w)), open_video = (\<lambda>_ w. (True, w)),
       next_frame = (\<lambda>(n, t). case n of 0 \<Rightarrow> (None, (0, t)) | Suc m \<Rightarrow> (Some n, (m, t))),
       tick_count = (\<lambda>(n, t). (t, (n, t))), default_hog = (\<lambda>_ (n, t). ([], (n, t + 40000000))),
       daimler_hog = (\<lambda>_ (n, t). ([], (n, t + 40000000))),
       cv_show = (\<lambda>_ _ _ w. ((), w)), wait_key = (\<lambda>w. (255, w)),
       cv_scaled = (\<lambda>a c. (a * c + 50) div 100), cv_rate = (\<lambda>t. 1000000000 div t) \<rparr>"

theorem detector_reports_witness:
  "\<exists>s' fbs. peopledetect demo_video (documents []) demo_client
      \<lparr> opt_help = False, opt_camera = 0, opt_video = ''a.mp4'', opt_good = True \<rparr> (200, 0) = Some (Inr 0, s') \<and>
    dr_posts s' = add_request (documents []) demo_client # map (feedback_request (documents []) demo_client) fbs \<and>
    length fbs = 2 \<and> set fbs \<subseteq> {0..83} \<and> dr_count s' = 200"
proof -
  have f: "finite_video demo_video fst"
    by (auto simp: finite_video_def demo_video_def split: nat.split)
  have t: "timed_video demo_video 1000000000 40000000"
    by (auto simp: timed_video_def demo_video_def detect_def)
  have b: "top_feedback 1000000000 40000000 = 83" by (simp add: top_feedback_def)
  have n: "no_exit_key demo_video" by (simp add: no_exit_key_def demo_video_def)
  have "open_video demo_video ''a.mp4'' (200, 0) = (True, (200, 0))" by (simp add: demo_video_def)
  with detector_reports [OF f t, of "\<lparr> opt_help = False, opt_camera = 0, opt_video = ''a.mp4'', opt_good = True \<rparr>" "(200, 0)" "(200, 0)"
      "documents []" demo_client, unfolded b] n
  show ?thesis by fastforce
qed

end
