(* ===== verification/KonroTimer.thy ===== *)
theory KonroTimer
  imports Os
begin

text \<open>
  \<open>rm/librmcommon/timer.h\<close> and \<open>threadname.h\<close>. A point in time is the number of nanoseconds since
  the epoch, as the clock of \<open>std::chrono\<close> has it, and \<open>Timer<T>\<close> takes the length of the unit
  \<open>T\<close> in nanoseconds. The clock is an argument: every reading changes its state. Shown are the
  conversions to and from a \<open>timespec\<close>, which invert each other, within the range of the
  64-bit counts, and what \<open>Elapsed\<close> measures.
\<close>

section \<open>Conversions\<close>

text \<open>\<open>duration_cast\<close> rounds towards zero.\<close>

definition duration_cast :: "int \<Rightarrow> int \<Rightarrow> int" where
  "duration_cast unit ns = sgn ns * (\<bar>ns\<bar> div unit)"

definition SECOND :: int where
  "SECOND = 1000000000"

record timespec =
  tv_sec :: int
  tv_nsec :: int

definition timepointToTimespec :: "int \<Rightarrow> timespec" where
  "timepointToTimespec tp =
     (let secs = duration_cast SECOND tp;
          secs = (if secs * SECOND > tp then secs - 1 else secs)
      in \<lparr> tv_sec = secs, tv_nsec = tp - secs * SECOND \<rparr>)"

definition timespecToTimepoint :: "timespec \<Rightarrow> int" where
  "timespecToTimepoint ts = tv_sec ts * SECOND + tv_nsec ts"

text \<open>\<open>CLOCK_REALTIME\<close> is an argument; \<open>/\<close> rounds towards zero here too.\<close>

definition getSystemMicroseconds :: "('k \<Rightarrow> timespec \<times> 'k) \<Rightarrow> ('k, int) act" where
  "getSystemMicroseconds realtime =
     bnd (sys realtime) (\<lambda>ts. ret (tv_sec ts * 1000000 + duration_cast 1000 (tv_nsec ts)))"

section \<open>The timer\<close>

datatype timer_mode = TIMER_CONTINUE | TIMER_RESTART

type_synonym 'k clock = "'k \<Rightarrow> int \<times> 'k"

text \<open>The state is that of the clock, and \<open>start_\<close>.\<close>

definition Timer_now :: "'k clock \<Rightarrow> ('k, int) act" where
  "Timer_now clk = sys clk"

definition Restart :: "'k clock \<Rightarrow> ('k \<times> int, unit) act" where
  "Restart clk = bnd (on_fst (Timer_now clk)) (\<lambda>t. modify (\<lambda>(k, start). (k, t)))"

definition ElapsedFrom :: "'k clock \<Rightarrow> int \<Rightarrow> int \<Rightarrow> ('k, int) act" where
  "ElapsedFrom clk unit start = bnd (Timer_now clk) (\<lambda>t. ret (duration_cast unit (t - start)))"

definition Elapsed :: "'k clock \<Rightarrow> int \<Rightarrow> timer_mode \<Rightarrow> ('k \<times> int, int) act" where
  "Elapsed clk unit mode =
     bnd (on_fst (Timer_now clk)) (\<lambda>cur.
     bnd (gets snd) (\<lambda>start.
     bnd (on_fst (ElapsedFrom clk unit start)) (\<lambda>val.
     bnd (if mode = TIMER_RESTART then Restart clk else ret ()) (\<lambda>_.
     ret val))))"

text \<open>\<open>KonroTimer\<close> counts microseconds.\<close>

definition KonroTimer_unit :: int where
  "KonroTimer_unit = 1000"

section \<open>Thread names\<close>

text \<open>
  The system keeps a name of at most 15 characters for a thread; a longer one is refused, and
  \<open>setThreadName\<close> does not look at the error.
\<close>

definition setThreadName :: "string \<Rightarrow> string \<Rightarrow> string" where
  "setThreadName new old = (if length new \<le> 15 then new else old)"

definition getThreadName :: "string \<Rightarrow> string" where
  "getThreadName name = name"

section \<open>Facts on the conversions\<close>

lemma duration_cast_nonneg: "0 \<le> ns \<Longrightarrow> duration_cast unit ns = ns div unit"
  by (cases "ns = 0") (simp_all add: duration_cast_def)

lemma duration_cast_neg: "ns < 0 \<Longrightarrow> duration_cast unit ns = - ((- ns) div unit)"
  by (simp add: duration_cast_def)

lemma minus_div: "(- (a::int)) div b = - (a div b) - (if a mod b = 0 then 0 else 1)" if "0 < b"
  using that by (simp add: zdiv_zminus1_eq_if)

text \<open>The correction by one second makes the rounding towards zero one downwards.\<close>

lemma timepointToTimespec_div: "timepointToTimespec tp = \<lparr> tv_sec = tp div SECOND, tv_nsec = tp mod SECOND \<rparr>"
proof (cases "0 \<le> tp")
  case True
  have "tp div SECOND * SECOND \<le> tp"
    using div_mult_mod_eq [of tp SECOND] pos_mod_sign [of SECOND tp] by (simp add: SECOND_def)
  with True show ?thesis
    by (simp add: timepointToTimespec_def duration_cast_nonneg minus_div_mult_eq_mod)
next
  case False
  let ?q = "- ((- tp) div SECOND)"
  have q: "duration_cast SECOND tp = ?q" using False by (simp add: duration_cast_neg)
  have tp: "tp = tp div SECOND * SECOND + tp mod SECOND" by simp
  have s: "(- tp) div SECOND = - (tp div SECOND) - (if tp mod SECOND = 0 then 0 else 1)"
    by (rule minus_div) (simp add: SECOND_def)
  have m: "0 \<le> tp mod SECOND" "tp mod SECOND < SECOND" by (simp_all add: SECOND_def)
  show ?thesis
  proof (cases "tp mod SECOND = 0")
    case True
    with q s tp show ?thesis by (simp add: timepointToTimespec_def)
  next
    case False
    then have "?q = tp div SECOND + 1" using s by simp
    moreover have "(tp div SECOND + 1) * SECOND = tp - tp mod SECOND + SECOND"
      using tp by (simp add: algebra_simps minus_mod_eq_mult_div)
    ultimately show ?thesis
      using q m by (simp add: timepointToTimespec_def minus_div_mult_eq_mod)
  qed
qed

text \<open>No count on the way leaves 64 bits, for all but the first second that they can hold.\<close>

lemma counts_fit:
  assumes "- (2 ^ 63) + SECOND \<le> tp" and "tp < 2 ^ 63"
  shows "- (2 ^ 63) \<le> tp div SECOND * SECOND" "tp div SECOND * SECOND < 2 ^ 63"
    and "\<bar>duration_cast SECOND tp * SECOND\<bar> \<le> \<bar>tp\<bar>"
proof -
  have m: "0 \<le> tp mod SECOND" "tp mod SECOND < SECOND" by (simp_all add: SECOND_def)
  then show "- (2 ^ 63) \<le> tp div SECOND * SECOND" "tp div SECOND * SECOND < 2 ^ 63"
    using assms div_mult_mod_eq [of tp SECOND] by linarith+
  have "\<bar>tp\<bar> div SECOND * SECOND \<le> \<bar>tp\<bar>"
    using div_mult_mod_eq [of "\<bar>tp\<bar>" SECOND] pos_mod_sign [of SECOND "\<bar>tp\<bar>"] by (simp add: SECOND_def)
  then show "\<bar>duration_cast SECOND tp * SECOND\<bar> \<le> \<bar>tp\<bar>"
    by (cases "tp = 0") (simp_all add: duration_cast_def abs_mult abs_sgn_eq SECOND_def)
qed

section \<open>Facts on the timer\<close>

lemma Elapsed_continue: "Elapsed clk unit TIMER_CONTINUE (k, start) =
   (let k1 = snd (clk k); (t, k2) = clk k1 in (Inr (duration_cast unit (t - start)), (k2, start)))"
  by (simp add: Elapsed_def ElapsedFrom_def Timer_now_def sys_def act_defs Let_def split: prod.splits)

lemma Elapsed_restart: "Elapsed clk unit TIMER_RESTART (k, start) =
   (let k1 = snd (clk k); (t, k2) = clk k1; (t', k3) = clk k2 in (Inr (duration_cast unit (t - start)), (k3, t')))"
  by (simp add: Elapsed_def ElapsedFrom_def Restart_def Timer_now_def sys_def act_defs Let_def split: prod.splits)

text \<open>
  The first reading is thrown away, the duration ends with the second and the next one begins
  with the third: of a clock that moves by \<open>d\<close> at every reading, each lap loses \<open>d\<close>.
\<close>

lemma laps_lose_time:
  "Elapsed (\<lambda>k. (k + d, k + d)) 1 TIMER_RESTART (k, k) = (Inr (duration_cast 1 (2 * d)), (k + 3 * d, k + 3 * d))"
  by (simp add: Elapsed_restart Let_def)

text \<open>A clock that does not go back measures no negative time.\<close>

lemma Elapsed_nonneg:
  assumes "\<And>k. start \<le> fst (clk k)" and "0 < unit" and "Elapsed clk unit mode (k, start) = (Inr v, s)"
  shows "0 \<le> v"
proof -
  have "0 \<le> duration_cast unit (fst (clk k') - start)" for k'
    using assms(1) [of k'] assms(2) by (simp add: duration_cast_nonneg pos_imp_zdiv_nonneg_iff)
  moreover have "v = duration_cast unit (fst (clk (snd (clk k))) - start)"
    using assms(3) by (cases mode) (auto simp: Elapsed_continue Elapsed_restart Let_def split: prod.splits)
  ultimately show ?thesis by simp
qed

end
