(* ===== verification/TrialPrograms.thy ===== *)
theory TrialPrograms
  imports CgroupControl KonroTimer RamKernel
begin

text \<open>
  The repository's trials of its wrappers of the system: \<open>testnamespaces/testnamespaces.cpp\<close>,
  which makes a process in a new namespace and maps its id back, \<open>testtimer/testtimer.cpp\<close>, which
  compares two ways to measure a pause, and \<open>testplatformcontrol/test_findcgrouppath.cpp\<close>. What
  they print is kept as values, one for each line.
\<close>

section \<open>Namespaces\<close>

datatype ns_request = NS_GET_USERNS | NS_GET_PARENT

text \<open>
  The calls beside those of \<open>Os\<close>: \<open>fstat\<close> (the major and minor number and the inode), the two
  kinds of \<open>ioctl\<close>, \<open>close\<close>, \<open>open\<close>, \<open>pipe\<close>, \<open>clone\<close>, and \<open>getpid\<close> in the child and in the parent. A
  negative number is an error.
\<close>

record 'k ns_os = "'k os" +
  ns_fstat :: "int \<Rightarrow> 'k \<Rightarrow> (nat \<times> nat \<times> nat) option \<times> 'k"
  ns_type :: "int \<Rightarrow> 'k \<Rightarrow> int \<times> 'k"
  ns_related :: "ns_request \<Rightarrow> int \<Rightarrow> 'k \<Rightarrow> int \<times> 'k"
  ns_close :: "int \<Rightarrow> 'k \<Rightarrow> unit \<times> 'k"
  ns_open :: "string \<Rightarrow> 'k \<Rightarrow> int \<times> 'k"
  ns_pipe :: "'k \<Rightarrow> bool \<times> 'k"
  ns_clone :: "'k \<Rightarrow> int \<times> 'k"
  child_getpid :: "'k \<Rightarrow> int \<times> 'k"
  main_getpid :: "'k \<Rightarrow> int \<times> 'k"

datatype ns_line =
    Title string
  | Namespace "nat \<times> nat \<times> nat"
  | OwnType string int
  | Related string "nat \<times> nat \<times> nat"
  | RelatedType string int
  | Perror string
  | ChildPid int
  | ChildIs int nat
  | MainPid int
  | CloneGave int
  | BytesRead
  | MainGot int nat
  | MappedPid int

text \<open>
  The state: the kernel, the lines printed by both processes, and the two numbers that the child
  writes into the pipe. \<open>exit\<close> and a \<open>return\<close> from \<open>main\<close> give the status as the value.
\<close>

record 'k ns_trial =
  tr_kernel :: 'k
  tr_lines :: "ns_line list"
  tr_pipe :: "(int \<times> nat) list"

definition ns_call :: "('k \<Rightarrow> 'a \<times> 'k) \<Rightarrow> ('k ns_trial, 'a) act" where
  "ns_call f s = (case f (tr_kernel s) of (x, k) \<Rightarrow> (Inr x, s\<lparr>tr_kernel := k\<rparr>))"

definition ns_act :: "('k, 'a) act \<Rightarrow> ('k ns_trial, 'a) act" where
  "ns_act m s = (case m (tr_kernel s) of (r, k) \<Rightarrow> (r, s\<lparr>tr_kernel := k\<rparr>))"

definition ns_print :: "ns_line \<Rightarrow> ('k ns_trial, unit) act" where
  "ns_print l = modify (\<lambda>s. s\<lparr>tr_lines := tr_lines s @ [l]\<rparr>)"

text \<open>\<open>get_namespace\<close>: \<open>True\<close> where it returns, \<open>False\<close> where it ends the process.\<close>

definition get_namespace :: "('k, 'm) ns_os_scheme \<Rightarrow> string \<Rightarrow> int \<Rightarrow> ns_request \<Rightarrow> ('k ns_trial, bool) act" where
  "get_namespace os msg fd request =
     bnd (ns_print (Title msg)) (\<lambda>_.
     bnd (ns_call (ns_fstat os fd)) (\<lambda>sb.
     case sb of
       None \<Rightarrow> bnd (ns_print (Perror ''fstat-fd'')) (\<lambda>_. ret False)
     | Some ns \<Rightarrow>
         bnd (ns_print (Namespace ns)) (\<lambda>_.
         bnd (ns_call (ns_type os fd)) (\<lambda>ty.
         if ty = - 1 then bnd (ns_print (Perror ''NS_GET_NSTYPE'')) (\<lambda>_. ret True)
         else
           bnd (ns_print (OwnType msg ty)) (\<lambda>_.
           bnd (ns_call (ns_related os request fd)) (\<lambda>nsfd.
           if nsfd = - 1 then bnd (ns_print (Perror msg)) (\<lambda>_. ret True)
           else
             bnd (ns_call (ns_fstat os nsfd)) (\<lambda>sb.
             case sb of
               None \<Rightarrow> bnd (ns_print (Perror ''fstat-userns'')) (\<lambda>_. ret False)
             | Some ns \<Rightarrow>
                 bnd (ns_print (Related msg ns)) (\<lambda>_.
                 bnd (ns_call (ns_close os nsfd)) (\<lambda>_.
                 bnd (ns_call (ns_type os nsfd)) (\<lambda>ty.
                 if ty = - 1 then bnd (ns_print (Perror ''NS_GET_NSTYPE'')) (\<lambda>_. ret True)
                 else
                   bnd (ns_print (RelatedType msg ty)) (\<lambda>_.
                   bnd (ns_call (ns_close os ty)) (\<lambda>_. ret True))))))))))))"

text \<open>The child writes its process id, as it sees it, and its namespace; then it sleeps and ends.\<close>

definition child_fn :: "('k, 'm) ns_os_scheme \<Rightarrow> ('k ns_trial, unit) act" where
  "child_fn os =
     bnd (ns_call (child_getpid os)) (\<lambda>pid.
     bnd (ns_print (ChildPid pid)) (\<lambda>_.
     bnd (ns_call (ns_open os ''/proc/self/ns/pid'')) (\<lambda>fd.
     if fd = - 1 then ns_print (Perror ''open /proc/self/ns/pid'')
     else
       bnd (get_namespace os ''Owning user namespace'' fd NS_GET_USERNS) (\<lambda>goes_on.
       if \<not> goes_on then ret ()
       else
         bnd (get_namespace os ''Parent user namespace'' fd NS_GET_PARENT) (\<lambda>goes_on.
         if \<not> goes_on then ret ()
         else
           bnd (ns_call (ns_close os fd)) (\<lambda>_.
           bnd (ns_call (child_getpid os)) (\<lambda>mypid.
           bnd (ns_act (getSelfPidNamespace os)) (\<lambda>myns.
           bnd (modify (\<lambda>s. s\<lparr>tr_pipe := tr_pipe s @ [(mypid, myns)]\<rparr>)) (\<lambda>_.
           ns_print (ChildIs mypid myns))))))))))"

text \<open>
  \<open>main\<close>, with the child running up to its end before the pipe is read: the lines of the two
  processes can come in another order. The process itself holds the end of the pipe that is
  written to, so that reading an empty pipe never returns: \<open>None\<close>.
\<close>

definition read_pipe :: "('k, 'm) ns_os_scheme \<Rightarrow> 'k ns_trial \<Rightarrow> (int result \<times> 'k ns_trial) option" where
  "read_pipe os s =
     (case tr_pipe s of
        [] \<Rightarrow> None
      | (pid, ns) # rest \<Rightarrow>
          Some (bnd (ns_print BytesRead) (\<lambda>_.
                bnd (ns_print BytesRead) (\<lambda>_.
                bnd (ns_print (MainGot pid ns)) (\<lambda>_.
                bnd (ns_act (mapPid os (to_int32 pid) ns)) (\<lambda>mapped.
                bnd (ns_print (MappedPid mapped)) (\<lambda>_.
                ret 0))))) (s\<lparr>tr_pipe := rest\<rparr>)))"

definition testnamespaces :: "('k, 'm) ns_os_scheme \<Rightarrow> 'k \<Rightarrow> (int result \<times> 'k ns_trial) option" where
  "testnamespaces os k =
     (case ns_pipe os k of (piped, k) \<Rightarrow>
        if \<not> piped then Some (Inr 1, \<lparr> tr_kernel = k, tr_lines = [Perror ''pipe''], tr_pipe = [] \<rparr>)
        else (case ns_clone os k of (child, k) \<Rightarrow>
          (case bnd (if child = - 1 then ret () else child_fn os) (\<lambda>_.
                bnd (ns_call (main_getpid os)) (\<lambda>pid.
                bnd (ns_print (MainPid pid)) (\<lambda>_.
                ns_print (CloneGave child)))) \<lparr> tr_kernel = k, tr_lines = [], tr_pipe = [] \<rparr> of
             (Inl e, s) \<Rightarrow> Some (Inl e, s)
           | (Inr _, s) \<Rightarrow> read_pipe os s)))"

section \<open>The timer\<close>

text \<open>
  Two ways to measure a pause: by the system clock, in whole microseconds, and by \<open>KonroTimer\<close>.
\<close>

definition testtimer :: "('k \<Rightarrow> timespec \<times> 'k) \<Rightarrow> 'k clock \<Rightarrow> ('k \<Rightarrow> 'k) \<Rightarrow> ('k \<times> int, int \<times> int) act" where
  "testtimer realtime clk pause =
     bnd (on_fst (getSystemMicroseconds realtime)) (\<lambda>micros1.
     bnd (Restart clk) (\<lambda>_.
     bnd (on_fst (modify pause)) (\<lambda>_.
     bnd (on_fst (getSystemMicroseconds realtime)) (\<lambda>micros2.
     bnd (Elapsed clk KonroTimer_unit TIMER_CONTINUE) (\<lambda>ms.
     ret (micros2 - micros1, ms))))))"

section \<open>The path of a cgroup\<close>

definition testFind1 :: "('k, 'm) platform_scheme \<Rightarrow> ('k, bool) act" where
  "testFind1 pf = bnd (findCgroupPath pf 1) (\<lambda>path1. ret (path1 = ''/sys/fs/cgroup/init.scope''))"

definition test_findcgrouppath :: "('k, 'm) platform_scheme \<Rightarrow> ('k, bool) act" where
  "test_findcgrouppath pf = bnd (testFind1 pf) (\<lambda>passed. ret passed)"

section \<open>What the trials show\<close>

text \<open>
  The descriptor of the related namespace is closed before its type is asked for. On a kernel
  where a closed descriptor is refused, the last line is never printed.
\<close>

definition closed_refused :: "('k, 'm) ns_os_scheme \<Rightarrow> bool" where
  "closed_refused os \<longleftrightarrow> (\<forall>fd k. fst (ns_type os fd (snd (ns_close os fd k))) = - 1)"

definition no_related_type :: "'k ns_trial \<Rightarrow> bool" where
  "no_related_type s \<longleftrightarrow> (\<forall>msg ty. RelatedType msg ty \<notin> set (tr_lines s))"

lemma keeps_ns [keeps_intros]:
  "keeps no_related_type (ns_call f)" "keeps no_related_type (ns_act m)"
  "(\<And>msg ty. l \<noteq> RelatedType msg ty) \<Longrightarrow> keeps no_related_type (ns_print l)"
  by (auto simp: keeps_def no_related_type_def ns_call_def ns_act_def ns_print_def modify_def split: prod.split)

lemma related_type_refused:
  assumes "closed_refused os"
  shows "keeps no_related_type (get_namespace os msg fd request)"
proof (rule keepsI)
  fix s :: "'a ns_trial" assume "no_related_type s"
  then show "no_related_type (snd (get_namespace os msg fd request s))"
    using assms
    by (auto simp: get_namespace_def no_related_type_def closed_refused_def ns_call_def ns_print_def act_defs
        split: prod.split option.split) (metis fst_conv snd_conv)+
qed

text \<open>Without a child that writes, the program waits for ever.\<close>

lemma clone_fails: "ns_pipe os k = (True, k1) \<Longrightarrow> ns_clone os k1 = (- 1, k2) \<Longrightarrow> testnamespaces os k = None"
  by (simp add: testnamespaces_def read_pipe_def ns_call_def ns_print_def act_defs split: prod.split)

lemma child_cannot_open:
  assumes "ns_pipe os k = (True, k1)" and "ns_clone os k1 = (child, k2)"
    and "child_getpid os k2 = (pid, k3)" and "fst (ns_open os ''/proc/self/ns/pid'' k3) = - 1"
  shows "testnamespaces os k = None"
  using assms
  by (cases "ns_open os ''/proc/self/ns/pid'' k3")
     (simp add: testnamespaces_def child_fn_def read_pipe_def ns_call_def ns_print_def act_defs split: prod.split)

text \<open>Once the child has written, \<open>main\<close> ends with the id that \<open>mapPid\<close> gives for what it read.\<close>

lemma main_maps:
  assumes "tr_pipe s = [(pid, ns)]" and "mapPid os (to_int32 pid) ns (tr_kernel s) = (Inr p, k')"
  shows "read_pipe os s = Some (Inr 0, s\<lparr>tr_kernel := k', tr_pipe := [],
    tr_lines := tr_lines s @ [BytesRead, BytesRead, MainGot pid ns, MappedPid p]\<rparr>)"
  using assms by (simp add: read_pipe_def ns_print_def ns_act_def act_defs)

text \<open>
  Two clocks that show the same time, in nanoseconds. The system clock is read before the timer
  is started and after the pause; the timer reads once more before its last reading, so that what
  it gives can be longer than the other by what the readings take.
\<close>

lemma system_microseconds:
  assumes "realtime k = (timepointToTimespec t, k')"
  shows "getSystemMicroseconds realtime k = (Inr (t div 1000), k')"
proof -
  have "t div 1000 = (t div SECOND * SECOND + t mod SECOND) div 1000" by simp
  also have "\<dots> = t div SECOND * 1000000 + t mod SECOND div 1000"
    using div_mult_self3 [of 1000 "t div SECOND * 1000000" "t mod SECOND"] by (simp add: SECOND_def algebra_simps)
  finally show ?thesis
    using assms by (simp add: getSystemMicroseconds_def timepointToTimespec_div duration_cast_nonneg sys_def SECOND_def act_defs)
qed

lemma two_measures:
  assumes "\<And>k. realtime k = (timepointToTimespec (time k), later k)" and "\<And>k. clk k = (time k, later k)"
  shows "fst (testtimer realtime clk pause (k, start)) =
    (let k1 = later k; k2 = pause (later k1); k4 = later (later k2)
     in Inr (time k2 div 1000 - time k div 1000, duration_cast 1000 (time k4 - time k1)))"
  using assms(2)
  by (simp add: testtimer_def system_microseconds [OF assms(1)] Restart_def Timer_now_def Elapsed_continue
      KonroTimer_unit_def sys_def act_defs Let_def)

lemma measures_agree:
  assumes "\<And>k. realtime k = (timepointToTimespec (time k), later k)" and "\<And>k. clk k = (time k, later k)"
    and "\<And>k. time (later k) = time k + 1000 * d" and "\<And>k. time (pause k) = time k + 1000 * p" and "0 \<le> d" and "0 \<le> p"
  shows "fst (testtimer realtime clk pause (k, start)) = Inr (p + 2 * d, p + 3 * d)"
  unfolding two_measures [OF assms(1,2), where pause = pause] using assms(3-6)
  by (simp add: Let_def duration_cast_nonneg div_add1_eq)

lemma path_found:
  "findCgroupPath pf 1 k = (r, k') \<Longrightarrow>
    test_findcgrouppath pf k = (map_sum id (\<lambda>path. path = ''/sys/fs/cgroup/init.scope'') r, k')"
  by (cases r) (simp_all add: test_findcgrouppath_def testFind1_def act_defs)

end
