(* ===== verification/KonroMain.thy ===== *)
theory KonroMain
  imports KonroManager ProcListener KonroTimer
begin

text \<open>
  \<open>rm/src/main.cpp\<close>: the options, the level of the log, the life of the \<open>KonroManager\<close>, and the
  handler of Ctrl-C, which can interrupt \<open>main\<close> between any two of its steps, those of the
  listener's \<open>run\<close> with its early returns included. Shown are which options win, what a wrong one
  does, how the program is left, and at which points an interrupt finds no object to stop.
\<close>

section \<open>Options\<close>

text \<open>
  \<open>getopt_long\<close> gives one option after the other, each with its argument if it has one; the
  long options are those of \<open>longOptions\<close>, and another character is its sign for an error.
\<close>

record main_options =
  opt_configFile :: string
  opt_logLevel :: string

definition default_options :: main_options where
  "default_options = \<lparr> opt_configFile = [], opt_logLevel = ''DEBUG'' \<rparr>"

text \<open>\<open>None\<close> is the exit with the usage text.\<close>

fun parse_options :: "(char \<times> string option) list \<Rightarrow> main_options \<Rightarrow> main_options option result" where
  "parse_options [] o' = Inr (Some o')"
| "parse_options ((c, optarg) # opts) o' =
     (if c = CHR ''c'' then
        (case optarg of
           None \<Rightarrow> Inl (Undefined ''string of a null pointer'')
         | Some a \<Rightarrow> parse_options opts (o'\<lparr>opt_configFile := a\<rparr>))
      else if c = CHR ''l'' then
        (case optarg of
           None \<Rightarrow> parse_options opts o'
         | Some a \<Rightarrow> parse_options opts (o'\<lparr>opt_logLevel := a\<rparr>))
      else Inr None)"

datatype log_priority =
  FATAL | ALERT | CRIT | ERROR | WARN | NOTICE | INFO | DEBUG | NOTSET

definition setupLogging :: "string \<Rightarrow> log_priority" where
  "setupLogging level =
     (if level = [] then INFO
      else if level = ''FATAL'' then FATAL
      else if level = ''ALERT'' then ALERT
      else if level = ''CRIT'' then CRIT
      else if level = ''ERROR'' then ERROR
      else if level = ''WARN'' then WARN
      else if level = ''NOTICE'' then NOTICE
      else if level = ''INFO'' then INFO
      else if level = ''DEBUG'' then DEBUG
      else if level = ''NOTSET'' then NOTSET
      else INFO)"

section \<open>The main function\<close>

text \<open>
  What \<open>main\<close> comes to: the exit after a wrong option, or the components it runs, with the
  calls on their threads, before it returns \<open>EXIT_SUCCESS\<close>. An exception is caught by nobody.
\<close>

datatype ('k, 'm) main_result =
  ExitFailure
| RunsThenExits log_priority konro_parts "('k, 'm) platform_scheme" "manager_action list"

definition konro_main ::
  "('k, 'm) platform_scheme \<Rightarrow> string option \<Rightarrow> (char \<times> string option) list \<Rightarrow> ('k, ('k, 'm) main_result) act" where
  "konro_main pf home opts =
     bnd (lift_result (parse_options opts default_options)) (\<lambda>r.
     case r of
       None \<Rightarrow> ret ExitFailure
     | Some o' \<Rightarrow>
         bnd (konro_run pf home (opt_configFile o')) (\<lambda>(parts, pf', acts).
         ret (RunsThenExits (setupLogging (opt_logLevel o')) parts pf' acts)))"

section \<open>Interrupts\<close>

text \<open>
  The object that the handler needs is the listener, which it reaches through the static pointer
  and the manager. Of the listener the state has how far its \<open>run\<close> has come, and the value of
  \<open>nl_pid_\<close>, which is not initialised by the constructor.
\<close>

datatype listener_point = Created | Addressed | Listening | Returned

record listener_object =
  lo_point :: listener_point
  lo_pid :: "int option"

definition new_listener :: listener_object where
  "new_listener = \<lparr> lo_point = Created, lo_pid = None \<rparr>"

datatype manager_ptr = NoManager | Manager "listener_object option" | DeletedManager

record main_state =
  ms_handler :: bool
  ms_manager :: manager_ptr

definition main_start :: main_state where
  "main_start = \<lparr> ms_handler = False, ms_manager = NoManager \<rparr>"

text \<open>
  The steps of \<open>ProcListener::run\<close> in the thread \<open>tid\<close>: without a socket it returns before it has
  set \<open>nl_pid_\<close>; when the socket cannot be bound or the registration not be sent it takes \<open>nl_pid_\<close>
  back and returns; otherwise it is in its loop until it returns.
\<close>

inductive run_step :: "int \<Rightarrow> listener_object \<Rightarrow> listener_object \<Rightarrow> bool" for tid where
  no_socket: "lo_point l = Created \<Longrightarrow> run_step tid l (l\<lparr>lo_point := Returned\<rparr>)"
| set_nl_pid: "lo_point l = Created \<Longrightarrow> run_step tid l (l\<lparr>lo_point := Addressed, lo_pid := Some tid\<rparr>)"
| not_registered: "lo_point l = Addressed \<Longrightarrow> run_step tid l (l\<lparr>lo_point := Returned, lo_pid := Some (2 ^ 32 - 1)\<rparr>)"
| registered: "lo_point l = Addressed \<Longrightarrow> run_step tid l (l\<lparr>lo_point := Listening\<rparr>)"
| loop_ended: "lo_point l = Listening \<Longrightarrow> run_step tid l (l\<lparr>lo_point := Returned\<rparr>)"

inductive main_step :: "int \<Rightarrow> main_state \<Rightarrow> main_state \<Rightarrow> bool" for tid where
  trapCtrlC: "\<not> ms_handler s \<Longrightarrow> main_step tid s (s\<lparr>ms_handler := True\<rparr>)"
| new_KonroManager: "ms_handler s \<Longrightarrow> ms_manager s = NoManager \<Longrightarrow>
    main_step tid s (s\<lparr>ms_manager := Manager None\<rparr>)"
| new_ProcListener: "ms_manager s = Manager None \<Longrightarrow>
    main_step tid s (s\<lparr>ms_manager := Manager (Some new_listener)\<rparr>)"
| run: "ms_manager s = Manager (Some l) \<Longrightarrow> run_step tid l l' \<Longrightarrow>
    main_step tid s (s\<lparr>ms_manager := Manager (Some l')\<rparr>)"
| delete_KonroManager: "ms_manager s = Manager (Some l) \<Longrightarrow> lo_point l = Returned \<Longrightarrow>
    main_step tid s (s\<lparr>ms_manager := DeletedManager\<rparr>)"

inductive_cases run_stepE: "run_step tid l l'"
inductive_cases main_stepE: "main_step tid s t"

abbreviation main_reaches :: "int \<Rightarrow> main_state \<Rightarrow> bool" where
  "main_reaches tid \<equiv> (main_step tid)\<^sup>*\<^sup>* main_start"

text \<open>\<open>KonroManager::stop\<close> calls \<open>ProcListener::stop\<close>, which reads no member of the listener.\<close>

definition ctrlCHandler :: "'k netlink \<Rightarrow> main_state \<Rightarrow> ('k, bool) act" where
  "ctrlCHandler net s =
     (case ms_manager s of
        NoManager \<Rightarrow> throw (Undefined ''null pointer'')
      | DeletedManager \<Rightarrow> throw (Undefined ''deleted object'')
      | Manager None \<Rightarrow> throw (Undefined ''null pointer'')
      | Manager (Some l) \<Rightarrow> sys (listener_stop net))"

section \<open>Facts on the options\<close>

text \<open>The arguments that an option was given, in order.\<close>

definition given :: "char \<Rightarrow> (char \<times> string option) list \<Rightarrow> string list" where
  "given c opts = [a. (c', Some a) \<leftarrow> opts, c' = c]"

lemma given_simps [simp]:
  "given c [] = []"
  "given c ((c', None) # opts) = given c opts"
  "given c ((c', Some a) # opts) = (if c' = c then a # given c opts else given c opts)"
  by (simp_all add: given_def)

definition well_given :: "(char \<times> string option) list \<Rightarrow> bool" where
  "well_given opts \<longleftrightarrow> (\<forall>(c, optarg)\<in>set opts. c = CHR ''c'' \<and> optarg \<noteq> None \<or> c = CHR ''l'')"

lemma parse_well_given:
  "well_given opts \<Longrightarrow> parse_options opts o' =
     Inr (Some \<lparr> opt_configFile = last (opt_configFile o' # given CHR ''c'' opts),
                 opt_logLevel = last (opt_logLevel o' # given CHR ''l'' opts) \<rparr>)"
proof (induction opts o' rule: parse_options.induct)
  case (1 o')
  then show ?case by simp
next
  case (2 c optarg opts o')
  then show ?case by (auto simp: well_given_def split: option.splits)
qed

text \<open>A wrong option after good ones: nothing is done.\<close>

lemma parse_unknown:
  "well_given opts \<Longrightarrow> c \<notin> {CHR ''c'', CHR ''l''} \<Longrightarrow> parse_options (opts @ (c, a) # opts2) o' = Inr None"
  by (induction opts o' rule: parse_options.induct) (auto simp: well_given_def split: option.splits)

lemma main_unknown:
  "well_given opts \<Longrightarrow> c \<notin> {CHR ''c'', CHR ''l''} \<Longrightarrow>
     konro_main pf home (opts @ (c, a) # opts2) k = (Inr ExitFailure, k)"
  by (simp add: konro_main_def parse_unknown act_defs)

lemma main_well_given:
  assumes "well_given opts"
  shows "konro_main pf home opts =
    bnd (konro_run pf home (last ([] # given CHR ''c'' opts))) (\<lambda>(parts, pf', acts).
      ret (RunsThenExits (setupLogging (last (''DEBUG'' # given CHR ''l'' opts))) parts pf' acts))"
  by (simp add: konro_main_def parse_well_given [OF assms] default_options_def)

section \<open>Facts on interrupts\<close>

text \<open>
  What \<open>nl_pid_\<close> is at each point of \<open>run\<close>, and the states of the pointer that \<open>main\<close> comes through
  once the handler is installed.
\<close>

fun listener_at :: "int \<Rightarrow> listener_object \<Rightarrow> bool" where
  "listener_at tid l =
     (case lo_point l of
        Created \<Rightarrow> lo_pid l = None
      | Returned \<Rightarrow> lo_pid l \<in> {None, Some tid, Some (2 ^ 32 - 1)}
      | _ \<Rightarrow> lo_pid l = Some tid)"

lemma run_step_at: "run_step tid l l' \<Longrightarrow> listener_at tid l \<Longrightarrow> listener_at tid l'"
  by (auto elim!: run_stepE)

lemma main_invariant:
  "main_reaches tid s \<Longrightarrow> (s = main_start \<or> ms_handler s) \<and> (\<forall>l. ms_manager s = Manager (Some l) \<longrightarrow> listener_at tid l)"
proof (induction rule: rtranclp_induct)
  case base
  show ?case by (simp add: main_start_def)
next
  case (step s t)
  from step(2) show ?case
  proof cases
    case (run l l')
    with step(3) show ?thesis using run_step_at [OF run(3)] by (auto simp: main_start_def)
  qed (use step(3) in \<open>auto simp: new_listener_def main_start_def\<close>)
qed

lemma main_path:
  assumes "main_reaches tid \<lparr> ms_handler = True, ms_manager = Manager (Some l) \<rparr>" and "run_step tid l l'"
  shows "main_reaches tid \<lparr> ms_handler = True, ms_manager = Manager (Some l') \<rparr>"
  using assms(1) main_step.run [OF _ assms(2), of "\<lparr> ms_handler = True, ms_manager = Manager (Some l) \<rparr>"]
  by (auto intro: rtranclp.rtrancl_into_rtrancl)

lemma main_comes_to:
  assumes "(run_step tid)\<^sup>*\<^sup>* new_listener l"
  shows "main_reaches tid \<lparr> ms_handler = True, ms_manager = NoManager \<rparr>"
    and "main_reaches tid \<lparr> ms_handler = True, ms_manager = Manager None \<rparr>"
    and "main_reaches tid \<lparr> ms_handler = True, ms_manager = Manager (Some l) \<rparr>"
    and "lo_point l = Returned \<Longrightarrow> main_reaches tid \<lparr> ms_handler = True, ms_manager = DeletedManager \<rparr>"
proof -
  let ?s = "\<lambda>p. \<lparr> ms_handler = True, ms_manager = p \<rparr>"
  show r1: "main_reaches tid (?s NoManager)"
    using main_step.trapCtrlC [of main_start] by (simp add: main_start_def r_into_rtranclp)
  show r2: "main_reaches tid (?s (Manager None))"
    using main_step.new_KonroManager [of "?s NoManager"] by (auto intro: rtranclp.rtrancl_into_rtrancl [OF r1])
  have r3: "main_reaches tid (?s (Manager (Some new_listener)))"
    using main_step.new_ProcListener [of "?s (Manager None)"] by (auto intro: rtranclp.rtrancl_into_rtrancl [OF r2])
  from assms show r4: "main_reaches tid (?s (Manager (Some l)))"
    by (induction rule: rtranclp_induct) (use r3 main_path in blast)+
  show "main_reaches tid (?s DeletedManager)" if "lo_point l = Returned"
    using main_step.delete_KonroManager [of "?s (Manager (Some l))"] that
    by (auto intro: rtranclp.rtrancl_into_rtrancl [OF r4])
qed

text \<open>
  With the handler installed, the points at which an interrupt uses a null pointer or a deleted
  object are among those that \<open>main\<close> comes through: before the manager and before its listener are
  made, which is while the configuration is read and the groups are cleaned up, and after the
  deletion, also where \<open>run\<close> has returned for want of a socket. At all others the stop message is
  sent, whatever \<open>nl_pid_\<close> is.
\<close>

lemma interrupts_in_between:
  assumes "p \<in> {NoManager, Manager None, DeletedManager}"
  shows "\<exists>s msg. main_reaches tid s \<and> ms_handler s \<and> ms_manager s = p \<and> fst (ctrlCHandler net s k) = Inl (Undefined msg)"
proof -
  let ?l = "new_listener\<lparr>lo_point := Returned\<rparr>"
  have "run_step tid new_listener ?l" by (rule no_socket) (simp add: new_listener_def)
  then have l: "(run_step tid)\<^sup>*\<^sup>* new_listener ?l" by (rule r_into_rtranclp)
  have "main_reaches tid \<lparr> ms_handler = True, ms_manager = p \<rparr>"
    using assms main_comes_to [OF l] by auto
  then show ?thesis
    using assms by (intro exI [of _ "\<lparr> ms_handler = True, ms_manager = p \<rparr>"]) (auto simp: ctrlCHandler_def throw_def)
qed

lemma interrupts_stop: "ms_manager s = Manager (Some l) \<Longrightarrow> ctrlCHandler net s k = sys (listener_stop net) k"
  by (simp add: ctrlCHandler_def)

end
