(* ===== verification/UnitTests.thy ===== *)
theory UnitTests
  imports CpusetFormat KeyValueParser SecState Sai EventBus
begin

text \<open>
  Six of the repository's test programs: those of the splitting, the unit lists and the key-value
  parser in \<open>testplatformcontrol/\<close>, and \<open>testrmcommon/\<close>, \<open>testsecuritypolicy/\<close> and
  \<open>testsecuritymetric/\<close>; the other programs are in theories of their own. A test is a function that calls the model where the program calls the code, and its
  \<open>main\<close> gives the same result; an exception that no test catches leaves \<open>main\<close>. These
  six pass: what the repository's authors expect of these functions on their inputs holds of the
  model. It is a check of the definitions, not a property of the program.
\<close>

definition TEST_OK :: int where
  "TEST_OK = 0"

definition TEST_FAILED :: int where
  "TEST_FAILED = 1"

text \<open>A chain of conditions, each of which ends the test when it does not hold.\<close>

definition verdict :: "bool \<Rightarrow> int" where
  "verdict b = (if b then TEST_OK else TEST_FAILED)"

text \<open>The calls of a \<open>main\<close> that returns at the first test that fails.\<close>

fun run_tests :: "int result list \<Rightarrow> int result" where
  "run_tests [] = Inr TEST_OK"
| "run_tests (t # ts) =
     (case t of Inl e \<Rightarrow> Inl e | Inr rc \<Rightarrow> if rc \<noteq> TEST_OK then Inr TEST_FAILED else run_tests ts)"

section \<open>test_split.cpp\<close>

definition testSplit1 :: int where
  "testSplit1 = (let parts = tsplit ''/1/2/3'' ''/'' in
     verdict (length parts = 4 \<and> parts ! 0 = [] \<and> parts ! 1 = ''1'' \<and> parts ! 2 = ''2'' \<and> parts ! 3 = ''3''))"

definition testSplit2 :: int where
  "testSplit2 = (let parts = tsplit ''1/2/3'' ''/'' in
     verdict (length parts = 3 \<and> parts ! 0 = ''1'' \<and> parts ! 1 = ''2'' \<and> parts ! 2 = ''3''))"

definition testSplit3 :: int where
  "testSplit3 = (let parts = tsplit ''0::/init.scope'' '':'' in
     verdict (length parts = 3 \<and> parts ! 0 = ''0'' \<and> parts ! 1 = [] \<and> parts ! 2 = ''/init.scope''))"

definition test_split_main :: "int result" where
  "test_split_main = run_tests (map Inr [testSplit1, testSplit2, testSplit3])"

section \<open>test_cpusetcontrol.cpp\<close>

fun is_PcException :: "cpp_error \<Rightarrow> bool" where
  "is_PcException (PcException msg) = True"
| "is_PcException _ = False"

text \<open>A call inside \<open>try\<close> with one handler: \<open>caught\<close> is what the handler returns.\<close>

definition on_catch :: "(cpp_error \<Rightarrow> bool) \<Rightarrow> int \<Rightarrow> ('a \<Rightarrow> int) \<Rightarrow> 'a result \<Rightarrow> int result" where
  "on_catch handler caught returned r =
     (case r of Inl e \<Rightarrow> (if handler e then Inr caught else Inl e) | Inr x \<Rightarrow> Inr (returned x))"

definition testParseCpuSet :: "string \<Rightarrow> int result" where
  "testParseCpuSet line = on_catch is_PcException TEST_FAILED (\<lambda>cpus. TEST_OK) (parseCpuSet line)"

definition testParseCpuSetFail :: "string \<Rightarrow> int result" where
  "testParseCpuSetFail line = on_catch is_PcException TEST_OK (\<lambda>cpus. TEST_FAILED) (parseCpuSet line)"

definition testParseCpusetValues1 :: "int result" where
  "testParseCpusetValues1 =
     on_catch is_PcException TEST_FAILED
       (\<lambda>cpus. verdict ((0, 1) \<in> set cpus \<and> (3, 3) \<in> set cpus \<and> (4, 6) \<in> set cpus \<and> (5, 5) \<in> set cpus))
       (parseCpuSet ''0-1,3,4-6,5'')"

definition test_cpusetcontrol_main :: "int result" where
  "test_cpusetcontrol_main = run_tests
     (map testParseCpuSet ['''', ''1'', ''1,2'', ''1,2,3'', ''1-3'', ''0-1,2,3-4''] @
      map testParseCpuSetFail ['' '', ''1 '', ''1 2'', ''1,2 ''] @ [testParseCpusetValues1])"

section \<open>test_keyvalueparser.cpp\<close>

definition testParseNvSyntax :: "int \<Rightarrow> int \<Rightarrow> bool \<Rightarrow> string \<Rightarrow> int result" where
  "testParseNvSyntax major minor expectedError line =
     on_catch is_runtime_error (verdict expectedError) (\<lambda>tags. verdict (\<not> expectedError)) (parseLineNv_device line major minor)"

text \<open>The subscript operator of \<open>std::map\<close>.\<close>

definition tag_at :: "tags \<Rightarrow> string \<Rightarrow> numeric_value" where
  "tag_at tags k = (case map_of tags k of None \<Rightarrow> nv_invalid | Some v \<Rightarrow> v)"

definition testParseNvValues1 :: "int result" where
  "testParseNvValues1 = map_sum id (\<lambda>tags.
       verdict (tags \<noteq> [] \<and> nv_value (tag_at tags ''abcd'') = 12345 \<and> isMax (tag_at tags ''efgh'') \<and>
         nv_value (tag_at tags ''pippo'') = 7 \<and> nv_value (tag_at tags ''pluto'') = 12345678))
     (parseLineNv_device ''8:0 abcd=12345 efgh=max pippo=7 pluto=12345678'' 8 0)"

definition testParseNvValues2 :: "int result" where
  "testParseNvValues2 = map_sum id (\<lambda>tags. verdict (tags = [])) (parseLineNv_device ''8:0'' 8 0)"

definition keyValueIs :: "string \<Rightarrow> string \<Rightarrow> (numeric_value \<Rightarrow> bool) \<Rightarrow> int result" where
  "keyValueIs text tag P =
     map_sum id (\<lambda>(kv, endptr). verdict (fst kv = tag \<and> P (snd kv))) (parseKeyValue text)"

definition keyValueThrows :: "string \<Rightarrow> int result" where
  "keyValueThrows text = on_catch is_runtime_error TEST_OK (\<lambda>kv. TEST_FAILED) (parseKeyValue text)"

definition testParseKeyValue :: "int result" where
  "testParseKeyValue = run_tests
     [keyValueIs ''alfa=33'' ''alfa'' (\<lambda>v. nv_value v = 33), keyValueIs ''alfa:33'' ''alfa'' (\<lambda>v. nv_value v = 33),
      keyValueIs ''alfa:max'' ''alfa'' isMax, keyValueIs ''alfa=max'' ''alfa'' isMax,
      keyValueThrows ''alfa:abcd'', keyValueThrows ''alfa:123a'', keyValueThrows ''alfa: 123'', keyValueThrows ''alfa123'']"

definition test_keyvalueparser_main :: "int result" where
  "test_keyvalueparser_main = run_tests
     ([testParseNvSyntax 8 0 False ''8:0 abcd=12345 efgh=54321 pippo=7 pluto=12345678'',
       testParseNvSyntax 8 1 False ''8:0 abcd=12345 efgh=54321 pippo=7 pluto=12345678'',
       testParseNvSyntax 8 0 False ''8:0 abcd=12345 efgh=max pippo=7 pluto=12345678''] @
      map (testParseNvSyntax 8 0 True)
        [''8.0 abcd=12345 efgh=max pippo=7 pluto=12345678'', ''8:0:abcd=12345 efgh=max pippo=7 pluto=12345678'',
         ''8:0  abcd=12345 efgh=max pippo=7 pluto=12345678'', ''x:0 abcd=12345 efgh=max pippo=7 pluto=12345678'',
         ''8:0 =12345 efgh=max pippo=7 pluto'', ''8:0 abcd=12345 efgh=max pippo=7 pluto'',
         ''8:0 abcd=12345 efgh=max pippo=7 pluto='', ''8:a abcd=12345 efgh=max pippo=7 pluto=12345678'',
         ''8:0 abcd=12345 efgh=max pippo=7 pluto=1234567a'', ''8:0 abcd =12345 efgh=max pippo=7 pluto=1234567'',
         ''8:0 abcd= 12345 efgh=max pippo=7 pluto=1234567'', ''8:0 abcd=1 2345 efgh=max pippo=7 pluto=1234567'',
         ''8:0 abcd=12345  efgh=max pippo=7 pluto=1234567a'', ''8:0 abcd=12345 efgh=max pippo=7 pluto=1234567 ''] @
      [testParseNvValues1, testParseNvValues2, testParseKeyValue])"

section \<open>testrmcommon.cpp\<close>

definition test_toSet1 :: int where
  "test_toSet1 = (let vec1 = [(1, 2), (4, 4), (6, 9)]; set1 = toSet vec1 in
     verdict (list_all (\<lambda>p. list_all (\<lambda>n. n \<in> set set1) [fst p..snd p]) vec1 \<and> int (length set1) = countPUs vec1))"

definition test_containsPU :: int where
  "test_containsPU = (let vec1 = [(1, 2), (4, 4), (6, 9)] in
     verdict (list_all (containsPU vec1) [1, 2, 4, 6, 7, 8, 9] \<and> list_all (\<lambda>n. \<not> containsPU vec1 n) [3, 5, 10]))"

definition toCpusetVector_is :: "int list \<Rightarrow> cpuset_vector \<Rightarrow> int result" where
  "toCpusetVector_is set1 vec1 = map_sum id (\<lambda>vec2. verdict (vec2 = vec1)) (toCpusetVector_set set1)"

definition test_toString :: int where
  "test_toString =
     verdict (toString [(1, 2), (4, 4), (6, 9), (11, 11), (13, 20), (22, 22)] = ''1-2,4,6-9,11,13-20,22'')"

definition testrmcommon_main :: "int result" where
  "testrmcommon_main = run_tests
     [Inr test_toSet1, Inr test_containsPU,
      toCpusetVector_is [1, 2, 4, 6, 7, 8, 9, 11, 13, 14, 15, 16, 17, 18, 19, 20, 22]
        [(1, 2), (4, 4), (6, 9), (11, 11), (13, 20), (22, 22)],
      toCpusetVector_is [] [], toCpusetVector_is [6] [(6, 6)], Inr test_toString]"

section \<open>testsecuritypolicy.cpp\<close>

text \<open>Calls of \<open>step\<close> on one tracker, each with the state it has to return.\<close>

fun expect_steps :: "thresholds \<Rightarrow> flt \<Rightarrow> (flt \<times> sec_state) list \<Rightarrow> state_tracker \<Rightarrow> bool \<times> state_tracker" where
  "expect_steps th off [] s = (True, s)"
| "expect_steps th off ((sai, expected) # calls) s =
     (let s' = step sai th off s in
      if st_state s' \<noteq> expected then (False, s') else expect_steps th off calls s')"

definition test_escalation :: int where
  "test_escalation = verdict (fst (expect_steps default_thresholds (Fin 0)
     [(f32 30 100, OBSERVE), (f32 50 100, THROTTLE), (f32 70 100, RESTRICT), (f32 90 100, QUARANTINE)] new_tracker))"

definition test_tolerance_offset_raises_thresholds :: int where
  "test_tolerance_offset_raises_thresholds =
     verdict (fst (expect_steps default_thresholds (f32 15 100) [(f32 50 100, OBSERVE)] new_tracker))"

definition test_hysteresis_dwell_before_recover :: int where
  "test_hysteresis_dwell_before_recover =
     verdict (fst (expect_steps default_thresholds (Fin 0)
       [(f32 40 100, RESTRICT), (f32 40 100, RESTRICT), (f32 40 100, THROTTLE)]
       (step (f32 70 100) default_thresholds (Fin 0) new_tracker)))"

definition test_full_recovery_to_observe :: int where
  "test_full_recovery_to_observe = verdict (fst (expect_steps default_thresholds (Fin 0)
     [(f32 50 100, THROTTLE), (Fin 0, THROTTLE), (Fin 0, THROTTLE), (Fin 0, OBSERVE), (Fin 0, OBSERVE)] new_tracker))"

definition test_quarantine_is_sticky :: int where
  "test_quarantine_is_sticky =
     (case expect_steps default_thresholds (Fin 0) (replicate 10 (Fin 0, QUARANTINE))
        (step (f32 90 100) default_thresholds (Fin 0) new_tracker)
      of (ok, s) \<Rightarrow> verdict (ok \<and> st_state (clear s) = OBSERVE))"

definition test_custom_thresholds :: int where
  "test_custom_thresholds =
     (let th = default_thresholds\<lparr>t1 := f32 5 10, t2 := f32 7 10, t3 := f32 9 10, dwellN := 2\<rparr> in
      verdict (fst (expect_steps th (Fin 0)
        [(f32 45 100, OBSERVE), (f32 55 100, THROTTLE), (f32 95 100, QUARANTINE)] new_tracker)))"

text \<open>\<open>rc |= test()\<close> for test after test; the outcomes are 0 and 1.\<close>

definition or_tests :: "int list \<Rightarrow> int" where
  "or_tests rcs = foldl max 0 rcs"

definition testsecuritypolicy_main :: int where
  "testsecuritypolicy_main = or_tests
     [test_escalation, test_tolerance_offset_raises_thresholds, test_hysteresis_dwell_before_recover,
      test_full_recovery_to_observe, test_quarantine_is_sticky, test_custom_thresholds]"

section \<open>testsecuritymetric.cpp\<close>

definition fabs :: "flt \<Rightarrow> flt" where
  "fabs x = (if fless x (Fin 0) then fneg x else x)"

definition updates :: "nat \<Rightarrow> flt \<Rightarrow> flt \<Rightarrow> ewma \<Rightarrow> ewma" where
  "updates n x alpha e = (ewma_update x alpha ^^ n) e"

definition test_ewma_warmup :: "(flt \<Rightarrow> flt) \<Rightarrow> int" where
  "test_ewma_warmup expf =
     (let e = ewma_update (f32 10 1) (f32 3 10) new_ewma in
      verdict (warming e \<and> deviation expf e (f32 1000 1) = Fin 0))"

definition test_ewma_deviation_after_warmup :: "(flt \<Rightarrow> flt) \<Rightarrow> int" where
  "test_ewma_deviation_after_warmup expf =
     (let e = updates (nat WARMUP) (f32 10 1) (f32 3 10) new_ewma; d = deviation expf e (f32 10000 1) in
      verdict (\<not> warming e \<and> \<not> fgt (deviation expf e (f32 10 1)) (f32 1 100) \<and>
        \<not> (fless d (f32 9 10) \<or> fgt d (f32 1 1)) \<and> deviation expf e (Fin 0) = Fin 0))"

definition all_ones :: security_factors where
  "all_ones = \<lparr> fanout = f32 1 1, halfOpen = f32 1 1, forkRate = f32 1 1, newExec = f32 1 1, cpuBurst = f32 1 1,
     egress = f32 1 1, memGrowth = f32 1 1, rawSocket = f32 1 1 \<rparr>"

definition no_factors :: security_factors where
  "no_factors = \<lparr> fanout = Fin 0, halfOpen = Fin 0, forkRate = Fin 0, newExec = Fin 0, cpuBurst = Fin 0,
     egress = Fin 0, memGrowth = Fin 0, rawSocket = Fin 0 \<rparr>"

definition near :: "flt \<Rightarrow> flt \<Rightarrow> bool" where
  "near x y \<longleftrightarrow> \<not> fgt (fabs (fsub x y)) (f32 1 1000)"

definition test_compute_sai_weighted_clamp :: int where
  "test_compute_sai_weighted_clamp =
     (let w = \<lparr> fanout = f32 4 10, halfOpen = f32 3 10, forkRate = f32 1 10, newExec = f32 5 10, cpuBurst = f32 1 10,
                egress = f32 15 100, memGrowth = f32 1 10, rawSocket = f32 2 10 \<rparr> in
      verdict (near (computeSai all_ones w) (f32 1 1) \<and> computeSai no_factors w = Fin 0))"

definition test_compute_sai_new_factors :: int where
  "test_compute_sai_new_factors =
     (let w = default_weights; wz = default_weights\<lparr>egress := Fin 0, memGrowth := Fin 0, rawSocket := Fin 0\<rparr> in
      verdict (near (computeSai (no_factors\<lparr>egress := f32 1 1\<rparr>) w) (egress w) \<and>
        near (computeSai (no_factors\<lparr>memGrowth := f32 1 1\<rparr>) w) (memGrowth w) \<and>
        computeSai (no_factors\<lparr>egress := f32 1 1, memGrowth := f32 1 1\<rparr>) wz = Fin 0))"

definition test_raw_socket_factor :: int where
  "test_raw_socket_factor =
     (let w = default_weights; wz = default_weights\<lparr>rawSocket := Fin 0\<rparr>; f = no_factors\<lparr>rawSocket := f32 1 1\<rparr> in
      verdict (near (computeSai f w) (rawSocket w) \<and> computeSai f wz = Fin 0))"

definition testsecuritymetric_main :: "(flt \<Rightarrow> flt) \<Rightarrow> int" where
  "testsecuritymetric_main expf = or_tests
     [test_ewma_warmup expf, test_ewma_deviation_after_warmup expf, test_compute_sai_weighted_clamp,
      test_compute_sai_new_factors, test_raw_socket_factor]"

section \<open>The tests pass\<close>

lemma split_passes: "test_split_main = Inr TEST_OK"
  by code_simp

lemma cpusetcontrol_passes: "test_cpusetcontrol_main = Inr TEST_OK"
  by code_simp

lemmas parser_defs = parseLineNv_device_def parseMajorMinor_def parseLineNv_def parseLine_loop.simps parseKeyValue_def
  findTokenEnd_def strtol_def scan_number_def strtoull_def isdigit_def isalnum_def isspace_def code_def NUL_def nv_init_def
  isInvalid_def isMax_def Text.span_def digits_value_def map_insert_def NUMERIC_VALUE_INVALID_def NUMERIC_VALUE_MAX_def
  nv_max_def nv_invalid_def tag_at_def

lemmas verdict_defs = verdict_def TEST_OK_def TEST_FAILED_def on_catch_def

lemma small_ints: "to_int32 0 = 0" "to_int32 8 = 8" "to_int32 1 = 1"
  by code_simp+

lemma keyvalueparser_passes: "test_keyvalueparser_main = Inr TEST_OK"
  by (simp add: small_ints test_keyvalueparser_main_def testParseNvSyntax_def testParseNvValues1_def testParseNvValues2_def
      testParseKeyValue_def keyValueIs_def keyValueThrows_def parser_defs verdict_defs)

lemma rmcommon_passes: "testrmcommon_main = Inr TEST_OK"
  by code_simp

lemma securitypolicy_passes: "testsecuritypolicy_main = TEST_OK"
  by code_simp

lemma sai_tests_pass:
  "test_compute_sai_weighted_clamp = TEST_OK" "test_compute_sai_new_factors = TEST_OK" "test_raw_socket_factor = TEST_OK"
  by code_simp+

text \<open>
  The test of the deviation needs \<open>std::exp\<close>: of a number far below 0 it must be small, and
  neither negative nor a NaN.
\<close>

definition exp_small :: "(flt \<Rightarrow> flt) \<Rightarrow> bool" where
  "exp_small expf \<longleftrightarrow> (\<forall>x. fle x (f32 (- 3) 1) \<longrightarrow> fle (Fin 0) (expf x) \<and> fle (expf x) (f32 5 100))"

lemma steady: "ewma_update (f32 10 1) (f32 3 10) \<lparr> mean = f32 10 1, var = Fin 0, count = n + 1 \<rparr>
    = \<lparr> mean = f32 10 1, var = Fin 0, count = n + 2 \<rparr>" if "0 \<le> n"
proof -
  have "fsub (f32 10 1) (f32 10 1) = Fin 0" "fadd (f32 10 1) (fmul (f32 3 10) (Fin 0)) = f32 10 1"
    "fmul (fsub (f32 1 1) (f32 3 10)) (fadd (Fin 0) (fmul (fmul (f32 3 10) (Fin 0)) (Fin 0))) = Fin 0"
    by code_simp+
  with that show ?thesis by (simp only: ewma_update_def Let_def ewma.simps) simp
qed

lemma warmed_up: "updates (nat WARMUP) (f32 10 1) (f32 3 10) new_ewma = \<lparr> mean = f32 10 1, var = Fin 0, count = 5 \<rparr>"
proof -
  have "ewma_update (f32 10 1) (f32 3 10) new_ewma = \<lparr> mean = f32 10 1, var = Fin 0, count = 1 \<rparr>"
    by (simp add: ewma_update_def new_ewma_def)
  then show ?thesis
    using steady [of 0] steady [of 1] steady [of 2] steady [of 3]
    by (simp add: updates_def WARMUP_def eval_nat_numeral)
qed

lemma fneg_antimono: "fle a b \<Longrightarrow> fle (fneg b) (fneg a)"
  by (cases a; cases b) simp_all

lemma one_minus: "fle a b \<Longrightarrow> fle (fsub (f32 1 1) b) (fsub (f32 1 1) a)"
  unfolding fsub_def by (rule fadd_mono [OF _ fneg_antimono]) simp_all

lemma spike: "deviation expf \<lparr> mean = f32 10 1, var = Fin 0, count = 5 \<rparr> (f32 10000 1) = fsub (f32 1 1) (expf (fmul (fneg (fdiv (fsub (f32 10000 1) (f32 10 1)) (fadd (fsqrt (Fin 0)) (f32 1 1000000)))) (f32 5 10)))"
proof -
  have "\<not> fle (fdiv (fsub (f32 10000 1) (f32 10 1)) (fadd (fsqrt (Fin 0)) (f32 1 1000000))) (Fin 0)" by code_simp
  moreover have "\<not> warming \<lparr> mean = f32 10 1, var = Fin 0, count = 5 \<rparr>" by code_simp
  ultimately show ?thesis by (simp only: deviation_def Let_def if_False ewma.simps)
qed

lemma metric_passes:
  assumes "exp_small expf"
  shows "testsecuritymetric_main expf = TEST_OK"
proof -
  let ?e = "\<lparr> mean = f32 10 1, var = Fin 0, count = 5 \<rparr>"
  let ?x = "fmul (fneg (fdiv (fsub (f32 10000 1) (f32 10 1)) (fadd (fsqrt (Fin 0)) (f32 1 1000000)))) (f32 5 10)"
  have "fle ?x (f32 (- 3) 1)" by code_simp
  with assms have y: "fle (Fin 0) (expf ?x)" "fle (expf ?x) (f32 5 100)" by (simp_all only: exp_small_def)
  let ?d = "deviation expf ?e (f32 10000 1)"
  have "fle (f32 9 10) (fsub (f32 1 1) (f32 5 100))" "fle (fsub (f32 1 1) (Fin 0)) (f32 1 1)" by code_simp+
  with one_minus [OF y(1)] one_minus [OF y(2)] have d: "fle (f32 9 10) ?d" "fle ?d (f32 1 1)"
    unfolding spike by (blast intro: fle_trans)+
  then have "\<not> (fless ?d (f32 9 10) \<or> fgt ?d (f32 1 1))"
    by (metis fless_iff_not_fle fgt_def fle_NaN)
  moreover have "deviation expf ?e (f32 10 1) = Fin 0" "deviation expf ?e (Fin 0) = Fin 0"
  proof -
    have "fle (fdiv (fsub (f32 10 1) (f32 10 1)) (fadd (fsqrt (Fin 0)) (f32 1 1000000))) (Fin 0)"
      "fle (fdiv (fsub (Fin 0) (f32 10 1)) (fadd (fsqrt (Fin 0)) (f32 1 1000000))) (Fin 0)" by code_simp+
    then show "deviation expf ?e (f32 10 1) = Fin 0" "deviation expf ?e (Fin 0) = Fin 0"
      by (simp_all only: deviation_def Let_def ewma.simps if_True if_cancel)
  qed
  moreover have "\<not> warming ?e" "\<not> fgt (Fin 0) (f32 1 100)" by code_simp+
  ultimately have "test_ewma_deviation_after_warmup expf = TEST_OK"
    by (simp only: test_ewma_deviation_after_warmup_def warmed_up Let_def verdict_def simp_thms if_True)
  moreover have "test_ewma_warmup expf = TEST_OK"
  proof -
    have "warming (ewma_update (f32 10 1) (f32 3 10) new_ewma)" by code_simp
    then show ?thesis by (simp only: test_ewma_warmup_def Let_def deviation_def if_True verdict_def simp_thms)
  qed
  ultimately show ?thesis by (simp add: testsecuritymetric_main_def sai_tests_pass or_tests_def TEST_OK_def)
qed

section \<open>All tests\<close>

text \<open>
  Each of these six test programs ends with \<open>TEST_OK\<close>: the splitting of texts, the parsing
  and rendering of unit lists and its rejections, the key-value parser, the set and vector
  conversions, the containment state machine, and the security metric. Of \<open>std::exp\<close> the last
  one needs that it stays between 0 and 0.05 from -3 downwards.
\<close>

theorem unit_tests_pass:
  assumes "exp_small expf"
  shows "test_split_main = Inr TEST_OK \<and> test_cpusetcontrol_main = Inr TEST_OK \<and>
     test_keyvalueparser_main = Inr TEST_OK \<and> testrmcommon_main = Inr TEST_OK \<and>
     testsecuritypolicy_main = TEST_OK \<and> testsecuritymetric_main expf = TEST_OK"
  using metric_passes [OF assms] split_passes cpusetcontrol_passes keyvalueparser_passes rmcommon_passes
    securitypolicy_passes by blast

text \<open>An exponential function that is 0 from -3 downwards and 1 above.\<close>

definition step_exp :: "flt \<Rightarrow> flt" where
  "step_exp x = (if fle x (f32 (- 3) 1) then Fin 0 else f32 1 1)"

lemma step_exp_small: "exp_small step_exp"
proof -
  have "fle (Fin 0) (Fin 0)" "fle (Fin 0) (f32 5 100)" by code_simp+
  then show ?thesis by (simp add: exp_small_def step_exp_def)
qed

lemma unit_tests_pass_witness:
  "testsecuritypolicy_main = TEST_OK \<and> testsecuritymetric_main step_exp = TEST_OK"
  using unit_tests_pass [OF step_exp_small] by blast

end
