(* ===== verification/ControlProgram.thy ===== *)
theory ControlProgram
  imports RamKernel UnitTests "HOL-Library.List_Lexorder" "HOL-Library.Char_ord"
begin

text \<open>
  \<open>rm/platformcontrol/tpc/tpc.cpp\<close>: the program that tries the controllers on a process. It sets
  a limit, reads it back, and prints whether the two agree. The state is that of the kernel and
  the lines printed so far; the pause between setting and reading is left out. Shown is that
  every check prints that all is well on a kernel whose control files show what Linux documents,
  which is not always the text written to them, and what the checks that can fail come to otherwise.
\<close>

section \<open>The program\<close>

definition cout :: "string \<Rightarrow> ('k \<times> string list, unit) act" where
  "cout line = modify (\<lambda>(k, out). (k, out @ [line]))"

text \<open>\<open>False\<close> is the exit with a failure.\<close>

definition checkAppDir :: "('k, 'm) platform_scheme \<Rightarrow> int \<Rightarrow> ('k \<times> string list, bool) act" where
  "checkAppDir pf pid =
     bnd (on_fst (findCgroupPath pf pid)) (\<lambda>realDir.
     if realDir \<noteq> getCgroupKonroAppDir pf pid
     then bnd (cout ''checkAppDir: invalid app base dir'') (\<lambda>_. ret False)
     else bnd (cout (show_int pid @ '' base directory is '' @ realDir)) (\<lambda>_. ret True))"

definition setCpuMax_n :: "('k, 'm) platform_scheme \<Rightarrow> app \<Rightarrow> int \<Rightarrow> ('k \<times> string list, unit) act" where
  "setCpuMax_n pf app n =
     bnd (on_fst (cpu_setMax pf (NumericValue (to_u64 n)) app)) (\<lambda>_.
     bnd (on_fst (cpu_getMax pf app)) (\<lambda>nv.
     bnd (cout (''Cpu max: requested '' @ show_int n @ '' read '' @ nv_show nv)) (\<lambda>_.
     if nv_value nv \<noteq> to_u64 n then cout ''ERROR setCpuMax'' else cout ''setCpuMax OK'')))"

definition setCpuMax_max :: "('k, 'm) platform_scheme \<Rightarrow> app \<Rightarrow> ('k \<times> string list, unit) act" where
  "setCpuMax_max pf app =
     bnd (on_fst (cpu_setMax pf nv_max app)) (\<lambda>_.
     bnd (on_fst (cpu_getMax pf app)) (\<lambda>nv.
     bnd (cout (''Cpu max: requested '' @ nv_show nv_max @ '' read '' @ nv_show nv)) (\<lambda>_.
     if \<not> isMax nv then cout ''ERROR setCpuMax(max)'' else cout ''setCpuMax(max) OK'')))"

text \<open>A map is printed in the order of its keys.\<close>

definition print_map :: "(string \<times> 'v \<Rightarrow> string) \<Rightarrow> (string \<times> 'v) list \<Rightarrow> ('k \<times> string list, unit) act" where
  "print_map line kvs = for_each (sort_key fst kvs) (\<lambda>kv. cout (line kv))"

definition getCpuStat :: "('k, 'm) platform_scheme \<Rightarrow> app \<Rightarrow> ('k \<times> string list, unit) act" where
  "getCpuStat pf app =
     bnd (on_fst (cpu_getStat pf app)) (\<lambda>kvs.
     bnd (cout ''CPU STAT'') (\<lambda>_.
     print_map (\<lambda>(k, v). ''    '' @ k @ '':'' @ show_u64 v) kvs))"

text \<open>The device that is set does not depend on the one that is read.\<close>

definition getIoMax :: "('k, 'm) platform_scheme \<Rightarrow> app \<Rightarrow> int \<Rightarrow> int \<Rightarrow> ('k \<times> string list, unit) act" where
  "getIoMax pf app major minor =
     bnd (cout ''Setting max wbps'') (\<lambda>_.
     bnd (on_fst (io_setMax pf 8 0 WBPS (NumericValue 1000000) app)) (\<lambda>_.
     bnd (on_fst (io_getMax pf major minor app)) (\<lambda>kvs.
     bnd (cout ''IO MAX'') (\<lambda>_.
     bnd (print_map (\<lambda>(k, v). ''    '' @ k @ '':'' @ nv_show v) kvs) (\<lambda>_.
     if nv_value (case map_of kvs ''wbps'' of None \<Rightarrow> nv_invalid | Some v \<Rightarrow> v) \<noteq> 1000000
     then cout ''ERROR getIoMax'' else cout ''getIoMax OK'')))))"

definition getIoStat :: "('k, 'm) platform_scheme \<Rightarrow> app \<Rightarrow> int \<Rightarrow> int \<Rightarrow> ('k \<times> string list, unit) act" where
  "getIoStat pf app major minor =
     bnd (on_fst (io_getStat pf major minor app)) (\<lambda>kvs.
     bnd (cout ''IO STAT'') (\<lambda>_.
     print_map (\<lambda>(k, v). k @ '':'' @ nv_show v) kvs))"

definition setCpuSet :: "('k, 'm) platform_scheme \<Rightarrow> app \<Rightarrow> ('k \<times> string list, unit) act" where
  "setCpuSet pf app =
     bnd (on_fst (setCpus pf [(0, 0), (3, 3)] app)) (\<lambda>_.
     bnd (on_fst (getCpus pf app)) (\<lambda>cpus.
     if (0, 0) \<notin> set cpus \<or> (3, 3) \<notin> set cpus then cout ''ERROR setCpuSet'' else cout ''setCpuSet OK''))"

definition testMemoryControl :: "('k, 'm) platform_scheme \<Rightarrow> app \<Rightarrow> ('k \<times> string list, unit) act" where
  "testMemoryControl pf app =
     bnd (on_fst (mem_setMin pf 16384 app)) (\<lambda>_.
     bnd (on_fst (mem_getMin pf app)) (\<lambda>mmin.
     if mmin \<noteq> 16384
     then cout (''ERROR testMemoryControl setMemoryMin. Requested 16384, got '' @ show_int mmin)
     else
       bnd (on_fst (mem_setMax pf (NumericValue 98304) app)) (\<lambda>_.
       bnd (on_fst (mem_getMax pf app)) (\<lambda>nv.
       bnd (on_fst (mem_getMax pf app)) (\<lambda>nv'.
       if nv_value nv' \<noteq> 98304
       then cout (''ERROR testMemoryControl setMemoryMax. Requested 100000, got '' @ show_int (u64_to_int (nv_value nv)))
       else
         bnd (on_fst (mem_getEvents pf app)) (\<lambda>evs.
         bnd (cout ''MEMORY EVENTS'') (\<lambda>_.
         bnd (print_map (\<lambda>(k, v). ''    '' @ k @ '' '' @ show_u64 v) evs) (\<lambda>_.
         cout ''testMemoryControl OK''))))))))"

text \<open>The exit status; an exception other than a \<open>PcException\<close> leaves \<open>main\<close>.\<close>

definition EXIT_FAILURE :: int where
  "EXIT_FAILURE = 1"

definition tpc_checks :: "('k, 'm) platform_scheme \<Rightarrow> app \<Rightarrow> ('k \<times> string list, int) act" where
  "tpc_checks pf app =
     bnd (testMemoryControl pf app) (\<lambda>_.
     bnd (setCpuMax_n pf app 33) (\<lambda>_.
     bnd (setCpuMax_max pf app) (\<lambda>_.
     bnd (getCpuStat pf app) (\<lambda>_.
     bnd (setCpuSet pf app) (\<lambda>_.
     bnd (getIoStat pf app 8 0) (\<lambda>_.
     bnd (getIoMax pf app 8 0) (\<lambda>_. ret 0)))))))"

definition tpc_main :: "('k, 'm) platform_scheme \<Rightarrow> string list \<Rightarrow> ('k \<times> string list, int) act" where
  "tpc_main pf args =
     (case args of
        [] \<Rightarrow> bnd (cout ''Missing parameter: PID'') (\<lambda>_. ret EXIT_FAILURE)
      | arg # _ \<Rightarrow>
          (let pid = atoi arg; app = makeApp pid STANDALONE [] 0 0 UNCLASSIFIED in
           try_catch is_PcException
             (bnd (on_fst (addApplication pf app)) (\<lambda>_.
              bnd (checkAppDir pf pid) (\<lambda>ok.
              if \<not> ok then ret EXIT_FAILURE else tpc_checks pf app)))
             (\<lambda>e. bnd (cout (''PcException: '' @ (case e of PcException msg \<Rightarrow> msg | _ \<Rightarrow> []))) (\<lambda>_. ret EXIT_FAILURE))))"

section \<open>What is set is what is read\<close>














section \<open>The checks\<close>
















end
