(* ===== verification/TopologyTest.thy ===== *)
theory TopologyTest
  imports RamKernel "HOL-Library.Multiset"
begin

text \<open>
  \<open>testhwloc/testhwloc.cpp\<close>: the program that prints the topology, level by level and as a tree,
  and compares the distances of the units as objects with those found by their indices. It has
  copies of the functions of \<open>platformdescription.cpp\<close>, which are those of
  \<open>PlatformDescription\<close> here. The names of types and attributes are texts of \<open>hwloc\<close> and
  arguments. Shown are that the two dumps list the same objects, and when the comparison finds
  a difference.
\<close>

section \<open>The dumps\<close>

text \<open>An index of \<open>(unsigned)-1\<close> says that the object has none.\<close>

definition index_text :: "hw_obj \<Rightarrow> string" where
  "index_text obj = (if os_index obj \<noteq> 2 ^ 32 - 1 then '', os index: '' @ show_int (os_index obj) else [])"

definition attr_text :: "(hw_obj \<Rightarrow> string) \<Rightarrow> hw_obj \<Rightarrow> string" where
  "attr_text attr obj = (if attr obj \<noteq> [] then ''  ('' @ attr obj @ '')'' else [])"

text \<open>The objects of a level, in their logical order, and the number of levels.\<close>

definition objs_by_depth :: "hw_obj \<Rightarrow> nat \<Rightarrow> hw_obj list" where
  "objs_by_depth topology depth = map snd (filter (\<lambda>(pos, obj). length pos = depth) (objects [] topology))"

definition topology_depth :: "hw_obj \<Rightarrow> nat" where
  "topology_depth topology = Suc (fold max (map (length \<circ> fst) (objects [] topology)) 0)"

definition level_lines :: "(hw_obj \<Rightarrow> string) \<Rightarrow> (hw_obj \<Rightarrow> string) \<Rightarrow> hw_obj \<Rightarrow> nat \<Rightarrow> string list" where
  "level_lines kind attr topology depth =
     (let objs = objs_by_depth topology depth in
      (''*** Objects at level '' @ show_nat depth @ '': '' @ show_nat (length objs)) #
      map (\<lambda>(i, obj). ''   *** '' @ show_nat i @ '': '' @ kind obj @ attr_text attr obj @ index_text obj)
        (zip [0..<length objs] objs))"

definition testHwloc1 :: "(hw_obj \<Rightarrow> string) \<Rightarrow> (hw_obj \<Rightarrow> string) \<Rightarrow> hw_obj \<Rightarrow> string list" where
  "testHwloc1 kind attr topology =
     (''Topology depth = '' @ show_nat (topology_depth topology)) #
     concat (map (level_lines kind attr topology) [0..<topology_depth topology]) @
     [[], ''Cores: '' @ show_int (getNumCores topology) @ '', processing units: '' @ show_int (getNumProcessingUnits topology)]"

definition object_line :: "(hw_obj \<Rightarrow> string) \<Rightarrow> (hw_obj \<Rightarrow> string) \<Rightarrow> nat \<Rightarrow> hw_obj \<Rightarrow> string" where
  "object_line kind attr level obj =
     concat (replicate level ''    '') @ ''level '' @ show_nat level @ '': object '' @ kind obj @
     index_text obj @ attr_text attr obj"

fun printHwlocObj :: "(nat \<Rightarrow> hw_obj \<Rightarrow> string) \<Rightarrow> nat \<Rightarrow> hw_obj \<Rightarrow> string list"
  and print_children :: "(nat \<Rightarrow> hw_obj \<Rightarrow> string) \<Rightarrow> nat \<Rightarrow> hw_obj list \<Rightarrow> string list" where
  "printHwlocObj line level (HwObj t oi li cs) = line level (HwObj t oi li cs) # print_children line (Suc level) cs"
| "print_children line level [] = []"
| "print_children line level (c # cs) = printHwlocObj line level c @ print_children line level cs"

definition testHwloc2 :: "(hw_obj \<Rightarrow> string) \<Rightarrow> (hw_obj \<Rightarrow> string) \<Rightarrow> hw_obj \<Rightarrow> string list" where
  "testHwloc2 kind attr topology = printHwlocObj (object_line kind attr) 0 topology"

section \<open>The distances\<close>

text \<open>One pair of units: a line if the two distances differ, and the distance.\<close>

definition compare_distances :: "hw_obj \<Rightarrow> hw_pos \<times> hw_obj \<Rightarrow> hw_pos \<times> hw_obj \<Rightarrow> string list" where
  "compare_distances topology p q =
     (let distance1 = objDistance (Some (fst p)) (Some (fst q));
          distance2 = puDistance topology (to_int32 (os_index (snd p))) (to_int32 (os_index (snd q)))
      in (if distance1 \<noteq> distance2 then [''ERROR''] else []) @
         [''Distance pu'' @ show_int (os_index (snd p)) @ '' : pu'' @ show_int (os_index (snd q)) @ '' = '' @ show_int distance1])"

text \<open>
  The units are the objects of their level, as \<open>hwloc\<close> documents; \<open>-1\<close> is its level of a type
  without objects. The last unit is not compared with itself.
\<close>

definition pu_level :: "hw_obj \<Rightarrow> int" where
  "pu_level topology = (case objs_by_type topology PU of [] \<Rightarrow> - 1 | (pos, obj) # us \<Rightarrow> int (length pos))"

definition testDistance :: "hw_obj \<Rightarrow> string list" where
  "testDistance topology =
     (let pu_objs = objs_by_type topology PU; num_pu = length pu_objs
      in [''TEST DISTANCE'', ''Found '' @ show_nat num_pu @ '' PU at level '' @ show_int (pu_level topology)] @
         concat (map (\<lambda>i. concat (map (\<lambda>j. compare_distances topology (pu_objs ! i) (pu_objs ! j)) [i..<num_pu]))
           [0..<num_pu - 1]) @ [[]])"

section \<open>Facts on the dumps\<close>

text \<open>The tree is printed in the order of its objects, at the depth of their positions.\<close>

lemma print_objects:
  "printHwlocObj line (length pos) obj = map (\<lambda>(p, o'). line (length p) o') (objects pos obj)"
  "print_children line (Suc (length pos)) cs = map (\<lambda>(p, o'). line (length p) o') (objects_list pos n cs)"
  by (induction pos obj and pos n cs rule: objects_objects_list.induct) auto

lemma testHwloc2_objects:
  "testHwloc2 kind attr topology = map (\<lambda>(p, o'). object_line kind attr (length p) o') (objects [] topology)"
  using print_objects(1) [of "object_line kind attr" "[]" topology] by (simp add: testHwloc2_def)

lemma below_fold_max: "x \<in> set xs \<Longrightarrow> x \<le> fold max xs (m :: nat)"
proof (induction xs arbitrary: m)
  case (Cons y ys)
  have "y \<le> fold max ys (max y m)" for m
  proof -
    have "z \<le> fold max ys z" for z by (induction ys arbitrary: z) (auto intro: order_trans max.cobounded2)
    then show ?thesis by (meson max.boundedE)
  qed
  with Cons show ?case by auto
qed simp

lemma depth_below: "(p, o') \<in> set (objects [] topology) \<Longrightarrow> length p < topology_depth topology"
  unfolding topology_depth_def by (rule le_imp_less_Suc, rule below_fold_max) force

text \<open>The levels together hold every object exactly as often as the tree.\<close>

lemma levels_hold_objects:
  "mset (concat (map (objs_by_depth topology) [0..<topology_depth topology])) = mset (map snd (objects [] topology))"
proof -
  have split: "(\<forall>x\<in>set xs. f x < d) \<Longrightarrow> mset (concat (map (\<lambda>n. filter (\<lambda>x. f x = n) xs) [0..<d])) = mset xs"
    for xs :: "(hw_pos \<times> hw_obj) list" and f d
  proof (induction d arbitrary: xs)
    case 0
    then show ?case by (cases xs) auto
  next
    case (Suc d)
    have "mset (concat (map (\<lambda>n. filter (\<lambda>x. f x = n) xs) [0..<d]))
        = mset (concat (map (\<lambda>n. filter (\<lambda>x. f x = n) (filter (\<lambda>x. f x < d) xs)) [0..<d]))"
      by (intro arg_cong [where f = mset] arg_cong [where f = concat] map_cong refl) (auto intro: filter_cong)
    also have "\<dots> = mset (filter (\<lambda>x. f x < d) xs)" by (rule Suc.IH) simp
    finally have "mset (concat (map (\<lambda>n. filter (\<lambda>x. f x = n) xs) [0..<Suc d]))
        = filter_mset (\<lambda>x. f x < d) (mset xs) + filter_mset (\<lambda>x. f x = d) (mset xs)"
      by simp
    also have "filter_mset (\<lambda>x. f x = d) (mset xs) = filter_mset (\<lambda>x. \<not> f x < d) (mset xs)"
      using Suc.prems by (intro filter_mset_cong) auto
    finally show ?case by (simp add: multiset_partition [symmetric])
  qed
  let ?objs = "objects [] topology" and ?d = "topology_depth topology"
  let ?levels = "map (\<lambda>n. filter (\<lambda>x. (length \<circ> fst) x = n) ?objs) [0..<?d]"
  have "concat (map (objs_by_depth topology) ds) = map snd (concat (map (\<lambda>n. filter (\<lambda>x. (length \<circ> fst) x = n) ?objs) ds))" for ds
    by (induction ds) (simp_all add: objs_by_depth_def case_prod_unfold)
  then have "mset (concat (map (objs_by_depth topology) [0..<?d])) = image_mset snd (mset (concat ?levels))"
    by (simp only: mset_map)
  also have "mset (concat ?levels) = mset ?objs" by (rule split) (auto dest: depth_below)
  finally show ?thesis by simp
qed

section \<open>Facts on the distances\<close>

text \<open>The indices are unsigned 32-bit numbers.\<close>

definition os_indices_ok :: "hw_obj \<Rightarrow> bool" where
  "os_indices_ok topology \<longleftrightarrow> (\<forall>(pos, obj)\<in>set (objs_by_type topology PU). 0 \<le> os_index obj \<and> os_index obj < 2 ^ 32)"

definition pu_indices :: "hw_obj \<Rightarrow> int list" where
  "pu_indices topology = map (os_index \<circ> snd) (objs_by_type topology PU)"

lemma to_int32_mod: "to_int32 i mod 2 ^ 32 = i mod 2 ^ 32"
  by (simp add: to_int32_def mod_diff_left_eq)

lemma find_first:
  assumes "i < length xs" and "P (xs ! i)" and "\<And>j. j < i \<Longrightarrow> \<not> P (xs ! j)"
  shows "find P xs = Some (xs ! i)"
  using assms by (force simp: find_Some_iff)

text \<open>The search for an index finds the first unit that has it.\<close>

lemma find_unit:
  assumes ok: "os_indices_ok topology" and i: "i < length (pu_indices topology)"
    and first: "\<And>j. j < i \<Longrightarrow> pu_indices topology ! j \<noteq> pu_indices topology ! i"
  shows "findObjByOsIndex topology PU (to_int32 (pu_indices topology ! i)) = Some (fst (objs_by_type topology PU ! i))"
proof -
  let ?us = "objs_by_type topology PU"
  have len: "i < length ?us" using i by (simp add: pu_indices_def)
  have idx: "pu_indices topology ! j = os_index (snd (?us ! j))" if "j < length ?us" for j
    using that by (simp add: pu_indices_def)
  have rng: "os_index (snd (?us ! j)) mod 2 ^ 32 = os_index (snd (?us ! j))" if "j < length ?us" for j
    using ok nth_mem [OF that] by (force simp: os_indices_ok_def intro: mod_pos_pos_trivial)
  have "find (\<lambda>(pos, obj). os_index obj = os_index (snd (?us ! i))) ?us = Some (?us ! i)"
    using len first by (intro find_first) (auto simp: idx case_prod_unfold)
  then show ?thesis
    using idx [OF len] rng [OF len] by (simp add: findObjByOsIndex_def to_int32_mod [simplified])
qed

lemma positive_distance: "p \<noteq> q \<Longrightarrow> 0 < objDistance (Some p) (Some q)"
proof -
  have "d \<le> obj_distance_loop o1 o2 d" for o1 o2 d
  proof (induction o1 o2 d rule: obj_distance_loop.induct)
    case (1 o1 o2 d)
    then have "o1 \<noteq> o2 \<and> o1 \<noteq> None \<and> o2 \<noteq> None \<Longrightarrow>
        d \<le> obj_distance_loop (parent (the o1)) (parent (the o2)) (d + 1)" by linarith
    then show ?case by (simp add: obj_distance_loop.simps [of o1 o2 d])
  qed
  moreover assume "p \<noteq> q"
  ultimately show ?thesis
    by (simp add: objDistance_def obj_distance_loop.simps [of "Some p"]) (smt (verit))
qed

lemma objects_distinct:
  "distinct (map fst (objects pos obj)) \<and> (\<forall>p\<in>fst ` set (objects pos obj). take (length pos) p = pos)"
  "distinct (map fst (objects_list pos n cs)) \<and>
     (\<forall>p\<in>fst ` set (objects_list pos n cs). \<exists>m\<ge>n. take (Suc (length pos)) p = pos @ [m])"
proof (induction pos obj and pos n cs rule: objects_objects_list.induct)
  case (1 pos t oi li cs)
  have "take (length pos) p = pos" "p \<noteq> pos" if p: "p \<in> fst ` set (objects_list pos 0 cs)" for p
  proof -
    obtain m where m: "take (Suc (length pos)) p = pos @ [m]"
      using bspec [OF conjunct2 [OF 1] p] by (elim exE conjE)
    have "take (length pos) p = take (length pos) (take (Suc (length pos)) p)"
      unfolding take_take min.absorb1 [OF le_SucI [OF order_refl]] ..
    also have "\<dots> = pos" by (simp only: m append_eq_conv_conj [symmetric]) simp
    finally show "take (length pos) p = pos" .
    show "p \<noteq> pos" using arg_cong [OF m, of length] by auto
  qed
  then have "pos \<notin> fst ` set (objects_list pos 0 cs)" "\<forall>p\<in>fst ` set (objects_list pos 0 cs). take (length pos) p = pos"
    by blast+
  with 1 show ?case by simp
next
  case (2 pos n)
  then show ?case by simp
next
  case (3 pos n c cs)
  have c: "take (Suc (length pos)) p = pos @ [n]" if "p \<in> fst ` set (objects (pos @ [n]) c)" for p
    using bspec [OF conjunct2 [OF 3(1)] that] by simp
  have cs: "\<exists>m\<ge>Suc n. take (Suc (length pos)) p = pos @ [m]" if "p \<in> fst ` set (objects_list pos (Suc n) cs)" for p
    using bspec [OF conjunct2 [OF 3(2)] that] .
  have "fst ` set (objects (pos @ [n]) c) \<inter> fst ` set (objects_list pos (Suc n) cs) = {}"
  proof (rule Int_emptyI)
    fix p
    assume "p \<in> fst ` set (objects (pos @ [n]) c)" "p \<in> fst ` set (objects_list pos (Suc n) cs)"
    with c cs obtain m where "Suc n \<le> m" "pos @ [n] = pos @ [m]" by metis
    then show False by simp
  qed
  moreover have "\<exists>m\<ge>n. take (Suc (length pos)) p = pos @ [m]"
    if "p \<in> fst ` set (objects_list pos n (c # cs))" for p
  proof -
    from that consider "p \<in> fst ` set (objects (pos @ [n]) c)" | "p \<in> fst ` set (objects_list pos (Suc n) cs)"
      by (auto simp: image_Un)
    then show ?thesis
    proof cases
      case 1
      from c [OF this] show ?thesis by blast
    next
      case 2
      from cs [OF this] show ?thesis by (meson Suc_leD)
    qed
  qed
  ultimately show ?case using 3 by simp
qed

lemma units_distinct: "distinct (map fst (objs_by_type topology PU))"
  using objects_distinct(1) [of "[]" topology] by (simp add: objs_by_type_def distinct_map_filter)

text \<open>The unit found for the index of unit \<open>j\<close> is the first one that has it.\<close>

lemma find_index:
  assumes ok: "os_indices_ok topology" and j: "j < length (objs_by_type topology PU)"
  obtains i where "i \<le> j" and "pu_indices topology ! i = pu_indices topology ! j"
    and "findObjByOsIndex topology PU (to_int32 (pu_indices topology ! j)) = Some (fst (objs_by_type topology PU ! i))"
proof -
  let ?i = "LEAST i. pu_indices topology ! i = pu_indices topology ! j"
  have "?i \<le> j" "pu_indices topology ! ?i = pu_indices topology ! j"
    by (auto intro: Least_le LeastI)
  moreover have "pu_indices topology ! m \<noteq> pu_indices topology ! ?i" if "m < ?i" for m
    using not_less_Least [OF that] calculation(2) by simp
  ultimately show thesis
    using that [of ?i] find_unit [OF ok, of ?i] j by (simp add: pu_indices_def)
qed

definition compared :: "hw_obj \<Rightarrow> nat \<Rightarrow> nat \<Rightarrow> bool" where
  "compared topology i j \<longleftrightarrow> i \<le> j \<and> j < length (objs_by_type topology PU) \<and> Suc i < length (objs_by_type topology PU)"

lemma error_compared:
  "''ERROR'' \<in> set (testDistance topology) \<longleftrightarrow>
     (\<exists>i j. compared topology i j \<and>
       ''ERROR'' \<in> set (compare_distances topology (objs_by_type topology PU ! i) (objs_by_type topology PU ! j)))"
  by (simp add: testDistance_def Let_def compared_def less_diff_conv Bex_def) blast

lemma error_pair:
  assumes "i < length (objs_by_type topology PU)" "j < length (objs_by_type topology PU)"
  shows "''ERROR'' \<in> set (compare_distances topology (objs_by_type topology PU ! i) (objs_by_type topology PU ! j)) \<longleftrightarrow>
     objDistance (Some (fst (objs_by_type topology PU ! i))) (Some (fst (objs_by_type topology PU ! j)))
       \<noteq> puDistance topology (to_int32 (pu_indices topology ! i)) (to_int32 (pu_indices topology ! j))"
  using assms by (simp add: compare_distances_def Let_def pu_indices_def)

lemma self_distance: "objDistance (Some p) (Some p) = 0"
  by (simp add: objDistance_def obj_distance_loop.simps)

text \<open>
  C37: The comparison prints \<open>ERROR\<close> exactly when two units of the topology have the same index:
  the distance by index, which the policies use, is the distance of the objects if and only if
  the indices tell the units apart.
\<close>

theorem distance_by_index:
  assumes ok: "os_indices_ok topology"
  shows "''ERROR'' \<in> set (testDistance topology) \<longleftrightarrow> \<not> distinct (pu_indices topology)"
proof
  let ?us = "objs_by_type topology PU" and ?idx = "pu_indices topology"
  have len: "length ?idx = length ?us" by (simp add: pu_indices_def)
  {
    assume d: "distinct ?idx"
    have find: "findObjByOsIndex topology PU (to_int32 (?idx ! j)) = Some (fst (?us ! j))" if j: "j < length ?us" for j
    proof -
      obtain i where i: "i \<le> j" "?idx ! i = ?idx ! j"
        and f: "findObjByOsIndex topology PU (to_int32 (?idx ! j)) = Some (fst (?us ! i))"
        using find_index [OF ok j] .
      have "i = j" using nth_eq_iff_index_eq [OF d, of i j] i j len by simp
      with f show ?thesis by simp
    qed
    have "''ERROR'' \<notin> set (compare_distances topology (?us ! i) (?us ! j))" if "compared topology i j" for i j
      using that error_pair [of i topology j] find [of i] find [of j] by (simp add: compared_def puDistance_def)
    then have "''ERROR'' \<notin> set (testDistance topology)" by (simp add: error_compared)
  }
  then show "''ERROR'' \<in> set (testDistance topology) \<Longrightarrow> \<not> distinct ?idx" by blast
  assume "\<not> distinct ?idx"
  then obtain i j where ij: "i < j" "j < length ?us" "?idx ! i = ?idx ! j"
    unfolding distinct_conv_nth len by (metis linorder_neqE_nat)
  obtain m where "findObjByOsIndex topology PU (to_int32 (?idx ! j)) = Some (fst (?us ! m))"
    using find_index [OF ok ij(2)] by metis
  then have "puDistance topology (to_int32 (?idx ! i)) (to_int32 (?idx ! j)) = 0"
    by (simp add: puDistance_def ij(3) self_distance)
  moreover have "fst (?us ! i) \<noteq> fst (?us ! j)"
    using nth_eq_iff_index_eq [OF units_distinct [of topology], of i j] ij(1,2) by simp
  ultimately have "''ERROR'' \<in> set (compare_distances topology (?us ! i) (?us ! j))"
    using error_pair [of i topology j] positive_distance ij by fastforce
  moreover have "compared topology i j" using ij by (simp add: compared_def)
  ultimately show "''ERROR'' \<in> set (testDistance topology)" using error_compared by blast
qed

lemma distance_by_index_witness: "''ERROR'' \<notin> set (testDistance ram_topology)"
proof -
  have "os_indices_ok ram_topology" "distinct (pu_indices ram_topology)" by code_simp+
  then show ?thesis using distance_by_index by blast
qed

end
