(* ===== verification/QueueTest.thy ===== *)
theory QueueTest
  imports UnitTests
begin

text \<open>
  \<open>testthreadsafequeue/test_threadsafequeue.cpp\<close>. The first two tests run alone. The third has
  three consumers, each of which adds up what it takes from the queue and leaves when a wait of
  50 milliseconds brings nothing, while the main thread pushes the numbers below a bound and
  then joins them. On every schedule the values are taken in the order in which they were pushed,
  each by one consumer; but a schedule on which the consumers wait
  in vain before the first push ends with a failed test, although the queue is right.
\<close>

section \<open>One thread\<close>

definition testThreadsafeQueue1 :: int where
  "testThreadsafeQueue1 =
     (let q = queue_push (3::int) (queue_push 2 (queue_push 1 []));
          (v1, q1) = queue_tryPop q; (v2, q2) = queue_tryPop q1; (v3, q3) = queue_tryPop q2
      in verdict (v1 = Some 1 \<and> v2 = Some 2 \<and> v3 = Some 3 \<and> queue_empty q3))"

text \<open>\<open>waitAndPop\<close> on a queue to which nobody pushes runs into its timeout.\<close>

definition testThreadsafeQueue2 :: int where
  "testThreadsafeQueue2 = verdict (fst (queue_tryPop ([] :: int list)) = None)"

lemma single_thread_tests: "testThreadsafeQueue1 = TEST_OK" "testThreadsafeQueue2 = TEST_OK"
  by code_simp+

section \<open>Three consumers\<close>

text \<open>A consumer: what it has added up, and whether it is still in its loop.\<close>

record consumer =
  tot_of :: int
  in_loop :: bool

text \<open>
  \<open>qt_taken\<close> is not in the program: it records which consumer has taken which value, so that
  the sums can be told from what they are the sums of.
\<close>

record queue_test =
  qt_queue :: "int list"
  qt_todo :: "int list"
  qt_expected :: int
  qt_consumers :: "consumer list"
  qt_taken :: "(nat \<times> int) list"

definition testThreadsafeQueue3 :: "int \<Rightarrow> queue_test" where
  "testThreadsafeQueue3 pushes =
     \<lparr> qt_queue = [], qt_todo = [0..pushes - 1], qt_expected = 0,
       qt_consumers = replicate 3 \<lparr> tot_of = 0, in_loop = True \<rparr>, qt_taken = [] \<rparr>"

inductive consumer_step :: "queue_test \<Rightarrow> queue_test \<Rightarrow> bool" where
  main_push: "qt_todo s = i # is \<Longrightarrow>
    consumer_step s (s\<lparr>qt_queue := queue_push i (qt_queue s), qt_todo := is, qt_expected := qt_expected s + i\<rparr>)"
| consumer_pop: "c < length (qt_consumers s) \<Longrightarrow> in_loop (qt_consumers s ! c) \<Longrightarrow> queue_tryPop (qt_queue s) = (Some n, q) \<Longrightarrow>
    consumer_step s (s\<lparr>qt_queue := q,
      qt_consumers := (qt_consumers s)[c := (qt_consumers s ! c)\<lparr>tot_of := tot_of (qt_consumers s ! c) + n\<rparr>],
      qt_taken := qt_taken s @ [(c, n)]\<rparr>)"
| consumer_timeout: "c < length (qt_consumers s) \<Longrightarrow> in_loop (qt_consumers s ! c) \<Longrightarrow> queue_tryPop (qt_queue s) = (None, q) \<Longrightarrow>
    consumer_step s (s\<lparr>qt_consumers := (qt_consumers s)[c := (qt_consumers s ! c)\<lparr>in_loop := False\<rparr>]\<rparr>)"

inductive_cases consumer_stepE: "consumer_step s t"

abbreviation consumer_runs :: "queue_test \<Rightarrow> queue_test \<Rightarrow> bool" where
  "consumer_runs \<equiv> consumer_step\<^sup>*\<^sup>*"

definition joined :: "queue_test \<Rightarrow> bool" where
  "joined s \<longleftrightarrow> qt_todo s = [] \<and> list_all (\<lambda>c. \<not> in_loop c) (qt_consumers s)"

definition threadTotal :: "queue_test \<Rightarrow> int" where
  "threadTotal s = sum_list (map tot_of (qt_consumers s))"

definition test3_verdict :: "queue_test \<Rightarrow> int" where
  "test3_verdict s = verdict (threadTotal s = qt_expected s)"

text \<open>
  What has been taken, what is in the queue and what is still to push are the numbers in order;
  and a total is the sum of what its consumer has taken.
\<close>

definition taken_by :: "nat \<Rightarrow> (nat \<times> int) list \<Rightarrow> int list" where
  "taken_by c taken = map snd (filter (\<lambda>p. fst p = c) taken)"

definition kept_order :: "int \<Rightarrow> queue_test \<Rightarrow> bool" where
  "kept_order pushes s \<longleftrightarrow> map snd (qt_taken s) @ qt_queue s @ qt_todo s = [0..pushes - 1] \<and>
     qt_expected s = sum_list (map snd (qt_taken s)) + sum_list (qt_queue s)"

definition totals_taken :: "queue_test \<Rightarrow> bool" where
  "totals_taken s \<longleftrightarrow> length (qt_consumers s) = 3 \<and>
     (\<forall>c<3. tot_of (qt_consumers s ! c) = sum_list (taken_by c (qt_taken s))) \<and> (\<forall>p\<in>set (qt_taken s). fst p < 3)"

lemma taken_by_simps [simp]:
  "taken_by c [] = []" "taken_by c (taken @ [(c', n)]) = taken_by c taken @ (if c' = c then [n] else [])"
  by (simp_all add: taken_by_def)

lemma kept_order_step: "consumer_step s t \<Longrightarrow> kept_order pushes s \<Longrightarrow> kept_order pushes t"
  by (erule consumer_stepE) (auto simp: kept_order_def queue_push_def queue_tryPop_def split: list.splits)

lemma totals_step: "consumer_step s t \<Longrightarrow> totals_taken s \<Longrightarrow> totals_taken t"
  by (erule consumer_stepE) (auto simp: totals_taken_def nth_list_update)

lemma runs_invariant:
  "consumer_runs (testThreadsafeQueue3 pushes) s \<Longrightarrow> kept_order pushes s \<and> totals_taken s"
proof (induction rule: rtranclp_induct)
  case base
  show ?case by (simp add: kept_order_def totals_taken_def testThreadsafeQueue3_def)
next
  case (step s t)
  then show ?case using kept_order_step totals_step by blast
qed

lemma sum_by_three:
  "\<forall>p\<in>set taken. fst p < 3 \<Longrightarrow>
     sum_list (taken_by 0 taken) + sum_list (taken_by 1 taken) + sum_list (taken_by 2 taken) = sum_list (map snd taken)"
proof (induction taken rule: rev_induct)
  case (snoc p taken)
  then show ?case by (cases p) (auto simp: less_Suc_eq eval_nat_numeral)
qed simp

lemma total_is_taken: "totals_taken s \<Longrightarrow> threadTotal s = sum_list (map snd (qt_taken s))"
proof -
  assume t: "totals_taken s"
  then obtain a b c where "qt_consumers s = [a, b, c]"
    unfolding totals_taken_def by (auto simp: length_Suc_conv eval_nat_numeral)
  with t show ?thesis
    using sum_by_three [of "qt_taken s"] by (auto simp: totals_taken_def threadTotal_def eval_nat_numeral less_Suc_eq)
qed

text \<open>What is left in the queue adds up to 0 only if it is nothing, or the number 0 alone.\<close>

lemma rest_positive:
  fixes n :: int
  assumes "xs @ ys = [0..n]" and "0 < n" and "ys \<noteq> []"
  shows "0 < sum_list ys"
proof -
  have "last ys = n" using assms by (metis last_appendR upto_rec2 last_snoc less_imp_le)
  then have "ys = butlast ys @ [n]" using assms(3) by (metis append_butlast_last_id)
  moreover have "set (butlast ys) \<subseteq> set [0..n]" using assms(1) by (metis in_set_butlastD set_append subsetI Un_iff)
  then have "0 \<le> sum_list (butlast ys)" by (intro sum_list_nonneg) auto
  ultimately show ?thesis using assms(2) by (metis sum_list_append sum_list_simps(1) sum_list_simps(2) add_0_right add_nonneg_pos)
qed

section \<open>A schedule on which the test fails\<close>

definition left_early :: "int \<Rightarrow> queue_test" where
  "left_early pushes = (testThreadsafeQueue3 pushes)\<lparr>qt_consumers := replicate 3 \<lparr> tot_of = 0, in_loop = False \<rparr>\<rparr>"

lemma all_time_out: "consumer_runs (testThreadsafeQueue3 pushes) (left_early pushes)"
proof -
  let ?on = "\<lparr> tot_of = 0, in_loop = True \<rparr>" and ?off = "\<lparr> tot_of = 0, in_loop = False \<rparr>"
  let ?s = "\<lambda>cs. (testThreadsafeQueue3 pushes)\<lparr>qt_consumers := cs\<rparr>"
  have q: "queue_tryPop [] = (None, [] :: int list)" by (simp add: queue_tryPop_def)
  have "consumer_step (?s [?on, ?on, ?on]) (?s [?off, ?on, ?on])" "consumer_step (?s [?off, ?on, ?on]) (?s [?off, ?off, ?on])"
    "consumer_step (?s [?off, ?off, ?on]) (?s [?off, ?off, ?off])"
    using consumer_timeout [of 0 "?s [?on, ?on, ?on]" "[]"] consumer_timeout [of 1 "?s [?off, ?on, ?on]" "[]"]
      consumer_timeout [of 2 "?s [?off, ?off, ?on]" "[]"] q
    by (simp_all add: testThreadsafeQueue3_def eval_nat_numeral)
  moreover have "testThreadsafeQueue3 pushes = ?s [?on, ?on, ?on]" "left_early pushes = ?s [?off, ?off, ?off]"
    by (simp_all add: testThreadsafeQueue3_def left_early_def eval_nat_numeral)
  ultimately show ?thesis by (metis rtranclp.simps)
qed

lemma main_pushes:
  "consumer_runs s (s\<lparr>qt_queue := qt_queue s @ qt_todo s, qt_todo := [], qt_expected := qt_expected s + sum_list (qt_todo s)\<rparr>)"
proof (induction "qt_todo s" arbitrary: s)
  case Nil
  then show ?case by (cases s) simp
next
  case (Cons i ns)
  let ?t = "s\<lparr>qt_queue := queue_push i (qt_queue s), qt_todo := ns, qt_expected := qt_expected s + i\<rparr>"
  have "consumer_step s ?t" using Cons.hyps(2) by (intro main_push) simp
  moreover have "consumer_runs ?t (?t\<lparr>qt_queue := qt_queue ?t @ qt_todo ?t, qt_todo := [], qt_expected := qt_expected ?t + sum_list (qt_todo ?t)\<rparr>)"
    by (rule Cons.hyps(1)) simp
  ultimately show ?case
    using Cons.hyps(2) [symmetric] by (simp add: queue_push_def add.assoc converse_rtranclp_into_rtranclp)
qed

lemma failing_schedule:
  assumes "2 \<le> pushes"
  shows "\<exists>s. consumer_runs (testThreadsafeQueue3 pushes) s \<and> joined s \<and> test3_verdict s = TEST_FAILED"
proof -
  let ?l = "left_early pushes"
  let ?s = "?l\<lparr>qt_queue := qt_queue ?l @ qt_todo ?l, qt_todo := [], qt_expected := qt_expected ?l + sum_list (qt_todo ?l)\<rparr>"
  have "consumer_runs (testThreadsafeQueue3 pushes) ?s" using all_time_out main_pushes by (rule rtranclp_trans)
  moreover have "joined ?s" by (simp add: joined_def left_early_def eval_nat_numeral)
  moreover have "threadTotal ?s \<noteq> qt_expected ?s"
    using rest_positive [of "[]" "[0..pushes - 1]" "pushes - 1"] assms
    by (simp add: threadTotal_def left_early_def testThreadsafeQueue3_def eval_nat_numeral)
  then have "test3_verdict ?s = TEST_FAILED" by (simp add: test3_verdict_def verdict_def)
  ultimately show ?thesis by blast
qed

section \<open>What the consumers take\<close>

definition two_taken :: queue_test where
  "two_taken =
     \<lparr> qt_queue = [], qt_todo = [], qt_expected = 1,
       qt_consumers = [\<lparr> tot_of = 1, in_loop = False \<rparr>, \<lparr> tot_of = 0, in_loop = False \<rparr>, \<lparr> tot_of = 0, in_loop = False \<rparr>],
       qt_taken = [(1, 0), (0, 1)] \<rparr>"

lemma two_taken_run: "consumer_runs (testThreadsafeQueue3 2) two_taken"
proof -
  let ?c = "\<lambda>n b. \<lparr> tot_of = n, in_loop = b \<rparr>"
  let ?s = "\<lambda>q ns e cs taken. \<lparr> qt_queue = q, qt_todo = ns, qt_expected = e, qt_consumers = cs, qt_taken = taken \<rparr>"
  let ?on = "[?c 0 True, ?c 0 True, ?c 0 True]"
  let ?t = "[(1, 0), (0, 1)]"
  note pop = queue_push_def queue_tryPop_def
  have s0: "testThreadsafeQueue3 2 = ?s [] [0, 1] 0 ?on []"
    by (simp add: testThreadsafeQueue3_def eval_nat_numeral upto.simps)
  have s1: "consumer_step (?s [] [0, 1] 0 ?on []) (?s [0] [1] 0 ?on [])"
    using main_push [of "?s [] [0, 1] 0 ?on []" 0 "[1]"] by (simp add: pop)
  have s2: "consumer_step (?s [0] [1] 0 ?on []) (?s [] [1] 0 ?on [(1, 0)])"
    using consumer_pop [of 1 "?s [0] [1] 0 ?on []" 0 "[]"] by (simp add: pop)
  have s3: "consumer_step (?s [] [1] 0 ?on [(1, 0)]) (?s [1] [] 1 ?on [(1, 0)])"
    using main_push [of "?s [] [1] 0 ?on [(1, 0)]" 1 "[]"] by (simp add: pop)
  have s4: "consumer_step (?s [1] [] 1 ?on [(1, 0)]) (?s [] [] 1 [?c 1 True, ?c 0 True, ?c 0 True] ?t)"
    using consumer_pop [of 0 "?s [1] [] 1 ?on [(1, 0)]" 1 "[]"] by (simp add: pop)
  have s5: "consumer_step (?s [] [] 1 [?c 1 True, ?c 0 True, ?c 0 True] ?t) (?s [] [] 1 [?c 1 False, ?c 0 True, ?c 0 True] ?t)"
    using consumer_timeout [of 0 "?s [] [] 1 [?c 1 True, ?c 0 True, ?c 0 True] ?t" "[]"] by (simp add: pop)
  have s6: "consumer_step (?s [] [] 1 [?c 1 False, ?c 0 True, ?c 0 True] ?t) (?s [] [] 1 [?c 1 False, ?c 0 False, ?c 0 True] ?t)"
    using consumer_timeout [of 1 "?s [] [] 1 [?c 1 False, ?c 0 True, ?c 0 True] ?t" "[]"] by (simp add: pop)
  have s7: "consumer_step (?s [] [] 1 [?c 1 False, ?c 0 False, ?c 0 True] ?t) two_taken"
    using consumer_timeout [of 2 "?s [] [] 1 [?c 1 False, ?c 0 False, ?c 0 True] ?t" "[]"] by (simp add: pop two_taken_def)
  note go = converse_rtranclp_into_rtranclp [where r = consumer_step]
  show ?thesis
    unfolding s0
    by (rule go [OF s1], rule go [OF s2], rule go [OF s3], rule go [OF s4], rule go [OF s5], rule go [OF s6], rule go [OF s7],
      rule rtranclp.rtrancl_refl)
qed

text \<open>
  C40: On every schedule of the test with three consumers, the values taken so far, in the order
  in which they were taken and whoever took them, then those in the queue, then those still to
  be pushed, are the numbers from 0 on: no value is lost, doubled or overtaken. The total of
  each consumer is the sum of the values that it took. When the threads are joined the test
  succeeds exactly if the queue is empty.
\<close>

theorem consumers_lose_nothing:
  assumes "consumer_runs (testThreadsafeQueue3 pushes) s"
  shows "map snd (qt_taken s) @ qt_queue s @ qt_todo s = [0..pushes - 1] \<and>
    (\<forall>c<3. tot_of (qt_consumers s ! c) = sum_list (taken_by c (qt_taken s))) \<and>
    (joined s \<and> 2 \<le> pushes \<longrightarrow> (test3_verdict s = TEST_OK \<longleftrightarrow> qt_queue s = []))"
proof -
  have o: "kept_order pushes s" and t: "totals_taken s" using runs_invariant [OF assms] by auto
  have "test3_verdict s = TEST_OK \<longleftrightarrow> sum_list (qt_queue s) = 0"
    using o total_is_taken [OF t] by (auto simp: kept_order_def test3_verdict_def verdict_def TEST_OK_def TEST_FAILED_def)
  moreover have "0 < sum_list (qt_queue s)" if "joined s" "2 \<le> pushes" "qt_queue s \<noteq> []"
    using rest_positive [of "map snd (qt_taken s)" "qt_queue s" "pushes - 1"] that o by (simp add: kept_order_def joined_def)
  ultimately show ?thesis using o t unfolding kept_order_def totals_taken_def by (metis less_irrefl sum_list_simps(1))
qed

theorem consumers_lose_nothing_witness:
  "consumer_runs (testThreadsafeQueue3 2) two_taken \<and> joined two_taken \<and>
   map snd (qt_taken two_taken) = [0, 1] \<and> tot_of (qt_consumers two_taken ! 0) = 1 \<and> test3_verdict two_taken = TEST_OK"
proof -
  have j: "joined two_taken" "qt_queue two_taken = []" "qt_todo two_taken = []" "taken_by 0 (qt_taken two_taken) = [1]"
    by (simp_all add: joined_def two_taken_def taken_by_def)
  moreover have "[0..2 - 1] = [0, 1 :: int]" by (simp add: upto.simps)
  ultimately show ?thesis
    using consumers_lose_nothing [OF two_taken_run] two_taken_run by simp
qed

text \<open>
  The test with 100000 pushes has a schedule on which it fails, although the queue works:
  the consumers time out before the first push.
\<close>

theorem queue_test_can_fail:
  "\<exists>s. consumer_runs (testThreadsafeQueue3 100000) s \<and> joined s \<and> test3_verdict s = TEST_FAILED"
  by (rule failing_schedule) simp

end
