(* ===== verification/Spec2Isabelle.thy ===== *)
theory Spec2Isabelle
  imports EndToEnd LockOrder ServiceProperties ContainmentSpec ConfigProperties ClientPrograms TrialPrograms KonroMain ControlProgram
    TopologyTest QueueTest
begin

text \<open>
  Konro is a resource manager for Linux: it watches the processes of the system, puts
  applications into control groups, places them on processing units, and contains the ones that
  behave suspiciously. This development models the resource manager (\<open>rm/\<close>), the library that
  applications link (\<open>konrolib/\<close>) and the configuration reader (\<open>common/\<close>), and proves what its
  components promise, together with the repository's own tests and clients of them. This theory
  holds the properties of the managers, the containment and the control files; \<open>SystemProperties\<close>
  and \<open>ContainmentSpec\<close> those of the running program, \<open>ServiceProperties\<close> those of the parts around
  the managers, \<open>ConfigProperties\<close> those of the configuration, and \<open>ClientPrograms\<close>, \<open>ControlProgram\<close>,
  \<open>TopologyTest\<close> and \<open>QueueTest\<close> each their own. A property has its number \<open>C1\<close> to \<open>C40\<close> in the text
  before it.

  \<^bold>\<open>How the program works.\<close> \<open>KonroManager::run\<close> builds the components and connects them by the event
  bus. \<open>KonroHttp\<close> turns requests, and \<open>ProcListener\<close> kernel messages, into events for
  \<open>WorkloadManager\<close>, which keeps the set of applications, has \<open>CGroupControl\<close> make and remove their
  cgroups, and publishes additions, removals and feedback. \<open>PolicyManager\<close> keeps a mapping for
  every application and hands each event to the configured policy, which writes control files.
  \<open>SecurityMonitor\<close> samples the processes of every application and publishes an anomaly index,
  which \<open>SecurityAwarePolicy\<close> answers by containment. \<open>PlatformMonitor\<close> and \<open>PolicyTimer\<close> publish the
  load and a tick.

  \<^bold>\<open>Conventions.\<close> \<open>Prelude\<close> has the type of actions \<open>('s, 'a) act\<close>: an action on a state gives a value
  or a C++ exception, and the state it leaves either way; undefined behaviour is the result
  \<open>Undefined\<close>, which no handler catches. \<open>keeps\<close> says that an action preserves a property of the
  state, \<open>raises\<close> what it can throw. \<open>uint64_t\<close> is \<open>64 word\<close>; \<open>short\<close>, \<open>int\<close> and \<open>pid_t\<close> are \<open>int\<close> with their
  conversions written out; \<open>float\<close> is binary32, computed exactly (\<open>Float32\<close>). Sets with a comparator
  are sorted lists (\<open>StdSet\<close>, with the locale \<open>keyed_set\<close>). The kernel is an argument: a state and a
  record of system calls (\<open>Os\<close>) of which nothing is assumed; what a property needs of it is a
  named hypothesis such as \<open>file_shows\<close> (what a control file shows after a write). A kernel in
  memory (\<open>RamKernel\<close>), with control files that show what Linux documents, serves the witnesses.
  Log output, time stamps and the memory management of C++ are left out everywhere.

  \<^bold>\<open>Texts and control files.\<close> \<open>Text\<close> models the C library functions on numbers and the splitting of
  strings; \<open>NumericValue\<close>, \<open>KeyValueParser\<close>, \<open>CpusetVector\<close> and \<open>CpusetFormat\<close> model the classes of
  these names in \<open>librmcommon\<close> and \<open>platformcontrol/utilities\<close>. The locale \<open>line_format\<close> says that
  what is rendered is parsed back; the formats interpret it. \<open>Os\<close> has \<open>dir.cpp\<close> and \<open>namespaces.cpp\<close>,
  \<open>CgroupControl\<close> the files \<open>cgrouputil.cpp\<close> and \<open>cgroupcontrol.cpp\<close>, \<open>Controllers\<close> the controllers, and
  \<open>ControlFiles\<close> the proof that a value set is the value read: the kernel may show a text of its
  own, and what it shows of which text is a hypothesis on one file.

  \<^bold>\<open>Platform and policies.\<close> \<open>PlatformDescription\<close> models the tree of the hwloc library, which is a
  parameter, and the distances on it. \<open>AppMapping\<close> is the cache of limits in front of the
  controllers. \<open>Policy\<close> has the interface of \<open>ibasepolicy.h\<close> as a record of actions, and its
  contract as the locale \<open>policy_contract\<close>; \<open>PuCommon\<close>, \<open>Quota\<close>, \<open>PuFacts\<close> and \<open>PuPolicies\<close> model the two
  placing policies, \<open>SecState\<close> the containment state machine, \<open>Sai\<close> the index, and \<open>SecurityAware\<close> the
  policy that joins them. \<open>PolicyManager\<close> is proved once, in the locale \<open>managed_policy\<close>, and
  \<open>Managers\<close> interprets it on all five policies. \<open>WorkloadManager\<close> models the other manager and
  relates the two: the policy manager is a refinement of the set of processes its events tell
  of. \<open>Containment\<close> has the facts about quarantine over whole runs, and \<open>EndToEnd\<close> the ways from a
  sample to the frozen cgroup and from an operator's request to the thawed one.

  \<^bold>\<open>Monitors, threads and interfaces.\<close> \<open>SecurityMonitor\<close> and \<open>MonitorFacts\<close>, \<open>PlatformMonitor\<close>,
  \<open>ProcListener\<close>, \<open>Json\<close> with \<open>KonroHttp\<close>, and \<open>KonroLib\<close> model the classes of these names; \<open>KonroManager\<close>
  the composition. Threads are step relations over program points: \<open>EventBus\<close> (the loop of a
  receiver against its queue), \<open>PolicyTimer\<close> (the periodic loops), \<open>LockOrder\<close> (the mutexes that are
  held together, the one deadlock they have, and that there is no other). Their facts are
  invariants by rule induction, over every interleaving with \<open>stop\<close>. \<open>KonroSystem\<close> joins the
  managers, the monitor, the bus and the queues to the running program, over any kernel that
  others may change at any time; its locale \<open>konro_threads\<close> proves the invariants for every policy
  that honours \<open>policy_contract\<close> and every control that honours \<open>platform_control\<close>, and
  \<open>SystemProperties\<close> interprets it on the five policies. Its scheduler \<open>sys_schedule\<close> runs the
  program on a list of turns; every run of it is a run of the step relation, and gives the
  concrete runs of the witnesses. \<open>ContainmentSpec\<close> is the abstract specification of containment:
  a state for each process as a function of the events, with no kernel, cache or policy in it.
  The mappings of every reachable state are what it computes from the events that the schedule
  has made the manager handle, and no application is contained without an alert of its own.

  \<^bold>\<open>Configuration and main.\<close> \<open>Ini\<close> has the map of \<open>lib/mini/ini.h\<close> with its index of positions, refined
  to association lists, \<open>IniFile\<close> its parser, reader and generator, refined to a fold over the
  lines of the text. \<open>IniWriter\<close> has the writer, which changes a file in place; \<open>IniWritten\<close> (a
  line), \<open>IniEntries\<close> (what a list of lines is read as) and \<open>IniWriteBack\<close> (the invariants of its
  loops) prove that the file it leaves is read back as the structure written. \<open>KonroConfig\<close> has
  \<open>common/src/config.cpp\<close> and the members of \<open>KonroManager\<close> with their defaults. \<open>KonroMain\<close> has
  \<open>main.cpp\<close>, with the points at which Ctrl-C can interrupt it and the early returns of the
  listener, and \<open>KonroTimer\<close> has \<open>timer.h\<close> and \<open>threadname.h\<close>.

  \<^bold>\<open>Tests and clients.\<close> \<open>ControlProgram\<close> models \<open>platformcontrol/tpc\<close>, \<open>TopologyTest\<close> \<open>testhwloc\<close>,
  \<open>UnitTests\<close> the tests of parsers, unit vectors, containment and index, and \<open>QueueTest\<close> that of the
  queue, with every schedule of its consumers; they run on the model, and what they expect of
  the code is proved of it. \<open>ClientPrograms\<close> has the two programs that link \<open>konrolib\<close>, \<open>testkonrolib\<close>
  and \<open>peopledetect\<close>, joined to the handlers of the server, and \<open>TrialPrograms\<close> has \<open>testnamespaces\<close>,
  \<open>testtimer\<close> and the test of \<open>findCgroupPath\<close>.

  \<^bold>\<open>Bounds and loops.\<close> No fuel is used. Loops over data are structural recursions or have a
  measure. The walk over a netlink datagram, the listener's main loop and the loop of the people
  detector need not end and are partial functions, where \<open>None\<close> is a call that never returns:
  \<open>walk_ends\<close> gives the datagrams on which the walk ends, \<open>noop_hangs\<close> one on which it does not, and
  \<open>detector_reports\<close> the videos on which the detector ends.

  \<^bold>\<open>Not modelled.\<close> \<open>testsensors\<close> prints what \<open>libsensors\<close> answers and decides nothing on it. \<open>lib/json\<close>
  and \<open>lib/httplib\<close> are third-party. OpenCV, the JSON parser, the HTTP server, \<open>libsensors\<close>, hwloc,
  the netlink structures, the clocks and \<open>std::exp\<close> are parameters. Random choices of \<open>RandPolicy\<close>
  are read from its state. A step of the running program is a whole handler, since a handler
  works on its own component; the one object that two threads work on, the set of the security
  monitor, is guarded by its mutex (\<open>LockOrder\<close>).
\<close>

section \<open>Concrete instances\<close>

text \<open>A security-aware policy on the topology of four units, and an application under it.\<close>

definition demo_policy :: sa_state where
  "demo_policy = new_sa_state ram_topology"

definition demo_mapping :: app_mapping where
  "demo_mapping = new_app_mapping ram_app"

definition demo_frozen :: app_mapping where
  "demo_frozen = demo_mapping\<lparr>secState := \<lparr>st_state = QUARANTINE, belowCount = 0\<rparr>, quarantine := True\<rparr>"

definition demo_manager :: "sa_state policy_manager" where
  "demo_manager = \<lparr> pm_apps = [demo_frozen], pm_policy = demo_policy \<rparr>"

lemmas demo_defs = demo_policy_def demo_mapping_def demo_frozen_def demo_manager_def

lemma not_moved_ram [simp]: "\<not> doNotMoveApp ram_os ram_app"
  by (simp add: doNotMoveApp_def ram_app_def makeApp_def)

lemma demo_manager_inv: "pm_inv (sa_inv ram_topology) demo_manager"
  by (simp add: demo_manager_def pm_inv_def demo_policy_def sa_inv_new)

lemma demo_manager_holds: "holds_quarantined 42 demo_manager"
  by (simp add: holds_quarantined_def demo_defs quarantined_def am_getPid_def new_app_mapping_def ram_app_def
      makeApp_def)

section \<open>Containment\<close>

text \<open>
  An alert whose index calls for quarantine, given the security level of the application,
  freezes the cgroup of the application: the only thing written is \<open>1\<close> to its
  \<open>cgroup.freeze\<close>, the mapping is marked, and the state machine is in quarantine.
\<close>

theorem alert_freezes:
  assumes "st_state (secState am) \<noteq> QUARANTINE" and "\<not> doNotMoveApp pf (am_app am)"
    and "target sai (sa_thresholds p) (tolOffset (securityLevel am)) = QUARANTINE"
    and "os_write pf (freeze_path pf (am_app am)) ''1'' k = (True, k')"
  shows "sa_securityAlert pf topology sai factors labels ((k, am), p)
    = (Inr (), ((k', am\<lparr>am_sai := sai, secState := \<lparr>st_state = QUARANTINE, belowCount = 0\<rparr>, quarantine := True\<rparr>), p))"
  using assms by (rule alert_quarantines)

lemma demo_target: "target (f32 95 100) (sa_thresholds demo_policy) (tolOffset HIGH) = QUARANTINE"
  unfolding demo_policy_def new_sa_state_def by code_simp

theorem alert_freezes_witness:
  "sa_securityAlert ram_os ram_topology (f32 95 100) zero_factors [] ((ram_start, demo_mapping), demo_policy)
    = (Inr (), ((snd (os_write ram_os (freeze_path ram_os ram_app) ''1'' ram_start),
        demo_mapping\<lparr>am_sai := f32 95 100, secState := \<lparr>st_state = QUARANTINE, belowCount = 0\<rparr>, quarantine := True\<rparr>), demo_policy))"
proof -
  have a: "am_app demo_mapping = ram_app" "securityLevel demo_mapping = HIGH" "st_state (secState demo_mapping) \<noteq> QUARANTINE"
    by (simp_all add: demo_mapping_def new_app_mapping_def ram_app_def makeApp_def new_tracker_def)
  have "fst (os_write ram_os (freeze_path ram_os ram_app) ''1'' ram_start)" by code_simp
  then have w: "os_write ram_os (freeze_path ram_os ram_app) ''1'' ram_start
      = (True, snd (os_write ram_os (freeze_path ram_os ram_app) ''1'' ram_start))" by (metis prod.collapse)
  from alert_freezes [of demo_mapping ram_os "f32 95 100" demo_policy ram_start, unfolded a, OF _ _ demo_target w]
  show ?thesis using a(3) not_moved_ram by blast
qed

text \<open>
  C1: An application in quarantine stays there. Whatever events the policy manager handles
  under \<open>SecurityAwarePolicy\<close>, and whether or not a handler throws, the mapping keeps its
  quarantine flag and its state until the process is cleared by the operator or removed.
\<close>

theorem quarantine_holds:
  assumes "pm_inv (sa_inv topology) pm" and "holds_quarantined pid pm"
    and "\<forall>ev\<in>set evs. \<not> ends_quarantine pid ev"
  shows "holds_quarantined pid (snd (snd (pm_events (SecurityAwarePolicy pf topology) evs (k, pm))))"
  using assms by (rule events_quarantined)

theorem quarantine_holds_witness:
  "holds_quarantined 42 (snd (snd (pm_events (SecurityAwarePolicy ram_os ram_topology)
     [SecurityEvent ram_app (Fin 0) zero_factors [], FeedbackEvent ram_app 10, ClearEvent 7, AddEvent ram_app]
     (ram_start, demo_manager))))"
  by (rule quarantine_holds [OF demo_manager_inv demo_manager_holds]) simp

text \<open>
  C2: Nothing but an operator's clear thaws a cgroup. A property of the kernel that survives
  reads and every write except one of another value than \<open>1\<close> to a \<open>cgroup.freeze\<close> file
  survives every run of the policy manager without a clear event.
\<close>

theorem frozen_until_clear:
  assumes "survives_all_but_thaw pf F" and "\<forall>ev\<in>set evs. \<not> is_clear ev" and "F k"
  shows "F (fst (snd (pm_events (SecurityAwarePolicy pf topology) evs (k, pm))))"
  using keepsD [OF keeps_thaw_events [OF assms(1,2)], of "(k, pm)"] assms(3) by simp

definition ram_frozen :: "ram \<Rightarrow> bool" where
  "ram_frozen k \<longleftrightarrow> map_of (ram_files k) (freeze_path ram_os ram_app) = Some (''1'' @ [NEWLINE])"

lemma ram_frozen_survives: "survives_all_but_thaw ram_os ram_frozen"
  by (auto simp: survives_all_but_thaw_def ram_frozen_def ram_os_def ram_read_def ram_stat_def ram_write_def
      update_conv freeze_path_def control_path_def)

theorem frozen_until_clear_witness:
  "ram_frozen (fst (snd (pm_events (SecurityAwarePolicy ram_os ram_topology)
     [AddEvent ram_app, FeedbackEvent ram_app 10, RemoveEvent ram_app]
     (snd (os_write ram_os (freeze_path ram_os ram_app) ''1'' ram_start), new_policy_manager demo_policy))))"
proof (rule frozen_until_clear [OF ram_frozen_survives])
  show "ram_frozen (snd (os_write ram_os (freeze_path ram_os ram_app) ''1'' ram_start))" by code_simp
qed simp

text \<open>
  The operator's clear resets an application completely: once \<open>0\<close> has been written to its
  \<open>cgroup.freeze\<close>, the state machine is as new, the quarantine flag is down and the index is
  0, also when lifting the other restrictions fails afterwards.
\<close>

theorem clear_resets_mapping:
  assumes "\<not> doNotMoveApp pf (am_app am)" and "os_write pf (freeze_path pf (am_app am)) ''0'' k = (True, k')"
  shows "reset_mapping (snd (fst (snd (sa_clearApp pf topology ((k, am), p)))))"
  using assms by (rule clear_resets)

theorem clear_resets_mapping_witness:
  "reset_mapping (snd (fst (snd (sa_clearApp ram_os ram_topology ((ram_start, demo_frozen), demo_policy)))))"
proof -
  have a: "am_app demo_frozen = ram_app" by (simp add: demo_defs new_app_mapping_def)
  have "fst (os_write ram_os (freeze_path ram_os ram_app) ''0'' ram_start)" by code_simp
  then have "os_write ram_os (freeze_path ram_os ram_app) ''0'' ram_start
      = (True, snd (os_write ram_os (freeze_path ram_os ram_app) ''0'' ram_start))" by (metis prod.collapse)
  with clear_resets_mapping [of ram_os demo_frozen ram_start, unfolded a] not_moved_ram show ?thesis by blast
qed

text \<open>
  C3: From the sample to the freezer: when the factors of a sample give an index that calls for
  quarantine at the security level of the application, the event that the scan publishes makes
  the policy manager freeze the cgroup, by the one write of \<open>1\<close>, and hold the application in
  quarantine.
\<close>

theorem detection_freezes:
  assumes "assess expf (sm_config sm) sp (baseline_of (getPid app) sm) = (f, labels, b)"
    and "target (computeSai f (cfg_weights (sm_config sm))) (sa_thresholds (pm_policy pm)) (tolOffset (securityLevel am)) = QUARANTINE"
    and "pm_inv (sa_inv topology) pm" and "ks_find am_getPid (getPid app) (pm_apps pm) = Some am"
    and "st_state (secState am) \<noteq> QUARANTINE" and "\<not> doNotMoveApp pf (am_app am)"
    and "os_write pf (freeze_path pf (am_app am)) ''1'' k = (True, k')"
  shows "\<exists>pm'. pm_processEvent (SecurityAwarePolicy pf topology) (last (sm_published (report expf app sp sm))) (k, pm)
      = (Inr True, (k', pm')) \<and> holds_quarantined (getPid app) pm'"
  unfolding report_event [OF assms(1)] using assms(3-6) assms(2) assms(7) by (rule manager_freezes)

text \<open>A monitor whose weights take any unexpected binary for an attack.\<close>

definition wary_monitor :: security_monitor where
  "wary_monitor =
     (setSaiConfig (default_weights\<lparr>newExec := f32 1 1\<rparr>) (f32 3 10) (new_security_monitor 10))
       \<lparr>sm_apps := [ram_app], sm_baselines := [(42, new_baseline\<lparr>b_forkRate := \<lparr>mean = f32 1 1, var = Fin 0, count = 7\<rparr>\<rparr>)]\<rparr>"

definition intruded_sample :: sample where
  "intruded_sample =
     \<lparr> sp_pids = [(42, 9)], sp_conns = no_conns, sp_tx = 0, sp_exes = [''/tmp/x''], sp_raw = False, sp_cpu = 0, sp_mem = 0 \<rparr>"

definition demo_running :: "sa_state policy_manager" where
  "demo_running = \<lparr> pm_apps = [demo_mapping], pm_policy = demo_policy \<rparr>"

lemma demo_running_inv: "pm_inv (sa_inv ram_topology) demo_running"
  by (simp add: demo_running_def pm_inv_def demo_policy_def sa_inv_new)

lemma demo_running_find: "ks_find am_getPid 42 (pm_apps demo_running) = Some demo_mapping"
  by (simp add: demo_running_def demo_mapping_def new_app_mapping_def am_getPid_def ram_app_def makeApp_def)

theorem detection_freezes_witness:
  "holds_quarantined 42 (snd (snd (pm_processEvent (SecurityAwarePolicy ram_os ram_topology)
     (last (sm_published (report (\<lambda>_. f32 1 1) ram_app intruded_sample wary_monitor))) (ram_start, demo_running))))"
proof -
  obtain f labels b where a: "assess (\<lambda>_. f32 1 1) (sm_config wary_monitor) intruded_sample (baseline_of (getPid ram_app) wary_monitor)
      = (f, labels, b)" by (metis prod_cases3)
  have "target (computeSai (fst (assess (\<lambda>_. f32 1 1) (sm_config wary_monitor) intruded_sample (baseline_of (getPid ram_app) wary_monitor)))
      (cfg_weights (sm_config wary_monitor))) (sa_thresholds (pm_policy demo_running)) (tolOffset (securityLevel demo_mapping)) = QUARANTINE"
    unfolding demo_running_def by code_simp
  then have t: "target (computeSai f (cfg_weights (sm_config wary_monitor))) (sa_thresholds (pm_policy demo_running))
      (tolOffset (securityLevel demo_mapping)) = QUARANTINE" by (simp only: a fst_conv)
  have p: "getPid ram_app = 42" by (simp add: ram_app_def makeApp_def)
  have m: "am_app demo_mapping = ram_app" "st_state (secState demo_mapping) \<noteq> QUARANTINE"
    by (simp_all add: demo_mapping_def new_app_mapping_def new_tracker_def)
  have "fst (os_write ram_os (freeze_path ram_os ram_app) ''1'' ram_start)" by code_simp
  then have w: "os_write ram_os (freeze_path ram_os (am_app demo_mapping)) ''1'' ram_start
      = (True, snd (os_write ram_os (freeze_path ram_os ram_app) ''1'' ram_start))" unfolding m(1) by (metis prod.collapse)
  from detection_freezes [OF a t demo_running_inv _ m(2) _ w] demo_running_find not_moved_ram
  show ?thesis by (auto simp: p m(1))
qed

text \<open>What a thawed application looks like in the kernel in memory.\<close>

definition ram_thawed :: "ram \<Rightarrow> bool" where
  "ram_thawed k \<longleftrightarrow> map_of (ram_files k) (freeze_path ram_os ram_app) = Some (''0'' @ [NEWLINE])"

lemma ram_thawed_survives: "survives_other_files ram_os ram_thawed"
  by (auto simp: survives_other_files_def ram_thawed_def ram_os_def ram_read_def ram_stat_def ram_write_def
      update_conv freeze_path_def control_path_def)

lemma thaw_written: "os_write ram_os (freeze_path ram_os ram_app) ''0'' ram_start
    = (True, snd (os_write ram_os (freeze_path ram_os ram_app) ''0'' ram_start))"
  "ram_thawed (snd (os_write ram_os (freeze_path ram_os ram_app) ''0'' ram_start))"
proof -
  have "fst (os_write ram_os (freeze_path ram_os ram_app) ''0'' ram_start)" by code_simp
  then show "os_write ram_os (freeze_path ram_os ram_app) ''0'' ram_start
      = (True, snd (os_write ram_os (freeze_path ram_os ram_app) ''0'' ram_start))" by (metis prod.collapse)
  show "ram_thawed (snd (os_write ram_os (freeze_path ram_os ram_app) ''0'' ram_start))"
    unfolding ram_thawed_def by code_simp
qed

text \<open>
  C4: From the operator to the thaw: a clear request for a process is answered and published
  once; the event makes the policy manager write \<open>0\<close> to the freezer, and nothing that it does
  afterwards undoes it: whatever the write establishes, and only another write to a
  \<open>cgroup.freeze\<close> could destroy, holds of the kernel when the event has been handled. The mapping
  it leaves has the state machine as new, the quarantine flag down and the index 0. Both also
  hold when lifting the other restrictions fails.
\<close>

theorem clear_request_resets:
  assumes "json_parse lib body = Some j" and "map_of (members j) ''pid'' = Some (JUnsigned w)"
    and "pm_inv (sa_inv topology) pm" and "ks_find am_getPid (u64_to_int w) (pm_apps pm) = Some am"
    and "\<not> doNotMoveApp pf (am_app am)" and "os_write pf (freeze_path pf (am_app am)) ''0'' k = (True, k')"
  shows "\<exists>reply ev am'. http_request pf lib POST ''/clear'' body (k, []) = (Inr (Some reply), (k, [ev])) \<and>
    (\<forall>F. survives_other_files pf F \<and> F k' \<longrightarrow>
       F (fst (snd (pm_processEvent (SecurityAwarePolicy pf topology) ev (k, pm))))) \<and>
    ks_find am_getPid (u64_to_int w) (pm_apps (snd (snd (pm_processEvent (SecurityAwarePolicy pf topology) ev (k, pm))))) = Some am' \<and>
    reset_mapping am'"
proof -
  obtain reply where "http_request pf lib POST ''/clear'' body (k, []) = (Inr (Some reply), (k, [ClearEvent (u64_to_int w)]))"
    using clear_request [OF assms(1,2), of pf k "[]"] by auto
  moreover obtain am' where "ks_find am_getPid (u64_to_int w)
      (pm_apps (snd (snd (pm_processEvent (SecurityAwarePolicy pf topology) (ClearEvent (u64_to_int w)) (k, pm))))) = Some am'"
    "reset_mapping am'"
    using manager_resets [OF assms(3-6)] by blast
  ultimately show ?thesis using manager_thaws [OF assms(4-6)] by blast
qed

theorem clear_request_resets_witness:
  "\<exists>reply ev am'. http_request ram_os (two_documents (JObject [(''pid'', JUnsigned 42)]) JNull) POST ''/clear'' ''a'' (ram_start, [])
      = (Inr (Some reply), (ram_start, [ev])) \<and>
    ram_thawed (fst (snd (pm_processEvent (SecurityAwarePolicy ram_os ram_topology) ev (ram_start, demo_manager)))) \<and>
    ks_find am_getPid 42 (pm_apps (snd (snd (pm_processEvent (SecurityAwarePolicy ram_os ram_topology) ev (ram_start, demo_manager))))) = Some am' \<and>
    reset_mapping am'"
proof -
  have n: "u64_to_int 42 = 42" by (simp add: u64_to_int_def to_int32_def)
  have f: "ks_find am_getPid 42 (pm_apps demo_manager) = Some demo_frozen" "am_app demo_frozen = ram_app"
    by (simp_all add: demo_defs am_getPid_def new_app_mapping_def ram_app_def makeApp_def)
  have j: "json_parse (two_documents (JObject [(''pid'', JUnsigned 42)]) JNull) ''a'' = Some (JObject [(''pid'', JUnsigned 42)])"
    by (simp add: two_documents_def)
  have w: "os_write ram_os (freeze_path ram_os (am_app demo_frozen)) ''0'' ram_start
      = (True, snd (os_write ram_os (freeze_path ram_os ram_app) ''0'' ram_start))" unfolding f(2) by (rule thaw_written(1))
  have p: "map_of (members (JObject [(''pid'', JUnsigned 42)])) ''pid'' = Some (JUnsigned 42)" by simp
  have a: "ks_find am_getPid (u64_to_int 42) (pm_apps demo_manager) = Some demo_frozen"
    "\<not> doNotMoveApp ram_os (am_app demo_frozen)" using f not_moved_ram by (simp_all add: n)
  note cleared = clear_request_resets [OF j p demo_manager_inv a w, unfolded n]
  show ?thesis using cleared ram_thawed_survives thaw_written(2) by (elim exE conjE) (intro exI conjI, assumption, blast, assumption+)
qed

text \<open>
  C10: Containment never lags behind the index and never overshoots: after an alert the state
  is at least the one the index calls for and at most the greater of that and the state
  before, and it never drops by more than one level.
\<close>

theorem step_bounds:
  "target sai th off \<le> st_state (step sai th off tr) \<and>
   st_state (step sai th off tr) \<le> max (st_state tr) (target sai th off) \<and>
   sec_int (st_state tr) - 1 \<le> sec_int (st_state (step sai th off tr))"
  using step_at_least_target step_at_most step_one_level by blast

text \<open>
  C11: Hysteresis: over a run of alerts without a clear, every level that is given up has cost
  \<open>dwellN\<close> alerts, those of the count that is running included.
\<close>

theorem recovery_rate:
  assumes "tracker_run th tr es tr'" and "Clear \<notin> set es" and "1 \<le> dwellN th" and "belowCount tr = 0"
  shows "dwellN th * (sec_int (st_state tr) - sec_int (st_state tr')) + belowCount tr' \<le> int (length es)"
  using run_recovery_rate [OF assms] by (rule conjunct1)

theorem recovery_rate_witness:
  "3 * (1 - sec_int (st_state (step (Fin 0) default_thresholds (Fin 0) \<lparr>st_state = THROTTLE, belowCount = 0\<rparr>)))
     + belowCount (step (Fin 0) default_thresholds (Fin 0) \<lparr>st_state = THROTTLE, belowCount = 0\<rparr>) \<le> 1"
proof -
  let ?tr = "\<lparr>st_state = THROTTLE, belowCount = 0\<rparr>"
  have d: "dwellN default_thresholds = 3" by (simp add: default_thresholds_def)
  have "tracker_run default_thresholds ?tr ([] @ [Alert (Fin 0) (Fin 0)]) (step (Fin 0) default_thresholds (Fin 0) ?tr)"
    by (rule run_Alert [OF run_Nil])
  from recovery_rate [OF this] show ?thesis by (simp add: d)
qed

text \<open>
  C12: Recovery: from any state but quarantine, \<open>dwellN\<close> alerts for each level with an index
  below the first threshold bring the application back to \<open>OBSERVE\<close>.
\<close>

theorem full_recovery:
  assumes "\<forall>(sai, off)\<in>set xs. target sai th off = OBSERVE" and "st_state tr \<noteq> QUARANTINE"
    and "belowCount tr = 0" and "1 \<le> dwellN th" and "int (length xs) = dwellN th * sec_int (st_state tr)"
  shows "alerts th xs tr = tr\<lparr>st_state := OBSERVE, belowCount := 0\<rparr>"
  using assms by (rule alerts_recover)

theorem full_recovery_witness:
  "alerts default_thresholds (replicate 6 (f32 1 10, Fin 0)) \<lparr>st_state = RESTRICT, belowCount = 0\<rparr>
     = \<lparr>st_state = OBSERVE, belowCount = 0\<rparr>"
proof -
  have "target (f32 1 10) default_thresholds (Fin 0) = OBSERVE" by code_simp
  then show ?thesis
    using full_recovery [of "replicate 6 (f32 1 10, Fin 0)" default_thresholds "\<lparr>st_state = RESTRICT, belowCount = 0\<rparr>"]
    by (simp add: default_thresholds_def)
qed

text \<open>
  Availability first: for the same index and thresholds an application of a higher
  security level is never contained more severely.
\<close>

theorem higher_level_tolerated:
  assumes "is_finite (t1 th)" "is_finite (t2 th)" "is_finite (t3 th)" and "l \<le> l'"
  shows "target sai th (tolOffset l') \<le> target sai th (tolOffset l)"
  using assms by (intro target_antimono_off tolOffset_mono)

theorem higher_level_tolerated_witness:
  "target (f32 65 100) default_thresholds (tolOffset CRITICAL) \<le> target (f32 65 100) default_thresholds (tolOffset LOW)"
proof (rule higher_level_tolerated)
  show "is_finite (t1 default_thresholds)" "is_finite (t2 default_thresholds)" "is_finite (t3 default_thresholds)"
    by code_simp+
qed (simp add: less_eq_security_level_def)

section \<open>The anomaly index\<close>

text \<open>
  C13: With weights and factors in the unit interval, more signal never gives a lower index.
\<close>

theorem index_monotone:
  assumes "unit_factors w" and "unit_factors f" and "unit_factors g" and "factors_le f g"
  shows "fle (computeSai f w) (computeSai g w)"
  using assms by (rule computeSai_mono)

theorem index_monotone_witness:
  "fle (computeSai zero_factors default_weights) (computeSai (zero_factors\<lparr>newExec := f32 1 1\<rparr>) default_weights)"
proof (rule index_monotone)
  show "unit_factors default_weights" "unit_factors zero_factors" "unit_factors (zero_factors\<lparr>newExec := f32 1 1\<rparr>)"
    "factors_le zero_factors (zero_factors\<lparr>newExec := f32 1 1\<rparr>)"
    by code_simp+
qed

text \<open>
  A factor is in the unit interval, or not a number, whatever the baseline and the
  sample, for an exponential that maps what is not positive into the unit interval.
\<close>

theorem deviation_in_unit:
  assumes "\<And>y. fle y (Fin 0) \<Longrightarrow> unit_flt (expf y)" and "expf NaN = NaN"
  shows "deviation expf e x = NaN \<or> unit_flt (deviation expf e x)"
  using assms by (rule deviation_unit)

theorem deviation_in_unit_witness:
  "deviation (\<lambda>y. if y = NaN then NaN else f32 5 10) \<lparr>mean = Fin 0, var = Fin 0, count = 7\<rparr> (f32 3 1) = NaN \<or>
   unit_flt (deviation (\<lambda>y. if y = NaN then NaN else f32 5 10) \<lparr>mean = Fin 0, var = Fin 0, count = 7\<rparr> (f32 3 1))"
proof (rule deviation_in_unit)
  have "unit_flt (f32 5 10)" by code_simp
  then show "unit_flt (if y = NaN then NaN else f32 5 10)" if "fle y (Fin 0)" for y
    using that by (cases y) auto
qed simp

section \<open>The security monitor\<close>

text \<open>
  Whatever the monitor is called to do and whatever it reads from the kernel, every
  index it publishes lies in the unit interval, there is at most one baseline for a process
  id, and none outlives its application.
\<close>

theorem monitor_state_ok:
  "case monitor_run expf pf calls (k, new_security_monitor period) of (r, (k', sm)) \<Rightarrow> sane sm \<and> baselines_ok sm"
  using keepsD [OF monitor_run_sane, of "(k, new_security_monitor period)" expf pf calls]
    keepsD [OF monitor_run_baselines, of "(k, new_security_monitor period)" expf pf calls]
  by (simp add: new_monitor_ok split_beta)

text \<open>
  No false alarm while warming up: the first four samples of an application give eight
  factors of 0, whatever was sampled, and with them an index of 0.
\<close>

theorem quiet_warmup:
  assumes "i < 4" and "i < length sps"
  shows "assess_all expf cfg sps new_baseline ! i = zero_factors \<and>
    computeSai (assess_all expf cfg sps new_baseline ! i) w = Fin 0"
  using assess_all_young [OF young_new, of i sps expf cfg] assms by (simp add: computeSai_zero)

definition demo_sample :: sample where
  "demo_sample =
     \<lparr> sp_pids = [(42, 9)], sp_conns = \<lparr> cc_dests = [''0100007F''], cc_syn = 1, cc_total = 1 \<rparr>, sp_tx = 5000,
       sp_exes = [''/bin/sh''], sp_raw = True, sp_cpu = 100, sp_mem = 4096 \<rparr>"

theorem quiet_warmup_witness:
  "assess_all (\<lambda>_. Fin 0) (sm_config (new_security_monitor 2)) [demo_sample, demo_sample] new_baseline ! 1 = zero_factors \<and>
   computeSai (assess_all (\<lambda>_. Fin 0) (sm_config (new_security_monitor 2)) [demo_sample, demo_sample] new_baseline ! 1)
     default_weights = Fin 0"
  by (rule quiet_warmup) simp_all

text \<open>
  A raw socket is reported at most once in the life of a baseline.
\<close>

theorem raw_socket_once:
  "length (filter (\<lambda>f. rawSocket f \<noteq> Fin 0) (assess_all expf cfg sps b)) \<le> (if rawSocketFired b then 0 else 1)"
  by (rule raw_at_most_once)

text \<open>
  The factor for unexpected binaries is raised exactly when the application is past its
  warm-up and a sampled executable is not among those seen before; and every executable
  sampled is among them afterwards.
\<close>

theorem unexpected_exec:
  "(newExec (fst (assess expf cfg sp b)) \<noteq> Fin 0 \<longleftrightarrow>
      \<not> warming (ewma_update (float_of_int (int (length (sp_pids sp)))) (cfg_alpha cfg) (b_forkRate b)) \<and>
      \<not> set (sp_exes sp) - {[]} \<subseteq> set (knownExecs b)) \<and>
   set (knownExecs (snd (snd (assess expf cfg sp b)))) = set (knownExecs b) \<union> (set (sp_exes sp) - {[]})"
  using assess_exec by blast

text \<open>
  C14: Nothing is read of a process id that another process has taken over since the cgroup
  was sampled: no open socket, no connection, no transmitted byte, no raw socket, no executable
  is attributed to the application. Of the sockets of a sample it contributes nothing, wherever
  in the sample it is; the other processes contribute what they would without it.
\<close>

theorem recycled_pid_ignored:
  assumes "st \<noteq> 0" and "0 < pid" and "getProcessStarttime pf pid k = (Inr st', k')" and "st' \<noteq> st"
  shows "countConnections pf inodes pid st k = (Inr no_conns, k') \<and> getTxBytes pf pid st k = (Inr 0, k') \<and>
    fst (hasRawSockets pf inodes pid st k) = Inr False \<and> getProcessExe pf pid st k = (Inr [], k') \<and>
    socketInodes pf ((pid, st) # ps) k = socketInodes pf ps k' \<and>
    (socketInodes pf before k0 = (Inr is, k) \<longrightarrow>
       socketInodes pf (before @ (pid, st) # ps) k0 = bnd (socketInodes pf ps) (\<lambda>js. ret (is @ js)) k')"
  using verify_recycled [OF assms(1,3,4)] recycled_reads [of pf pid st k k'] recycled_exe [of pf pid st k k'] assms(2)
    recycled_inodes [of pf pid st k k' ps] recycled_inodes_within [of pf pid st k k' before k0 "is" ps]
  by blast

definition ram_monitor :: "ram mon_platform" where
  "ram_monitor = platform.extend ram_os \<lparr> os_readlink = (\<lambda>path k. (None, k)) \<rparr>"

definition ram_recycled :: ram where
  "ram_recycled =
     \<lparr> ram_files = [(''/proc/42/stat'', ''42 (sh) S 1 1 1 0 -1 0 0 0 0 0 0 0 0 0 20 0 1 0 77 0'')], ram_dirs = [] \<rparr>"

theorem recycled_pid_ignored_witness:
  "countConnections ram_monitor [3] 42 55 ram_recycled = (Inr no_conns, ram_recycled) \<and>
   getTxBytes ram_monitor 42 55 ram_recycled = (Inr 0, ram_recycled) \<and>
   fst (hasRawSockets ram_monitor [3] 42 55 ram_recycled) = Inr False \<and>
   getProcessExe ram_monitor 42 55 ram_recycled = (Inr [], ram_recycled) \<and>
   socketInodes ram_monitor [(42, 55)] ram_recycled = (Inr [], ram_recycled)"
proof -
  have "getProcessStarttime ram_monitor 42 ram_recycled = (Inr 77, ram_recycled)" by code_simp
  from recycled_pid_ignored [OF _ _ this, of 55, where inodes = "[3]" and ps = "[]"]
  show ?thesis by (simp add: ret_def del: socketInodes.simps(2))
qed

section \<open>The managers\<close>

text \<open>
  Under \<open>SecurityAwarePolicy\<close> the policy manager keeps its set ordered and without two
  entries for a process, one counter per unit and only existing units assigned, whether or
  not a handler throws; and as long as none does, it holds exactly the processes added and
  not removed.
\<close>

theorem security_manager_follows:
  "case pm_events (SecurityAwarePolicy pf topology) evs (k, new_policy_manager (new_sa_state topology)) of
     (r, (k', pm)) \<Rightarrow> pm_inv (sa_inv topology) pm \<and> (isl r \<or> pm_pids pm = fold spec_pids evs {})"
  using sa_manager.events_ok [OF new_manager(1) [where I = "sa_inv topology", OF sa_inv_new], of pf evs k]
  by (auto simp: new_manager(2) split: prod.split)

text \<open>
  The same for \<open>PuProgressivePolicy\<close> and \<open>MinCoresPolicy\<close>, with their counter per unit.
\<close>

theorem placing_managers_follow:
  "(case pm_events (PuProgressivePolicy pf topology) evs (k, new_policy_manager (new_pu_state topology)) of
      (r, (k', pm)) \<Rightarrow> pm_inv (one_counter_each topology) pm \<and> (isl r \<or> pm_pids pm = fold spec_pids evs {})) \<and>
   (case pm_events (MinCoresPolicy pf topology) evs (k, new_policy_manager (new_pu_state topology)) of
      (r, (k', pm)) \<Rightarrow> pm_inv (one_counter_each topology) pm \<and> (isl r \<or> pm_pids pm = fold spec_pids evs {}))"
  using pp_manager.events_ok [OF new_manager(1) [where I = "one_counter_each topology", OF new_pu_state_counters], of pf evs k]
    mc_manager.events_ok [OF new_manager(1) [where I = "one_counter_each topology", OF new_pu_state_counters], of pf evs k]
  by (auto simp: new_manager(2) split: prod.split)

text \<open>
  Whatever events the workload manager handles over the cgroup hierarchy, its set has one
  entry for a process, and whoever follows the events it has published knows exactly the
  processes in it, also after a handler has thrown.
\<close>

theorem workload_tells:
  "case wm_events os (cgroup_ops pf) abi evs (k, new_workload_manager cc ck) of
     (r, (k', w)) \<Rightarrow> ks_inv getPid (wm_apps w) \<and> fold told (wm_published w) {} = wm_pids w"
proof -
  have "wm_inv (snd (snd (wm_events os (cgroup_ops pf) abi evs (k, new_workload_manager cc ck))))"
    by (rule keepsD [OF cgroup_pc.wm_events_inv]) (simp add: wm_inv_new)
  then show ?thesis by (simp add: wm_inv_def split_beta)
qed

text \<open>
  The two managers agree over a whole run, one after the other: the policy manager, fed with what the workload manager has
  published, holds the same processes, unless one of its handlers throws.
\<close>

theorem managers_agree:
  "case wm_events os (cgroup_ops pf) abi evs (k, new_workload_manager cc ck) of (r, (k', w)) \<Rightarrow>
   case pm_events (SecurityAwarePolicy pf' topology) (wm_published w) (k2, new_policy_manager (new_sa_state topology)) of
     (r2, (k3, pm)) \<Rightarrow> isl r2 \<or> pm_pids pm = wm_pids w"
proof -
  obtain r k' w where wm: "wm_events os (cgroup_ops pf) abi evs (k, new_workload_manager cc ck) = (r, (k', w))"
    by (metis prod.collapse)
  obtain r2 k3 pm where pm: "pm_events (SecurityAwarePolicy pf' topology) (wm_published w)
      (k2, new_policy_manager (new_sa_state topology)) = (r2, (k3, pm))"
    by (metis prod.collapse)
  have "wm_inv w" using keepsD [OF cgroup_pc.wm_events_inv, of "(k, new_workload_manager cc ck)" os pf abi evs] wm
    by (simp add: wm_inv_new)
  moreover have "told = spec_pids" by (rule told_spec)
  ultimately have "fold spec_pids (wm_published w) {} = wm_pids w" by (simp add: wm_inv_def)
  moreover have "isl r2 \<or> pm_pids pm = fold spec_pids (wm_published w) {}"
    using sa_manager.events_ok [OF new_manager(1) [where I = "sa_inv topology", OF sa_inv_new] pm]
    by (auto simp: new_manager(2))
  ultimately show ?thesis by (simp add: wm pm)
qed

section \<open>Control groups\<close>

text \<open>
  C15: Adding and removing an application of Konro's own hierarchy never throws; and when an
  addition succeeds, the directories of its cgroup have been made and then its process id,
  and nothing else, has been written to the \<open>cgroup.procs\<close> file in the last of them.
\<close>

theorem application_added:
  assumes "\<not> doNotMoveApp pf app"
  shows "(\<exists>r. fst (addApplication pf app k) = Inr r) \<and> (\<exists>r. fst (removeApplication pf app k) = Inr r) \<and>
    (addApplication pf app k = (Inr (True, app'), k') \<longrightarrow>
       app' = setCgroupDir (getCgroupKonroAppDir pf (getPid app)) app \<and>
       (\<exists>k1. mkdir_r pf (getCgroupKonroAppDir pf (getPid app)) k = (Inr (), k1) \<and>
          os_write pf (control_path pf (getPid app) ''cgroup.procs'') (show_int (getPid app)) k1 = (True, k')))"
  using raises_FalseD [OF raises_addApplication [OF assms], of k] raises_FalseD [OF raises_removeApplication, of pf app k]
    addApplication_True [OF assms, of k app' k']
  by (auto simp: control_path_def)

theorem application_added_witness:
  "\<exists>k1. mkdir_r ram_os (getCgroupKonroAppDir ram_os 42) ram_start = (Inr (), k1) \<and>
     os_write ram_os (control_path ram_os 42 ''cgroup.procs'') ''42'' k1
       = (True, snd (addApplication ram_os ram_app ram_start))"
proof -
  have "map_sum id fst (fst (addApplication ram_os ram_app ram_start)) = Inr True" by code_simp
  then obtain app' where a: "addApplication ram_os ram_app ram_start
      = (Inr (True, app'), snd (addApplication ram_os ram_app ram_start))"
    by (cases "addApplication ram_os ram_app ram_start"; cases "fst (addApplication ram_os ram_app ram_start)") auto
  have p: "getPid ram_app = 42" "show_int 42 = ''42''" by code_simp+
  from application_added [OF not_moved_ram, of ram_start app' "snd (addApplication ram_os ram_app ram_start)"] a
  show ?thesis unfolding p by blast
qed

text \<open>
  C16: Activating a controller for a cgroup writes the request to every ancestor of it, from
  the root of the hierarchy downwards, and not to the cgroup itself, as the kernel demands.
\<close>

theorem controller_activated_top_down:
  assumes "ds \<noteq> []" and "path_names ds"
  shows "activateController pf c (join (CHR ''/'') (cgroup_base pf # ds))
    = for_each (ancestors (cgroup_base pf) ds) (enable_in pf c)"
  using assms by (rule activateController_dirs)

theorem controller_activated_top_down_witness:
  "activateController ram_os ''cpu'' ''/cg/konro.slice/app-42.scope''
     = for_each [''/cg'', ''/cg/konro.slice''] (enable_in ram_os ''cpu'')"
proof -
  have "path_names [''konro.slice'', ''app-42.scope'']" by code_simp
  from controller_activated_top_down [OF _ this, of ram_os "''cpu''"] show ?thesis
    by (simp add: ram_os_def ancestors_def upt_conv_Cons)
qed

section \<open>Controllers\<close>

text \<open>
  C17: The processing units set for an application are the units read back, for every vector of
  ranges of units that exist, in any order, overlapping or not, on a kernel whose \<open>cpuset.cpus\<close>
  keeps the set that is written to it and shows it as a list of its own. What is read is the one
  canonical vector of that set, which \<open>toCpusetVector\<close> computes, and the vector itself if it was
  canonical.
\<close>

theorem cpus_set_and_read:
  assumes "\<not> doNotMoveApp pf app" and "shows_units pf (control_path pf (getPid app) ''cpuset.cpus'') existing"
    and "unit_ranges v" and "pus_of v \<subseteq> existing"
  shows "\<exists>w. toCpusetVector_set (toSet v) = Inr w \<and> canonical w \<and> toSet w = toSet v \<and> (canonical v \<longrightarrow> w = v) \<and>
    bnd (setCpus pf v app) (\<lambda>_. getCpus pf app) = bnd (setCpus pf v app) (\<lambda>_. ret w)"
  using assms by (rule set_get_cpus)

theorem cpus_set_and_read_witness:
  "fst (bnd (setCpus ram_cgroup [(3, 3), (0, 0), (1, 1)] ram_app) (\<lambda>_. getCpus ram_cgroup ram_app) ram_start) = Inr [(0, 1), (3, 3)]"
proof -
  let ?v = "[(3, 3), (0, 0), (1, 1)] :: cpuset_vector"
  have m: "\<not> doNotMoveApp ram_cgroup ram_app" using not_moved_ram by (simp add: doNotMoveApp_def ram_cgroup_def)
  have v: "unit_ranges ?v" "pus_of ?v \<subseteq> {0..3}" by (auto simp: unit_ranges_def pu_range_def pus_of_def)
  have u: "shows_units ram_cgroup (control_path ram_cgroup (getPid ram_app) ''cpuset.cpus'') {0..3}"
    by (simp add: control_path_def ram_cgroup_units)
  have "toCpusetVector_set (toSet ?v) = Inr [(0, 1), (3, 3)]" by code_simp
  moreover have "fst (bnd (setCpus ram_cgroup ?v ram_app) (\<lambda>_. ret [(0 :: int, 1 :: int), (3, 3)]) ram_start) = Inr [(0, 1), (3, 3)]"
    by code_simp
  ultimately show ?thesis using cpus_set_and_read [OF m u v] by auto
qed

text \<open>
  The CPU bandwidth set for an application is the one read back, for every percentage
  whose conversion to microseconds fits 64 bits and for \<open>max\<close>, on a kernel whose \<open>cpu.max\<close> shows
  the text written.
\<close>

theorem bandwidth_set_and_read:
  assumes "\<not> doNotMoveApp pf app"
    and "file_shows pf (control_path pf (getPid app) ''cpu.max'') (cpu_max_text v) (cpu_max_text v)" and "cpu_percentage v"
  shows "bnd (cpu_setMax pf v app) (\<lambda>_. cpu_getMax pf app) = bnd (cpu_setMax pf v app) (\<lambda>_. ret v)"
  using assms by (rule set_get_cpu_max)

theorem bandwidth_set_and_read_witness:
  "fst (bnd (cpu_setMax ram_os (NumericValue 150) ram_app) (\<lambda>_. cpu_getMax ram_os ram_app) ram_start) = Inr (NumericValue 150)"
proof -
  have "cpu_percentage (NumericValue 150)" by (simp add: cpu_percentage_def)
  moreover have t: "cpu_max_text (NumericValue 150) = ''150000 100000''"
    by (simp add: cpu_max_text_def isMax_def NUMERIC_VALUE_MAX_def show_u64_def show_int_def cpu_period_def to_u64_def show_number)
  have "fst (bnd (setValue ram_os ''cpu'' ''cpu.max'' ''150000 100000'' ram_app) (\<lambda>_. ret (NumericValue 150)) ram_start)
      = Inr (NumericValue 150)" by code_simp
  then have "fst (bnd (cpu_setMax ram_os (NumericValue 150) ram_app) (\<lambda>_. ret (NumericValue 150)) ram_start)
      = Inr (NumericValue 150)" by (simp only: cpu_setMax_def t)
  ultimately show ?thesis using bandwidth_set_and_read [OF not_moved_ram ram_file_shows] by simp
qed

text \<open>
  A line written to \<open>io.max\<close> for a device is read back as the limit of that device, and as
  nothing for every other one.
\<close>

theorem io_limit_of_device:
  assumes "0 \<le> major" "major < 2 ^ 31" "0 \<le> minor" "minor < 2 ^ 31" and "\<not> isInvalid v"
  shows "parseLineNv_device (io_max_text major minor limit v) major' minor'
    = Inr (if major' = major \<and> minor' = minor then [(keyName limit, v)] else [])"
  using assms by (rule parse_io_max_text)

theorem io_limit_of_device_witness:
  "parseLineNv_device ''8:16 wbps=1048576'' 8 16 = Inr [(''wbps'', NumericValue 1048576)] \<and>
   parseLineNv_device ''8:16 wbps=1048576'' 8 0 = Inr []"
proof -
  have t: "io_max_text 8 16 WBPS (NumericValue 1048576) = ''8:16 wbps=1048576''"
    by (simp add: io_max_text_def nv_show_def NUMERIC_VALUE_MAX_def NUMERIC_VALUE_INVALID_def show_u64_def show_int_def show_number)
  have i: "\<not> isInvalid (NumericValue 1048576)" by code_simp
  show ?thesis
    using io_limit_of_device [of 8 16 "NumericValue 1048576" WBPS 8 16, OF _ _ _ _ i]
      io_limit_of_device [of 8 16 "NumericValue 1048576" WBPS 8 0, OF _ _ _ _ i]
    unfolding t by simp
qed

section \<open>Processing units\<close>

text \<open>
  C18: \<open>addPU\<close> and \<open>removePU\<close> are insertion into and removal from the set of units that a
  vector of ranges stands for, and leave a canonical vector: ordered ranges, not empty, that
  neither overlap nor touch.
\<close>

theorem ranges_are_sets:
  assumes "pu_range vec" and "0 \<le> pu" and "pu < 2 ^ 15"
  shows "(\<exists>v. addPU vec pu = Inr (True, v) \<and> canonical v \<and> pu_range v \<and> set (toSet v) = insert pu (set (toSet vec))) \<and>
    (\<exists>v. removePU vec pu = Inr (True, v) \<and> canonical v \<and> pu_range v \<and> set (toSet v) = set (toSet vec) - {pu})"
proof
  show "\<exists>v. addPU vec pu = Inr (True, v) \<and> canonical v \<and> pu_range v \<and> set (toSet v) = insert pu (set (toSet vec))"
    by (rule addPU_spec [OF assms]) blast
  show "\<exists>v. removePU vec pu = Inr (True, v) \<and> canonical v \<and> pu_range v \<and> set (toSet v) = set (toSet vec) - {pu}"
  proof (rule removePU_spec [OF assms(1)])
    show "pu \<noteq> - 1" using assms(2) by simp
  qed blast
qed

theorem ranges_are_sets_witness:
  "addPU [(0, 1), (3, 5)] 2 = Inr (True, [(0, 5)]) \<and> canonical [(0, 5)] \<and> set (toSet [(0, 5)]) = {0, 1, 2, 3, 4, 5}"
proof -
  have "pu_range [(0, 1), (3, 5)]" by (simp add: pu_range_def)
  from ranges_are_sets [OF this, of 2] have "\<exists>v. addPU [(0, 1), (3, 5)] 2 = Inr (True, v) \<and> canonical v \<and>
    set (toSet v) = insert 2 (set (toSet [(0, 1), (3, 5)]))" by auto
  moreover have "addPU [(0, 1), (3, 5)] 2 = Inr (True, [(0, 5)])" by code_simp
  moreover have "set (toSet [(0, 1), (3, 5)]) = {0, 1, 3, 4, 5}" by code_simp
  ultimately show ?thesis by auto
qed

text \<open>
  C19: On a topology whose units lie at one depth the distance of units is an ultrametric: it
  is 0 from a unit to itself, symmetric, and no detour by a third unit is shorter in both
  its parts. The units within a distance of one another form groups that do not overlap.
\<close>

theorem distance_is_ultrametric:
  assumes "unit_at topology n x" "unit_at topology n y" "unit_at topology n z"
  shows "getPUDistance topology x x = 0 \<and> 0 \<le> getPUDistance topology x y \<and>
    getPUDistance topology x y = getPUDistance topology y x \<and>
    getPUDistance topology x z \<le> max (getPUDistance topology x y) (getPUDistance topology y z)"
  using topo.dist_self topo.dist_nonneg topo.dist_sym topo.dist_ultra assms by blast

lemma ram_units: "unit_at ram_topology 3 0" "unit_at ram_topology 3 1" "unit_at ram_topology 3 3"
  by code_simp+

theorem distance_is_ultrametric_witness:
  "getPUDistance ram_topology 0 3 \<le> max (getPUDistance ram_topology 0 1) (getPUDistance ram_topology 1 3)"
  using distance_is_ultrametric [OF ram_units] by blast

text \<open>
  C20: The units proposed to grow an application are exactly the available ones that are as
  near to a unit in use as any available unit is to any unit in use.
\<close>

theorem nearest_units:
  "a \<in> set (getNearestPUs topology used avail) \<longleftrightarrow>
     a \<in> set avail \<and> (\<exists>u\<in>set used. 0 \<le> getPUDistance topology u a \<and> getPUDistance topology u a \<le> INT_MAX \<and>
       (\<forall>u'\<in>set used. \<forall>a'\<in>set avail. 0 \<le> getPUDistance topology u' a' \<longrightarrow>
          getPUDistance topology u a \<le> getPUDistance topology u' a'))"
  by (rule getNearestPUs_set)

theorem nearest_units_witness:
  "getNearestPUs ram_topology [0] [1, 2, 3] = [1] \<and>
   getPUDistance ram_topology 0 1 \<le> getPUDistance ram_topology 0 2 \<and>
   getPUDistance ram_topology 0 1 \<le> getPUDistance ram_topology 0 3"
proof -
  have n: "getNearestPUs ram_topology [0] [1, 2, 3] = [1]" by code_simp
  have "\<forall>a\<in>set [1, 2, 3]. 0 \<le> getPUDistance ram_topology 0 a" by code_simp
  with nearest_units [of 1 ram_topology "[0]" "[1, 2, 3]"] n show ?thesis by auto
qed

text \<open>
  A first unit is given where it costs least: with load figures, a unit of the lowest load
  among those that already run applications, or among all when none does; without, a unit
  with the fewest applications.
\<close>

theorem lowest_usage:
  assumes "length pus \<le> length appsOn" and "appsOn \<noteq> []" and "\<forall>x\<in>set pus. x < INT_MAX"
  shows "\<exists>r. getLowerUsagePU pus appsOn = Inr r \<and>
    (if pus \<noteq> [] then least_loaded pus appsOn {0..<int (length pus)} r
     else in_range appsOn r \<and> (\<forall>i. in_range appsOn i \<longrightarrow> load_of appsOn r \<le> load_of appsOn i))"
  using getLowerUsagePU_least [of pus appsOn] getLowerUsagePU_fallback [of pus appsOn] assms by auto

theorem lowest_usage_witness:
  "getLowerUsagePU [30, 10, 20, 5] [1, 0, 1, 0] = Inr 2 \<and> least_loaded [30, 10, 20, 5] [1, 0, 1, 0] {0..<4} 2"
proof -
  have e: "getLowerUsagePU [30, 10, 20, 5] [1, 0, 1, 0] = Inr 2" by code_simp
  have m: "\<forall>x\<in>set [30, 10, 20, 5]. x < INT_MAX" by code_simp
  from lowest_usage [OF _ _ m, of "[1, 0, 1, 0]"] e show ?thesis by simp
qed

text \<open>
  The unit given up is one of the application's own whose removal leaves the others
  closest together.
\<close>

theorem worst_unit:
  assumes "countPUs vec \<noteq> 1" and "toVector vec \<noteq> []"
    and "\<forall>i<length (toVector vec). total_distance topology (toVector vec) i < INT_MAX"
  shows "\<exists>n<length (toVector vec). pickWorstPU topology vec = toVector vec ! n \<and>
    (\<forall>i<length (toVector vec). total_distance topology (toVector vec) n \<le> total_distance topology (toVector vec) i)"
  using assms by (rule pickWorstPU_spec)

theorem worst_unit_witness:
  "pickWorstPU ram_topology [(0, 2)] = 2 \<and>
   total_distance ram_topology [0, 1, 2] 2 \<le> total_distance ram_topology [0, 1, 2] 0 \<and>
   total_distance ram_topology [0, 1, 2] 2 \<le> total_distance ram_topology [0, 1, 2] 1"
proof -
  have v: "toVector [(0, 2)] = [0, 1, 2]" "countPUs [(0, 2)] \<noteq> 1" by code_simp+
  have t: "list_all (\<lambda>i. total_distance ram_topology [0, 1, 2] i < INT_MAX) [0..<3]" by code_simp
  have p: "pickWorstPU ram_topology [(0, 2)] = 2" by code_simp
  from t have m: "\<forall>i<length (toVector [(0, 2)]). total_distance ram_topology (toVector [(0, 2)]) i < INT_MAX"
    by (simp add: v list_all_iff)
  from worst_unit [OF v(2) _ m] obtain n where n: "n < 3" "[0, 1, 2] ! n = (2 :: int)"
    and least: "\<forall>i<3. total_distance ram_topology [0, 1, 2] n \<le> total_distance ram_topology [0, 1, 2] i"
    using v(1) p by (auto simp: numeral_3_eq_3)
  from n have "n = 2" by (auto simp: less_Suc_eq numeral_3_eq_3)
  with least p show ?thesis by simp
qed

section \<open>Quotas\<close>

text \<open>The object of an application that runs on one unit, with a bandwidth of half of it.\<close>

definition demo_half :: app_mapping where
  "demo_half = demo_mapping\<lparr>puVec := [(2, 2)], cpuMax := NumericValue 50\<rparr>"

lemma demo_half_simps: "cpuMax demo_half = NumericValue 50" "am_countPUs demo_half = 1"
  by (simp_all add: demo_half_def demo_mapping_def new_app_mapping_def am_countPUs_def countPUs_def is_short_def)

text \<open>
  C21: A CPU bandwidth below that of the assigned units is raised by a step of the policies
  without being lowered and without going beyond those units: what is written lies between
  the two, in the floating point arithmetic of the code.
\<close>

theorem quota_grows_within_units:
  assumes "cpuMax am = NumericValue w" and "am_countPUs am = n" "n \<le> 2 ^ 15" and "uint w < n * 100" and "quota_scale s"
  shows "\<exists>b. uint w \<le> b \<and> b \<le> n * 100 \<and>
    increaseCPUquota pf s (k, am) = bnd (setCpuMax pf (NumericValue (to_u64 b))) (\<lambda>_. ret True) (k, am)"
  by (rule increase_outcome [OF assms]) blast

theorem quota_grows_within_units_witness:
  "\<exists>b. 50 \<le> b \<and> b \<le> 100 \<and> increaseCPUquota ram_os (f32_of_double 15 100) (ram_start, demo_half)
    = bnd (setCpuMax ram_os (NumericValue (to_u64 b))) (\<lambda>_. ret True) (ram_start, demo_half)"
  using quota_grows_within_units [OF demo_half_simps _ _ quota_scale_15(1), of ram_os ram_start] by simp

text \<open>
  A bandwidth above that of all the units but one is lowered by a step without being
  raised and without going below those units; \<open>max\<close> counts as all of the assigned units.
\<close>

theorem quota_shrinks_within_units:
  assumes "1 \<le> am_countPUs am" "am_countPUs am \<le> 2 ^ 15" and "\<not> isInvalid (cpuMax am)"
    and "(am_countPUs am - 1) * 100 < band am" "0 < band am" "band am < 2 ^ 23" and "quota_scale s"
  shows "\<exists>b. (am_countPUs am - 1) * 100 \<le> b \<and> b \<le> band am \<and>
    decreaseCPUquota pf s (k, am) = bnd (setCpuMax pf (NumericValue (to_u64 b))) (\<lambda>_. ret True) (k, am)"
  by (rule decrease_outcome [OF assms]) blast

theorem quota_shrinks_within_units_witness:
  "\<exists>b. 0 \<le> b \<and> b \<le> 50 \<and> decreaseCPUquota ram_os (f32_of_double 15 100) (ram_start, demo_half)
    = bnd (setCpuMax ram_os (NumericValue (to_u64 b))) (\<lambda>_. ret True) (ram_start, demo_half)"
proof -
  have i: "\<not> isInvalid (cpuMax demo_half)" "band demo_half = 50"
    using not_invalid_small [of 50] by (simp_all add: demo_half_simps band_def)
  show ?thesis
    using quota_shrinks_within_units [OF _ _ i(1) _ _ _ quota_scale_15(1), of ram_os ram_start]
    by (simp add: demo_half_simps i(2))
qed

text \<open>
  A bandwidth of 6% or less is not raised at all by a step of the policies, although the
  function reports success: the product is truncated to the value before.
\<close>

theorem small_quota_stuck:
  assumes "cpuMax am = NumericValue w" "uint w \<le> 6" and "1 \<le> am_countPUs am" "am_countPUs am \<le> 2 ^ 15"
  shows "increaseCPUquota pf (f32_of_double 15 100) (k, am)
    = bnd (setCpuMax pf (NumericValue w)) (\<lambda>_. ret True) (k, am)"
  using assms by (rule increase_stuck)

theorem small_quota_stuck_witness:
  "increaseCPUquota ram_os (f32_of_double 15 100) (ram_start, demo_half\<lparr>cpuMax := NumericValue 6\<rparr>)
    = bnd (setCpuMax ram_os (NumericValue 6)) (\<lambda>_. ret True) (ram_start, demo_half\<lparr>cpuMax := NumericValue 6\<rparr>)"
proof (rule small_quota_stuck)
  have "am_countPUs (demo_half\<lparr>cpuMax := NumericValue 6\<rparr>) = am_countPUs demo_half" by (simp add: am_countPUs_def)
  then show "1 \<le> am_countPUs (demo_half\<lparr>cpuMax := NumericValue 6\<rparr>)" "am_countPUs (demo_half\<lparr>cpuMax := NumericValue 6\<rparr>) \<le> 2 ^ 15"
    by (simp_all add: demo_half_simps)
qed simp_all

text \<open>
  The memory limit read from a mapping is the one set as long as it is below 2 GiB; from
  there up to 4 GiB the 32-bit cache turns it into a limit close to \<open>2 ^ 64\<close>.
\<close>

theorem memory_limit_narrowed:
  assumes "setMaxMemory pf v s = (Inr (), t)" and "u64_to_int (nv_value v) \<noteq> - 1"
  shows "getMaxMemory pf t = (Inr (NumericValue (to_u64 (u64_to_int (nv_value v)))), t) \<and>
    (uint (nv_value v) < 2 ^ 31 \<longrightarrow> getMaxMemory pf t = (Inr v, t)) \<and>
    (2 ^ 31 \<le> uint (nv_value v) \<and> uint (nv_value v) < 2 ^ 32 \<longrightarrow>
       uint (to_u64 (u64_to_int (nv_value v))) = uint (nv_value v) + 2 ^ 64 - 2 ^ 32)"
  using max_field_get [OF assms] narrowed_small [of "nv_value v"] narrowed_large [of "nv_value v"]
  by (cases v) auto

theorem memory_limit_narrowed_witness:
  "fst (setMaxMemory ram_os (NumericValue 2147483648) (ram_start, demo_mapping)) = Inr () \<and>
   fst (getMaxMemory ram_os (snd (setMaxMemory ram_os (NumericValue 2147483648) (ram_start, demo_mapping))))
     = Inr (NumericValue 18446744071562067968)"
proof -
  have t: "nv_show (NumericValue 2147483648) = ''2147483648''"
    by (simp add: nv_show_def NUMERIC_VALUE_MAX_def NUMERIC_VALUE_INVALID_def show_u64_def show_number)
  have "fst (setValue ram_os ''memory'' ''memory.max'' ''2147483648'' ram_app ram_start) = Inr ()" by code_simp
  note w = this
  have n: "u64_to_int 2147483648 = - 2147483648" "to_u64 (- 2147483648) = 18446744071562067968"
    by (simp_all add: u64_to_int_def to_int32_def to_u64_def)
  have i: "fst (setMaxMemory ram_os (NumericValue 2147483648) (ram_start, demo_mapping)) = Inr ()"
    using w by (auto simp: setMaxMemory_def mem_setMax_def t demo_mapping_def new_app_mapping_def act_defs split: prod.splits)
  then obtain t where "setMaxMemory ram_os (NumericValue 2147483648) (ram_start, demo_mapping) = (Inr (), t)"
    by (metis prod.collapse)
  from this memory_limit_narrowed [OF this] i show ?thesis by (simp add: n)
qed

section \<open>Threads\<close>

text \<open>
  C22: The queue between two threads neither loses nor doubles nor reorders an event: at every
  point of every run, what has been handed to the receiver, followed by what waits in the
  queue, is what has been pushed, whatever \<open>processEvent\<close> returns.
\<close>

theorem events_in_order:
  assumes "receiver_runs go new_receiver t"
  shows "rc_pushed t = rc_processed t @ rc_queue t"
  using in_order_run [OF assms] by (simp add: in_order_def new_receiver_def)

definition two_pushed :: "int receiver" where
  "two_pushed = new_receiver\<lparr>rc_queue := [1, 2], rc_pushed := [1, 2]\<rparr>"

lemma two_pushed_run: "receiver_runs go new_receiver two_pushed"
proof -
  have "receiver_step go new_receiver (new_receiver\<lparr>rc_queue := [1 :: int], rc_pushed := [1]\<rparr>)"
    using receiver_step.addEvent [of go new_receiver 1] by (simp add: new_receiver_def queue_push_def)
  moreover have "receiver_step go (new_receiver\<lparr>rc_queue := [1], rc_pushed := [1]\<rparr>) two_pushed"
    using receiver_step.addEvent [of go "new_receiver\<lparr>rc_queue := [1], rc_pushed := [1]\<rparr>" 2]
    by (simp add: new_receiver_def two_pushed_def queue_push_def)
  ultimately show ?thesis by (meson converse_rtranclp_into_rtranclp rtranclp.rtrancl_refl)
qed

theorem events_in_order_witness: "[1, 2] = rc_processed two_pushed @ [1, 2]"
  using events_in_order [OF two_pushed_run] by (simp add: two_pushed_def new_receiver_def)

text \<open>
  After \<open>stop\<close> a receiver processes at most one more event, and that only when its
  thread was already waiting for one.
\<close>

theorem stops_after_one:
  assumes "receiver_runs go s t" and "rc_stop s"
  shows "rc_stop t \<and> length (rc_processed t) \<le> length (rc_processed s) + (if rc_point s = Waiting then 1 else 0)"
  using stopped_run [OF assms] by (auto simp: budget_def split: if_splits)

theorem stops_after_one_witness:
  "length (rc_processed (two_pushed\<lparr>rc_stop := True, rc_point := Left\<rparr>)) \<le> length (rc_processed two_pushed)"
proof -
  let ?s = "two_pushed\<lparr>rc_stop := True\<rparr>"
  have "receiver_step (\<lambda>_. True) ?s (?s\<lparr>rc_point := Left\<rparr>)"
    by (rule receiver_step.test_off) (simp_all add: two_pushed_def new_receiver_def)
  from stops_after_one [OF r_into_rtranclp, OF this] show ?thesis
    by (simp add: two_pushed_def new_receiver_def)
qed

text \<open>
  A published event reaches exactly the receivers subscribed to its type, each as often as
  it has subscribed, in the order of their subscriptions; and publishing changes nobody's
  subscriptions.
\<close>

theorem published_to_subscribers:
  "fst (bus_publish ty (bus_of subs)) = map snd (filter (\<lambda>s. fst s = ty) subs) \<and>
   fst (bus_publish ty (snd (bus_publish ty' (bus_of subs)))) = fst (bus_publish ty (bus_of subs))"
proof
  show "fst (bus_publish ty (bus_of subs)) = map snd (filter (\<lambda>s. fst s = ty) subs)" by (rule publish_subscribed)
  show "fst (bus_publish ty (snd (bus_publish ty' (bus_of subs)))) = fst (bus_publish ty (bus_of subs))"
    using publish_keeps [of ty ty' "bus_of subs"] by (simp add: bus_publish_def split: option.split)
qed

text \<open>
  C23: The bus and the security monitor can deadlock: with one thread publishing the arrival of
  an application and the monitor's thread scanning at least one, there is a run after which
  each waits for the mutex the other holds.
\<close>

theorem publish_deadlocks_scan:
  "\<exists>s. lock_step\<^sup>*\<^sup>* (lock_start (publish_locks subscriber_locks) (scan_locks (Suc n))) s \<and> deadlocked s"
  by (rule deadlock_reached)

text \<open>
  C24: There is no other deadlock. Let any number of threads publish events, take events from
  the queue of a manager and handle them by publishing others, or scan and publish what they
  found, each as often and in the order it likes, where publishing an event takes the bus and
  then whatever its subscribers take. If ever nobody can go on who has something to do, then
  there is a security monitor, some thread publishes the arrival or the removal of an
  application, and some thread scans.
\<close>

theorem deadlock_needs_arrival_and_scan:
  assumes "lock_step\<^sup>*\<^sup>* (locks_start (working watching acts)) s" and "deadlocked s"
  shows "watching \<and> (\<exists>t. \<exists>a\<in>set (acts t). \<exists>ev\<in>set (published_events a). is_arrival ev) \<and>
    (\<exists>t. \<exists>a\<in>set (acts t). is_scan a)"
  using working_no_deadlock [OF assms(1)] assms(2) by blast

theorem deadlock_needs_arrival_and_scan_witness:
  "lock_step\<^sup>*\<^sup>* (locks_start (working True (crossing ram_app))) crossed \<and> deadlocked crossed \<and>
   (\<exists>t. \<exists>a\<in>set (crossing ram_app t). \<exists>ev\<in>set (published_events a). is_arrival ev) \<and>
   (\<exists>t. \<exists>a\<in>set (crossing ram_app t). is_scan a)"
  using deadlock_needs_arrival_and_scan [OF crossed_reached crossed_deadlocked, of ram_app] crossed_reached crossed_deadlocked
  by blast

end
